theory Spec2Isabelle
  imports Complex_Main
begin

section \<open>SketchRNN: recurrent cell, sequence runners, mixture and losses\<close>

text \<open>
  A shallow embedding of \<^verbatim>\<open>sketch_rnn/lstm.py\<close>, \<^verbatim>\<open>sketch_rnn/model.py\<close> and
  \<^verbatim>\<open>Trainer.step\<close> of \<^verbatim>\<open>sketch_rnn/trainer.py\<close>.

  The development has two layers. In the first, tensors are nested lists of real
  numbers: the arithmetic in which the formulas of the losses are written. It serves
  the statements that rounding does not affect: the order of the outputs of a layer,
  what a sum is divided by, what a call returns, which tensors a call leaves alone. A
  computation whose floating-point value would be infinite or NaN although no exception
  is raised (the mean of an empty tensor, a division by a zero temperature) returns
  \<open>NonFinite\<close> there.

  In the second layer, tensors hold floating-point values: a finite number, an infinity
  or NaN, and every arithmetic result is rounded. It serves the statements whose truth
  depends on rounding, overflow or NaN: the range of the hidden state of the recurrent
  cell, the sign and the zeros of the latent loss, and the positive definiteness of the
  covariance matrices.

  The operations of the tensor library are modelled on operands of equal shape, plus the
  addition of a bias vector to every row of a matrix, which the recurrent cell relies
  on. Operands of unequal shape give \<open>ShapeMismatch\<close>; the library's broadcasting of an
  axis of length one is not modelled. A nested list cannot record the inner dimensions
  of a tensor whose outer dimension is zero.
\<close>

subsection \<open>Errors and results\<close>

datatype error =
    ShapeMismatch
  | EmptyStack
  | IndexOutOfBounds
  | UnpackMismatch
  | NotPositiveDefinite
  | MathDomain
  | NonFinite
  | NotReal

definition and_then :: "error + 'a \<Rightarrow> ('a \<Rightarrow> error + 'b) \<Rightarrow> error + 'b" where
  "and_then m f = (case m of Inl e \<Rightarrow> Inl e | Inr x \<Rightarrow> f x)"

subsection \<open>Tensors of rank two\<close>

type_synonym vec = "real list"
type_synonym matrix = "real list list"

definition same_shape :: "'a list list \<Rightarrow> 'b list list \<Rightarrow> bool" where
  "same_shape a b \<longleftrightarrow> map length a = map length b"

text \<open>An elementwise binary operation (\<^verbatim>\<open>a + b\<close>, \<^verbatim>\<open>a * b\<close>) on two matrices.\<close>

definition ew :: "(real \<Rightarrow> real \<Rightarrow> real) \<Rightarrow> matrix \<Rightarrow> matrix \<Rightarrow> error + matrix" where
  "ew f a b = (if same_shape a b then Inr (map2 (map2 f) a b) else Inl ShapeMismatch)"

text \<open>\<^verbatim>\<open>m + bias\<close> for a matrix \<open>m\<close> and a vector: the vector is added to every row.\<close>

definition add_bias :: "matrix \<Rightarrow> vec \<Rightarrow> error + matrix" where
  "add_bias a v =
     (if list_all (\<lambda>r. length r = length v) a then Inr (map (\<lambda>r. map2 (+) r v) a)
      else Inl ShapeMismatch)"

text \<open>
  \<^verbatim>\<open>torch.mm(x, w.t())\<close>: entry \<open>(i, j)\<close> is the dot product of row \<open>i\<close> of \<open>x\<close> with row
  \<open>j\<close> of \<open>w\<close>.
\<close>

definition dot :: "vec \<Rightarrow> vec \<Rightarrow> real" where
  "dot u v = sum_list (map2 (*) u v)"

definition mm_t :: "matrix \<Rightarrow> matrix \<Rightarrow> error + matrix" where
  "mm_t x w =
     (if list_all (\<lambda>r. list_all (\<lambda>wr. length wr = length r) w) x
      then Inr (map (\<lambda>r. map (\<lambda>wr. dot r wr) w) x)
      else Inl ShapeMismatch)"

text \<open>
  \<^verbatim>\<open>a, b, c, d = gates.chunk(4, 1)\<close>: the columns are cut into pieces of
  \<open>\<lceil>n / 4\<rceil>\<close> columns. Fewer than four pieces make the unpacking fail; a width of zero
  gives four empty pieces.
\<close>

definition chunk4 :: "matrix \<Rightarrow> error + (matrix \<times> matrix \<times> matrix \<times> matrix)" where
  "chunk4 g =
     (let n = (case g of [] \<Rightarrow> 0 | r # _ \<Rightarrow> length r);
          k = (n + 3) div 4
      in if n = 0 \<or> 3 * k < n
         then Inr (map (take k) g,
                   map (\<lambda>r. take k (drop k r)) g,
                   map (\<lambda>r. take k (drop (2 * k) r)) g,
                   map (\<lambda>r. take k (drop (3 * k) r)) g)
         else Inl UnpackMismatch)"

definition sigmoid :: "real \<Rightarrow> real" where
  "sigmoid x = 1 / (1 + exp (- x))"

subsection \<open>lstm.py\<close>


record LSTMCell =
  input_size :: nat
  hidden_size :: nat
  weight_ih :: matrix
  weight_hh :: matrix
  bias_ih :: vec
  bias_hh :: vec

type_synonym lstm_state = "matrix \<times> matrix"

definition LSTMCell_forward ::
  "LSTMCell \<Rightarrow> matrix \<Rightarrow> lstm_state \<Rightarrow> error + (matrix \<times> lstm_state)" where
  "LSTMCell_forward self input state =
     (case state of (hx, cx) \<Rightarrow>
        and_then (mm_t input (weight_ih self)) (\<lambda>g1.
        and_then (add_bias g1 (bias_ih self)) (\<lambda>g2.
        and_then (mm_t hx (weight_hh self)) (\<lambda>g3.
        and_then (ew (+) g2 g3) (\<lambda>g4.
        and_then (add_bias g4 (bias_hh self)) (\<lambda>gates.
        and_then (chunk4 gates) (\<lambda>(ingate, forgetgate, cellgate, outgate).
          let ingate = map (map sigmoid) ingate;
              forgetgate = map (map sigmoid) forgetgate;
              cellgate = map (map tanh) cellgate;
              outgate = map (map sigmoid) outgate
          in
        and_then (ew (*) forgetgate cx) (\<lambda>fc.
        and_then (ew (*) ingate cellgate) (\<lambda>ic.
        and_then (ew (+) fc ic) (\<lambda>cy.
        and_then (ew (*) outgate (map (map tanh) cy)) (\<lambda>hy.
          Inr (hy, (hy, cy)))))))))))))"






subsection \<open>Tensors of rank three\<close>

type_synonym 'a tensor3 = "'a list list list"

definition shape3 :: "'a tensor3 \<Rightarrow> nat list list" where
  "shape3 t = map (map length) t"

definition same_shape3 :: "'a tensor3 \<Rightarrow> 'b tensor3 \<Rightarrow> bool" where
  "same_shape3 a b \<longleftrightarrow> shape3 a = shape3 b"

definition map3 :: "('a \<Rightarrow> 'b) \<Rightarrow> 'a tensor3 \<Rightarrow> 'b tensor3" where
  "map3 f t = map (map (map f)) t"

definition flat :: "'a tensor3 \<Rightarrow> 'a list" where
  "flat t = concat (concat t)"

definition ew3 :: "('a \<Rightarrow> 'b \<Rightarrow> 'c) \<Rightarrow> 'a tensor3 \<Rightarrow> 'b tensor3 \<Rightarrow> error + 'c tensor3" where
  "ew3 f a b =
     (if same_shape3 a b then Inr (map2 (map2 (map2 f)) a b) else Inl ShapeMismatch)"

text \<open>\<^verbatim>\<open>torch.clamp_min\<close> and \<^verbatim>\<open>torch.clamp\<close>, elementwise.\<close>

definition clamp_min :: "real tensor3 \<Rightarrow> real \<Rightarrow> real tensor3" where
  "clamp_min t lo = map3 (\<lambda>v. max v lo) t"

definition clamp :: "real tensor3 \<Rightarrow> real \<Rightarrow> real \<Rightarrow> real tensor3" where
  "clamp t lo hi = map3 (\<lambda>v. min (max v lo) hi) t"

text \<open>
  \<^verbatim>\<open>torch.mean\<close> over all elements. The mean of a tensor without elements is NaN.
\<close>

definition mean_all :: "real list \<Rightarrow> error + real" where
  "mean_all xs = (if xs = [] then Inl NonFinite else Inr (sum_list xs / real (length xs)))"

definition mean2 :: "matrix \<Rightarrow> error + real" where
  "mean2 t = mean_all (concat t)"

definition mean3 :: "real tensor3 \<Rightarrow> error + real" where
  "mean3 t = mean_all (flat t)"

subsection \<open>The distributions of the tensor library\<close>

text \<open>
  \<^verbatim>\<open>torch.distributions.Categorical(logits=l)\<close> stores the logits minus their
  log-sum-exp over the last axis; its \<^verbatim>\<open>probs\<close> are the softmax of the stored logits over
  the last axis.
\<close>

record Categorical =
  logits :: "real tensor3"

definition logsumexp :: "real list \<Rightarrow> real" where
  "logsumexp row = ln (sum_list (map exp row))"

definition Categorical_init :: "real tensor3 \<Rightarrow> Categorical" where
  "Categorical_init l = \<lparr>logits = map (map (\<lambda>row. map (\<lambda>v. v - logsumexp row) row)) l\<rparr>"

definition softmax :: "real list \<Rightarrow> real list" where
  "softmax row = map (\<lambda>v. exp v / sum_list (map exp row)) row"

definition probs :: "Categorical \<Rightarrow> real tensor3" where
  "probs self = map (map softmax) (logits self)"

text \<open>
  A \<open>2 \<times> 2\<close> matrix \<open>[[a, b], [c, d]]\<close> is the pair of its rows. The Cholesky factor
  is computed from the lower triangle, and exists when both pivots are positive.
\<close>

type_synonym mat2 = "(real \<times> real) \<times> (real \<times> real)"

definition cholesky :: "mat2 \<Rightarrow> mat2 option" where
  "cholesky m =
     (case m of ((a, b), (c, d)) \<Rightarrow>
        if 0 < a then
          (let l11 = sqrt a; l21 = c / l11; r = d - l21 * l21
           in if 0 < r then Some ((l11, 0), (l21, sqrt r)) else None)
        else None)"

definition positive_definite :: "mat2 \<Rightarrow> bool" where
  "positive_definite m \<longleftrightarrow> fst (snd m) = snd (fst m) \<and> cholesky m \<noteq> None"

text \<open>
  \<^verbatim>\<open>torch.distributions.MultivariateNormal(mean, covariance_matrix=cov)\<close> for one
  two-dimensional normal distribution per element of a rank-three batch. The
  constructor rejects a covariance matrix that is not symmetric positive definite, and
  keeps the Cholesky factors.
\<close>

record MultivariateNormal =
  loc :: "(real \<times> real) tensor3"
  scale_tril :: "mat2 tensor3"

definition MultivariateNormal_init ::
  "(real \<times> real) tensor3 \<Rightarrow> mat2 tensor3 \<Rightarrow> error + MultivariateNormal" where
  "MultivariateNormal_init mean cov =
     (if \<not> same_shape3 mean cov then Inl ShapeMismatch
      else if \<not> list_all (list_all (list_all positive_definite)) cov
      then Inl NotPositiveDefinite
      else Inr \<lparr>loc = mean, scale_tril = map3 (\<lambda>m. the (cholesky m)) cov\<rparr>)"

text \<open>
  The log density of one component at one point: with \<open>L\<close> the Cholesky factor and
  \<open>y\<close> the solution of \<open>L y = value - loc\<close>, it is
  \<open>- (2 ln (2 \<pi>) + |y|\<^sup>2) / 2 - ln L\<^sub>1\<^sub>1 - ln L\<^sub>2\<^sub>2\<close>.
\<close>

definition mvn_log_prob :: "(real \<times> real) \<times> mat2 \<Rightarrow> real \<times> real \<Rightarrow> real" where
  "mvn_log_prob ml value =
     (case ml of ((mx, my), ((l11, l12), (l21, l22))) \<Rightarrow>
      case value of (x, y) \<Rightarrow>
        (let d1 = x - mx; d2 = y - my;
             y1 = d1 / l11; y2 = (d2 - l21 * y1) / l22;
             M = y1 * y1 + y2 * y2;
             half_log_det = ln l11 + ln l22
         in - (1 / 2) * (2 * ln (2 * pi) + M) - half_log_det))"

definition log_prob ::
  "MultivariateNormal \<Rightarrow> (real \<times> real) tensor3 \<Rightarrow> error + real tensor3" where
  "log_prob self value =
     and_then (ew3 Pair (loc self) (scale_tril self)) (\<lambda>ml. ew3 mvn_log_prob ml value)"

subsection \<open>model.py: the bivariate Gaussian mixture\<close>

text \<open>
  A mixture object holds references to six tensor objects. \<^verbatim>\<open>set_temperature\<close> updates
  tensors in place, so tensors live in a store, from addresses to tensor values, and two
  attributes that hold the same tensor object hold the same address.
\<close>

type_synonym addr = nat
type_synonym heap = "addr \<Rightarrow> real tensor3"

record BivariateGaussianMixture =
  pi_logits :: addr
  mu_x :: addr
  mu_y :: addr
  sigma_x :: addr
  sigma_y :: addr
  rho_xy :: addr

definition n_distributions :: "BivariateGaussianMixture \<Rightarrow> heap \<Rightarrow> nat" where
  "n_distributions self h =
     (case h (pi_logits self) of
        [] \<Rightarrow> 0
      | r # _ \<Rightarrow> (case r of [] \<Rightarrow> 0 | c # _ \<Rightarrow> length c))"

text \<open>
  \<^verbatim>\<open>set_temperature\<close> returns nothing; the model returns the error raised, if any, and
  the store after the call. \<^verbatim>\<open>math.sqrt\<close> raises on a negative temperature, after
  \<^verbatim>\<open>pi_logits\<close> has been divided. A zero temperature raises nothing and fills
  \<^verbatim>\<open>pi_logits\<close> with infinities and NaN, which a store of real tensors cannot hold.
\<close>

definition set_temperature ::
  "BivariateGaussianMixture \<Rightarrow> real \<Rightarrow> heap \<Rightarrow> error option \<times> heap" where
  "set_temperature self temperature h =
     (if temperature = 0 then (Some NonFinite, h)
      else
        (let h1 = h(pi_logits self := map3 (\<lambda>v. v / temperature) (h (pi_logits self)))
         in if temperature < 0 then (Some MathDomain, h1)
            else
              (let h2 = h1(sigma_x self := map3 (\<lambda>v. v * sqrt temperature) (h1 (sigma_x self)));
                   h3 = h2(sigma_y self := map3 (\<lambda>v. v * sqrt temperature) (h2 (sigma_y self)))
               in (None, h3))))"

text \<open>
  The four entries \<^verbatim>\<open>torch.stack([...], -1)\<close> of the covariance, viewed as
  \<open>2 \<times> 2\<close> matrices.
\<close>

definition stack4 ::
  "real tensor3 \<Rightarrow> real tensor3 \<Rightarrow> real tensor3 \<Rightarrow> real tensor3 \<Rightarrow> error + mat2 tensor3" where
  "stack4 a b c d =
     and_then (ew3 Pair a b) (\<lambda>ab.
     and_then (ew3 Pair c d) (\<lambda>cd.
     ew3 Pair ab cd))"

text \<open>The local \<^verbatim>\<open>cov\<close> of \<^verbatim>\<open>get_distribution\<close>, built from the clamped values.\<close>

definition covariance :: "BivariateGaussianMixture \<Rightarrow> heap \<Rightarrow> error + mat2 tensor3" where
  "covariance self h =
     (let sigma_x' = clamp_min (h (sigma_x self)) (1 / 100000);
          sigma_y' = clamp_min (h (sigma_y self)) (1 / 100000);
          rho_xy' = clamp (h (rho_xy self)) (- 1 + 1 / 100000) (1 - 1 / 100000)
      in and_then (ew3 (*) sigma_x' sigma_x') (\<lambda>xx.
         and_then (ew3 (*) rho_xy' sigma_x') (\<lambda>rx.
         and_then (ew3 (*) rx sigma_y') (\<lambda>xy.
         and_then (ew3 (*) rho_xy' sigma_x') (\<lambda>rx'.
         and_then (ew3 (*) rx' sigma_y') (\<lambda>yx.
         and_then (ew3 (*) sigma_y' sigma_y') (\<lambda>yy.
         stack4 xx xy yx yy)))))))"

text \<open>
  \<^verbatim>\<open>get_distribution\<close> reads the store and returns two fresh distribution objects; the
  store is returned with the result.
\<close>

definition get_distribution ::
  "BivariateGaussianMixture \<Rightarrow> heap \<Rightarrow> (error + Categorical \<times> MultivariateNormal) \<times> heap" where
  "get_distribution self h =
     (and_then (ew3 Pair (h (mu_x self)) (h (mu_y self))) (\<lambda>mean.
      and_then (covariance self h) (\<lambda>cov.
      and_then (MultivariateNormal_init mean cov) (\<lambda>multi_dist.
      let cat_dist = Categorical_init (h (pi_logits self))
      in Inr (cat_dist, multi_dist)))),
      h)"

subsection \<open>model.py: the losses\<close>

text \<open>
  \<^verbatim>\<open>target[:, :, 0:2].unsqueeze(-2).expand(-1, -1, n, -1)\<close>: the offset
  \<open>(\<Delta>x, \<Delta>y)\<close> of every position, repeated for each of the \<open>n\<close> components.
\<close>

definition expand_xy :: "real tensor3 \<Rightarrow> nat \<Rightarrow> error + (real \<times> real) tensor3" where
  "expand_xy target n =
     (if list_all (list_all (\<lambda>row. 2 \<le> length row)) target
      then Inr (map (map (\<lambda>row. replicate n (row ! 0, row ! 1))) target)
      else Inl ShapeMismatch)"

definition loss_stroke ::
  "matrix \<Rightarrow> real tensor3 \<Rightarrow> BivariateGaussianMixture \<Rightarrow> heap \<Rightarrow> error + real" where
  "loss_stroke mask' target dist' h =
     and_then (fst (get_distribution dist' h)) (\<lambda>(pi', mix).
     and_then (expand_xy target (n_distributions dist' h)) (\<lambda>xy.
     and_then (log_prob mix xy) (\<lambda>lp.
     and_then (ew3 (*) (probs pi') (map3 exp lp)) (\<lambda>weighted.
     let probs' = map (map sum_list) weighted
     in and_then (ew (*) mask' (map (map (\<lambda>p. ln (1 / 100000 + p))) probs')) (\<lambda>masked.
        and_then (mean2 masked) (\<lambda>m. Inr (- m)))))))"

definition loss_pen :: "real tensor3 \<Rightarrow> real tensor3 \<Rightarrow> error + real" where
  "loss_pen target q_logits =
     and_then (ew3 (*) (map (map (drop 2)) target) q_logits) (\<lambda>prod.
     and_then (mean3 prod) (\<lambda>m. Inr (- m)))"

definition ReconstructionLoss_forward ::
  "matrix \<Rightarrow> real tensor3 \<Rightarrow> BivariateGaussianMixture \<Rightarrow> real tensor3 \<Rightarrow> heap \<Rightarrow> error + real" where
  "ReconstructionLoss_forward mask' target dist' q_logits h =
     and_then (loss_stroke mask' target dist' h) (\<lambda>ls.
     and_then (loss_pen target q_logits) (\<lambda>lp.
     Inr (ls + lp)))"

definition KLDivLoss_forward :: "matrix \<Rightarrow> matrix \<Rightarrow> error + real" where
  "KLDivLoss_forward sigma_hat mu =
     and_then (ew (-) (map (map (\<lambda>s. 1 + s)) sigma_hat) (map (map (\<lambda>m. m ^ 2)) mu)) (\<lambda>d1.
     and_then (ew (-) d1 (map (map exp) sigma_hat)) (\<lambda>d2.
     and_then (mean2 d2) (\<lambda>m. Inr (- (1 / 2) * m))))"

subsection \<open>trainer.py: the training step\<close>

text \<open>\<^verbatim>\<open>torch.cat([a, b], 2)\<close>: the rows of \<open>b\<close> are appended to the rows of \<open>a\<close>.\<close>

definition cat2 :: "real tensor3 \<Rightarrow> real tensor3 \<Rightarrow> error + real tensor3" where
  "cat2 a b =
     (if map length a = map length b then Inr (map2 (map2 (@)) a b) else Inl ShapeMismatch)"

record HParams =
  use_eta :: bool
  kl_div_loss_weight :: real

text \<open>
  The encoder and the decoder wrap the recurrent network of the tensor library, with
  trained weights and, in the encoder, a random draw: here they are functions the
  trainer holds. The encoder returns \<open>(z, \<mu>, \<sigma>\<close>-hat\<open>)\<close>; the decoder returns the mixture
  object, the store that holds its tensors, and the pen log-probabilities.
\<close>

record Trainer =
  hp :: HParams
  eta_step :: real
  encoder :: "real tensor3 \<Rightarrow> error + (matrix \<times> matrix \<times> matrix)"
  decoder :: "real tensor3 \<Rightarrow> matrix \<Rightarrow> error + (BivariateGaussianMixture \<times> heap \<times> real tensor3)"

text \<open>
  \<^verbatim>\<open>Trainer.step\<close>. The batch is the pair of the data, \<open>B \<times> T \<times> 5\<close>, and the mask;
  \<^verbatim>\<open>transpose(0, 1)\<close> swaps the batch axis and the time axis. \<^verbatim>\<open>expand\<close> with the size
  \<open>-1\<close>, which \<^verbatim>\<open>data.shape[0] - 1\<close> is for data without a step, keeps the single copy of
  \<open>z\<close>. In training mode the method then updates the weights of the two networks, after
  the losses are computed; the update does not change the numbers returned.
\<close>

definition step ::
  "Trainer \<Rightarrow> real tensor3 \<times> matrix \<Rightarrow> bool \<Rightarrow> error + (real \<times> real \<times> real \<times> nat)" where
  "step self batch is_training =
     (let data = transpose (fst batch);
          mask' = transpose (snd batch);
          batch_items = length data
      in and_then (encoder self data) (\<lambda>(z, mu, sigma_hat).
         let z_stack = (if data = [] then [z] else replicate (length data - 1) z)
         in and_then (cat2 (butlast data) z_stack) (\<lambda>inputs.
            and_then (decoder self inputs z) (\<lambda>(dist', h, q_logits).
            and_then (KLDivLoss_forward sigma_hat mu) (\<lambda>kl.
            let kl_loss = (if use_eta (hp self) then kl * eta_step self else kl)
            in and_then (ReconstructionLoss_forward mask' (tl data) dist' q_logits h)
                 (\<lambda>reconstruction_loss.
               let loss = reconstruction_loss + kl_div_loss_weight (hp self) * kl_loss
               in Inr (loss, reconstruction_loss, kl_loss, batch_items)))))))"

subsection \<open>The losses as the specification states them\<close>

text \<open>
  The closed form of the bivariate normal density:
  \<open>f(x, y) = 1 / (2 \<pi> \<sigma>\<^sub>x \<sigma>\<^sub>y \<surd>(1 - \<rho>\<^sup>2)) \<cdot> exp (- z / (2 (1 - \<rho>\<^sup>2)))\<close> with
  \<open>z = (x - \<mu>\<^sub>x)\<^sup>2 / \<sigma>\<^sub>x\<^sup>2 + (y - \<mu>\<^sub>y)\<^sup>2 / \<sigma>\<^sub>y\<^sup>2 - 2 \<rho> (x - \<mu>\<^sub>x) (y - \<mu>\<^sub>y) / (\<sigma>\<^sub>x \<sigma>\<^sub>y)\<close>.
\<close>

definition bivariate_normal_pdf ::
  "real \<Rightarrow> real \<Rightarrow> real \<Rightarrow> real \<Rightarrow> real \<Rightarrow> real \<Rightarrow> real \<Rightarrow> real" where
  "bivariate_normal_pdf mx my sx sy rho x y =
     (let z = (x - mx)\<^sup>2 / sx\<^sup>2 + (y - my)\<^sup>2 / sy\<^sup>2 - 2 * rho * (x - mx) * (y - my) / (sx * sy)
      in 1 / (2 * pi * sx * sy * sqrt (1 - rho\<^sup>2)) * exp (- z / (2 * (1 - rho\<^sup>2))))"

text \<open>
  The mixture density at the true offset of position \<open>(t, b)\<close>: the sum over the
  components \<open>i\<close> of \<open>softmax(\<pi>)\<^sub>i\<close> times the density of component \<open>i\<close>, whose standard
  deviations and correlation are the clamped ones.
\<close>

definition mixture_density ::
  "BivariateGaussianMixture \<Rightarrow> heap \<Rightarrow> real tensor3 \<Rightarrow> nat \<Rightarrow> nat \<Rightarrow> real" where
  "mixture_density dist' h target t b =
     (\<Sum>i<length (h (pi_logits dist') ! t ! b).
        softmax (h (pi_logits dist') ! t ! b) ! i *
        bivariate_normal_pdf
          (h (mu_x dist') ! t ! b ! i) (h (mu_y dist') ! t ! b ! i)
          (max (h (sigma_x dist') ! t ! b ! i) (1 / 100000))
          (max (h (sigma_y dist') ! t ! b ! i) (1 / 100000))
          (min (max (h (rho_xy dist') ! t ! b ! i) (- 1 + 1 / 100000)) (1 - 1 / 100000))
          (target ! t ! b ! 0) (target ! t ! b ! 1))"

text \<open>
  The stroke loss as stated: minus the sum over all \<open>T \<cdot> B\<close> positions of
  \<open>mask \<cdot> log (10\<^sup>-\<^sup>5 + p)\<close>, divided by the padded length \<open>T\<close> times the batch size \<open>B\<close>.
\<close>

definition stroke_loss_spec ::
  "nat \<Rightarrow> nat \<Rightarrow> matrix \<Rightarrow> real tensor3 \<Rightarrow> BivariateGaussianMixture \<Rightarrow> heap \<Rightarrow> real" where
  "stroke_loss_spec T B mask' target dist' h =
     - (\<Sum>t<T. \<Sum>b<B. mask' ! t ! b * ln (1 / 100000 + mixture_density dist' h target t b))
       / (real T * real B)"

text \<open>
  The pen loss as stated: minus the sum over all positions and the three pen classes of
  \<open>target\<^sub>p\<^sub>k \<cdot> log q\<^sub>k\<close>, divided by the number \<open>T \<cdot> B\<close> of positions.
\<close>

definition pen_loss_spec :: "real tensor3 \<Rightarrow> real tensor3 \<Rightarrow> real" where
  "pen_loss_spec target q_logits =
     - sum_list (flat (map2 (map2 (map2 (*))) (map (map (drop 2)) target) q_logits))
       / real (length (concat target))"

text \<open>
  A batch of padded length \<open>T\<close> with \<open>B\<close> sequences and a mixture of \<open>M\<close> components:
  the mask is \<open>T \<times> B\<close>, the target \<open>T \<times> B \<times> 5\<close>, each mixture tensor \<open>T \<times> B \<times> M\<close>.
\<close>

definition wf_batch ::
  "nat \<Rightarrow> nat \<Rightarrow> nat \<Rightarrow> matrix \<Rightarrow> real tensor3 \<Rightarrow> BivariateGaussianMixture \<Rightarrow> heap \<Rightarrow> bool" where
  "wf_batch T B M mask' target dist' h \<longleftrightarrow>
     0 < T \<and> 0 < B \<and> 0 < M
     \<and> map length mask' = replicate T B
     \<and> shape3 target = replicate T (replicate B 5)
     \<and> shape3 (h (pi_logits dist')) = replicate T (replicate B M)
     \<and> shape3 (h (mu_x dist')) = replicate T (replicate B M)
     \<and> shape3 (h (mu_y dist')) = replicate T (replicate B M)
     \<and> shape3 (h (sigma_x dist')) = replicate T (replicate B M)
     \<and> shape3 (h (sigma_y dist')) = replicate T (replicate B M)
     \<and> shape3 (h (rho_xy dist')) = replicate T (replicate B M)"

text \<open>
  Two batches hold the same first step when the target and the six mixture tensors agree
  at the first time step.
\<close>

definition same_first_step ::
  "real tensor3 \<Rightarrow> BivariateGaussianMixture \<Rightarrow> heap \<Rightarrow>
   real tensor3 \<Rightarrow> BivariateGaussianMixture \<Rightarrow> heap \<Rightarrow> bool" where
  "same_first_step target1 dist1 h1 target2 dist2 h2 \<longleftrightarrow>
     target1 ! 0 = target2 ! 0
     \<and> h1 (pi_logits dist1) ! 0 = h2 (pi_logits dist2) ! 0
     \<and> h1 (mu_x dist1) ! 0 = h2 (mu_x dist2) ! 0
     \<and> h1 (mu_y dist1) ! 0 = h2 (mu_y dist2) ! 0
     \<and> h1 (sigma_x dist1) ! 0 = h2 (sigma_x dist2) ! 0
     \<and> h1 (sigma_y dist1) ! 0 = h2 (sigma_y dist2) ! 0
     \<and> h1 (rho_xy dist1) ! 0 = h2 (rho_xy dist2) ! 0"

text \<open>
  The mask of one sequence padded to \<open>T\<close> steps whose first step is the only valid one.
\<close>

definition single_valid_mask :: "nat \<Rightarrow> matrix" where
  "single_valid_mask T = [1] # replicate (T - 1) [0]"

text \<open>
  The tensor of shape \<open>T \<times> B \<times> M\<close> with the entry \<open>f t b i\<close> at position \<open>(t, b, i)\<close>,
  and the matrix of shape \<open>T \<times> B\<close> with the entry \<open>f t b\<close>: every tensor of that shape
  is the table of its entries.
\<close>

definition tab3 :: "nat \<Rightarrow> nat \<Rightarrow> nat \<Rightarrow> (nat \<Rightarrow> nat \<Rightarrow> nat \<Rightarrow> 'a) \<Rightarrow> 'a tensor3" where
  "tab3 T B M f = map (\<lambda>t. map (\<lambda>b. map (\<lambda>i. f t b i) [0..<M]) [0..<B]) [0..<T]"

definition tab2 :: "nat \<Rightarrow> nat \<Rightarrow> (nat \<Rightarrow> nat \<Rightarrow> 'a) \<Rightarrow> 'a list list" where
  "tab2 T B f = map (\<lambda>t. map (\<lambda>b. f t b) [0..<B]) [0..<T]"

subsection \<open>Concrete inputs\<close>




text \<open>
  One sequence padded to \<open>T\<close> steps: a target (one pen-down step at the origin, then
  end-of-sketch padding), and the store of a one-component mixture with \<open>\<pi> = 0\<close>,
  \<open>\<mu> = 0\<close>, \<open>\<sigma>\<^sub>x = s\<close>, \<open>\<sigma>\<^sub>y = 1\<close>, \<open>\<rho> = 0\<close> at every step.
\<close>

definition target_pad :: "nat \<Rightarrow> real tensor3" where
  "target_pad T = [[0, 0, 1, 0, 0]] # replicate (T - 1) [[0, 0, 0, 0, 1]]"

definition heap_pad :: "real \<Rightarrow> nat \<Rightarrow> heap" where
  "heap_pad s T = (\<lambda>a. replicate T [[0]])(3 := replicate T [[s]], 4 := replicate T [[1]])"

text \<open>Pen log-probabilities \<open>log (1/2, 1/4, 1/4)\<close> at one position.\<close>

definition q_logits0 :: "real tensor3" where
  "q_logits0 = [[[ln (1 / 2), ln (1 / 4), ln (1 / 4)]]]"

text \<open>A mixture object whose six tensors are six distinct tensor objects.\<close>

definition mix0 :: BivariateGaussianMixture where
  "mix0 = \<lparr>pi_logits = 0, mu_x = 1, mu_y = 2, sigma_x = 3, sigma_y = 4, rho_xy = 5\<rparr>"

text \<open>
  A batch of two sequences padded to three steps, with the mask of the two target steps,
  and a trainer whose encoder returns zeros and whose decoder returns a standard normal
  component at each of the two steps.
\<close>

definition batch0 :: "real tensor3 \<times> matrix" where
  "batch0 = ([[[0, 0, 1, 0, 0], [0, 0, 1, 0, 0], [0, 0, 0, 0, 1]],
              [[0, 0, 1, 0, 0], [0, 0, 1, 0, 0], [0, 0, 0, 0, 1]]],
             [[1, 1], [1, 1]])"

definition heap0 :: heap where
  "heap0 = (\<lambda>a. [[[0], [0]], [[0], [0]]])(3 := [[[1], [1]], [[1], [1]]], 4 := [[[1], [1]], [[1], [1]]])"

definition trainer0 :: Trainer where
  "trainer0 =
     \<lparr>hp = \<lparr>use_eta = False, kl_div_loss_weight = 1 / 2\<rparr>,
      eta_step = 1,
      encoder = (\<lambda>data. Inr ([[0], [0]], [[0], [0]], [[0], [0]])),
      decoder = (\<lambda>inputs z. Inr (mix0, heap0,
        [[[ln (1 / 2), ln (1 / 4), ln (1 / 4)], [ln (1 / 2), ln (1 / 4), ln (1 / 4)]],
         [[ln (1 / 2), ln (1 / 4), ln (1 / 4)], [ln (1 / 2), ln (1 / 4), ln (1 / 4)]]]))\<rparr>"

subsection \<open>Floating-point values\<close>

text \<open>
  A floating-point value is a finite real number, an infinity or NaN; the two zeros are
  not distinguished. An operation on finite operands rounds its exact result with a
  function \<open>rnd\<close> from the reals to the floating-point values, which may overflow to an
  infinity. On other operands it follows IEEE 754: NaN propagates, and
  \<open>\<infinity> - \<infinity>\<close>, \<open>0 \<times> \<infinity>\<close>, \<open>\<infinity> / \<infinity>\<close> and \<open>0 / 0\<close> are NaN. A comparison with NaN is false.

  \<^verbatim>\<open>torch.exp\<close> and \<^verbatim>\<open>torch.tanh\<close> are taken correctly rounded; the library's are
  accurate to about one unit in the last place. \<^verbatim>\<open>torch.sigmoid\<close> computes
  \<open>1 / (1 + exp (- x))\<close>.
\<close>

datatype fval = Fin real | PInf | NInf | NaN

fun fle :: "fval \<Rightarrow> fval \<Rightarrow> bool" where
  "fle (Fin x) (Fin y) = (x \<le> y)"
| "fle NInf (Fin y) = True"
| "fle NInf NInf = True"
| "fle NInf PInf = True"
| "fle (Fin x) PInf = True"
| "fle PInf PInf = True"
| "fle _ _ = False"

fun flt :: "fval \<Rightarrow> fval \<Rightarrow> bool" where
  "flt (Fin x) (Fin y) = (x < y)"
| "flt NInf (Fin y) = True"
| "flt NInf PInf = True"
| "flt (Fin x) PInf = True"
| "flt _ _ = False"

fun neg_f :: "fval \<Rightarrow> fval" where
  "neg_f (Fin x) = Fin (- x)"
| "neg_f PInf = NInf"
| "neg_f NInf = PInf"
| "neg_f NaN = NaN"

fun add_f :: "(real \<Rightarrow> fval) \<Rightarrow> fval \<Rightarrow> fval \<Rightarrow> fval" where
  "add_f rnd (Fin x) (Fin y) = rnd (x + y)"
| "add_f rnd NaN _ = NaN"
| "add_f rnd _ NaN = NaN"
| "add_f rnd PInf NInf = NaN"
| "add_f rnd NInf PInf = NaN"
| "add_f rnd PInf _ = PInf"
| "add_f rnd _ PInf = PInf"
| "add_f rnd NInf _ = NInf"
| "add_f rnd _ NInf = NInf"

definition sub_f :: "(real \<Rightarrow> fval) \<Rightarrow> fval \<Rightarrow> fval \<Rightarrow> fval" where
  "sub_f rnd a b = add_f rnd a (neg_f b)"

fun positive_f :: "fval \<Rightarrow> bool" where
  "positive_f (Fin x) = (0 < x)"
| "positive_f PInf = True"
| "positive_f _ = False"

fun mul_f :: "(real \<Rightarrow> fval) \<Rightarrow> fval \<Rightarrow> fval \<Rightarrow> fval" where
  "mul_f rnd (Fin x) (Fin y) = rnd (x * y)"
| "mul_f rnd NaN _ = NaN"
| "mul_f rnd _ NaN = NaN"
| "mul_f rnd a b =
     (if a = Fin 0 \<or> b = Fin 0 then NaN
      else if positive_f a = positive_f b then PInf else NInf)"

fun div_f :: "(real \<Rightarrow> fval) \<Rightarrow> fval \<Rightarrow> fval \<Rightarrow> fval" where
  "div_f rnd (Fin x) (Fin y) =
     (if y \<noteq> 0 then rnd (x / y)
      else if x = 0 then NaN else if 0 < x then PInf else NInf)"
| "div_f rnd NaN _ = NaN"
| "div_f rnd _ NaN = NaN"
| "div_f rnd (Fin x) _ = Fin 0"
| "div_f rnd a (Fin y) = (if positive_f a = (0 \<le> y) then PInf else NInf)"
| "div_f rnd _ _ = NaN"

fun sqrt_f :: "(real \<Rightarrow> fval) \<Rightarrow> fval \<Rightarrow> fval" where
  "sqrt_f rnd (Fin x) = (if x < 0 then NaN else rnd (sqrt x))"
| "sqrt_f rnd PInf = PInf"
| "sqrt_f rnd _ = NaN"

fun exp_f :: "(real \<Rightarrow> fval) \<Rightarrow> fval \<Rightarrow> fval" where
  "exp_f rnd (Fin x) = rnd (exp x)"
| "exp_f rnd PInf = PInf"
| "exp_f rnd NInf = Fin 0"
| "exp_f rnd NaN = NaN"

fun tanh_f :: "(real \<Rightarrow> fval) \<Rightarrow> fval \<Rightarrow> fval" where
  "tanh_f rnd (Fin x) = rnd (tanh x)"
| "tanh_f rnd PInf = Fin 1"
| "tanh_f rnd NInf = Fin (- 1)"
| "tanh_f rnd NaN = NaN"

definition sigmoid_f :: "(real \<Rightarrow> fval) \<Rightarrow> fval \<Rightarrow> fval" where
  "sigmoid_f rnd v = div_f rnd (Fin 1) (add_f rnd (Fin 1) (exp_f rnd (neg_f v)))"

text \<open>
  What the statements below assume of a rounding function: it never returns NaN; it is
  monotone and odd; it maps the value of a floating-point number to itself, and so
  \<open>0\<close> and \<open>1\<close>; and a finite result is within the relative error \<open>2\<^sup>-\<^sup>2\<^sup>4\<close> of the exact
  one, up to \<open>2\<^sup>-\<^sup>1\<^sup>5\<^sup>0\<close> where the result underflows. Rounding to the nearest number of
  binary32, the default of the tensor library, is such a function, and so is rounding
  to the nearest number of binary64.
\<close>

definition rounding :: "(real \<Rightarrow> fval) \<Rightarrow> bool" where
  "rounding rnd \<longleftrightarrow>
     (\<forall>x. rnd x \<noteq> NaN)
     \<and> (\<forall>x y. x \<le> y \<longrightarrow> fle (rnd x) (rnd y))
     \<and> (\<forall>x r. rnd x = Fin r \<longrightarrow> rnd r = Fin r)
     \<and> (\<forall>x r. rnd x = Fin r \<longrightarrow> \<bar>r - x\<bar> \<le> \<bar>x\<bar> / 2 ^ 24 + 1 / 2 ^ 150)
     \<and> (\<forall>x. rnd (- x) = neg_f (rnd x))
     \<and> rnd 0 = Fin 0 \<and> rnd 1 = Fin 1"

text \<open>
  Rounding to nearest, ties to even, in binary32. The exponent of \<open>x\<close> is
  \<open>\<lfloor>log\<^sub>2 |x|\<rfloor>\<close>, and at least \<open>-126\<close>; the significand has \<open>24\<close> bits, so the numbers
  around \<open>x\<close> are the multiples of \<open>ulp32 x\<close>; a result above the largest finite number
  \<open>(2\<^sup>2\<^sup>4 - 1) 2\<^sup>1\<^sup>0\<^sup>4\<close> is an infinity.
\<close>

definition rne :: "real \<Rightarrow> int" where
  "rne y =
     (let f = \<lfloor>y\<rfloor>
      in if y - of_int f < 1 / 2 then f
         else if 1 / 2 < y - of_int f then f + 1
         else if even f then f else f + 1)"

definition maxf32 :: real where
  "maxf32 = (2 ^ 24 - 1) * 2 ^ 104"

definition exponent32 :: "real \<Rightarrow> int" where
  "exponent32 x = max \<lfloor>log 2 x\<rfloor> (- 126)"

definition ulp32 :: "real \<Rightarrow> real" where
  "ulp32 x = 2 powr (of_int (exponent32 x) - 23)"

definition nearest32 :: "real \<Rightarrow> real" where
  "nearest32 x = of_int (rne (x / ulp32 x)) * ulp32 x"

definition rnd32p :: "real \<Rightarrow> fval" where
  "rnd32p x = (if maxf32 < nearest32 x then PInf else Fin (nearest32 x))"

definition rnd32 :: "real \<Rightarrow> fval" where
  "rnd32 x = (if x = 0 then Fin 0 else if 0 < x then rnd32p x else neg_f (rnd32p (- x)))"

subsection \<open>lstm.py in floating point\<close>

text \<open>
  The operations of \<^verbatim>\<open>LSTMCell.forward\<close> on floating-point tensors. A dot product is
  accumulated from left to right.
\<close>

type_synonym fvec = "fval list"
type_synonym fmatrix = "fval list list"

definition ew_f :: "(fval \<Rightarrow> fval \<Rightarrow> fval) \<Rightarrow> fmatrix \<Rightarrow> fmatrix \<Rightarrow> error + fmatrix" where
  "ew_f f a b = (if same_shape a b then Inr (map2 (map2 f) a b) else Inl ShapeMismatch)"

definition add_bias_f :: "(real \<Rightarrow> fval) \<Rightarrow> fmatrix \<Rightarrow> fvec \<Rightarrow> error + fmatrix" where
  "add_bias_f rnd a v =
     (if list_all (\<lambda>r. length r = length v) a then Inr (map (\<lambda>r. map2 (add_f rnd) r v) a)
      else Inl ShapeMismatch)"

definition dot_f :: "(real \<Rightarrow> fval) \<Rightarrow> fvec \<Rightarrow> fvec \<Rightarrow> fval" where
  "dot_f rnd u v = foldl (add_f rnd) (Fin 0) (map2 (mul_f rnd) u v)"

definition mm_t_f :: "(real \<Rightarrow> fval) \<Rightarrow> fmatrix \<Rightarrow> fmatrix \<Rightarrow> error + fmatrix" where
  "mm_t_f rnd x w =
     (if list_all (\<lambda>r. list_all (\<lambda>wr. length wr = length r) w) x
      then Inr (map (\<lambda>r. map (\<lambda>wr. dot_f rnd r wr) w) x)
      else Inl ShapeMismatch)"

definition chunk4_f :: "fmatrix \<Rightarrow> error + (fmatrix \<times> fmatrix \<times> fmatrix \<times> fmatrix)" where
  "chunk4_f g =
     (let n = (case g of [] \<Rightarrow> 0 | r # _ \<Rightarrow> length r);
          k = (n + 3) div 4
      in if n = 0 \<or> 3 * k < n
         then Inr (map (take k) g,
                   map (\<lambda>r. take k (drop k r)) g,
                   map (\<lambda>r. take k (drop (2 * k) r)) g,
                   map (\<lambda>r. take k (drop (3 * k) r)) g)
         else Inl UnpackMismatch)"

record LSTMCell_fp =
  input_size_fp :: nat
  hidden_size_fp :: nat
  weight_ih_fp :: fmatrix
  weight_hh_fp :: fmatrix
  bias_ih_fp :: fvec
  bias_hh_fp :: fvec

definition LSTMCell_forward_fp ::
  "(real \<Rightarrow> fval) \<Rightarrow> LSTMCell_fp \<Rightarrow> fmatrix \<Rightarrow> fmatrix \<times> fmatrix
     \<Rightarrow> error + (fmatrix \<times> fmatrix \<times> fmatrix)" where
  "LSTMCell_forward_fp rnd self input state =
     (case state of (hx, cx) \<Rightarrow>
        and_then (mm_t_f rnd input (weight_ih_fp self)) (\<lambda>g1.
        and_then (add_bias_f rnd g1 (bias_ih_fp self)) (\<lambda>g2.
        and_then (mm_t_f rnd hx (weight_hh_fp self)) (\<lambda>g3.
        and_then (ew_f (add_f rnd) g2 g3) (\<lambda>g4.
        and_then (add_bias_f rnd g4 (bias_hh_fp self)) (\<lambda>gates.
        and_then (chunk4_f gates) (\<lambda>(ingate, forgetgate, cellgate, outgate).
          let ingate = map (map (sigmoid_f rnd)) ingate;
              forgetgate = map (map (sigmoid_f rnd)) forgetgate;
              cellgate = map (map (tanh_f rnd)) cellgate;
              outgate = map (map (sigmoid_f rnd)) outgate
          in
        and_then (ew_f (mul_f rnd) forgetgate cx) (\<lambda>fc.
        and_then (ew_f (mul_f rnd) ingate cellgate) (\<lambda>ic.
        and_then (ew_f (add_f rnd) fc ic) (\<lambda>cy.
        and_then (ew_f (mul_f rnd) outgate (map (map (tanh_f rnd)) cy)) (\<lambda>hy.
          Inr (hy, (hy, cy)))))))))))))"

subsection \<open>model.py in floating point: the latent loss\<close>

text \<open>
  \<^verbatim>\<open>torch.mean\<close> is the sum of the elements, accumulated from left to right, divided by
  their number; the mean of no element is \<open>0 / 0\<close>, NaN, and no exception.
  \<^verbatim>\<open>mu ** 2\<close> is \<open>mu * mu\<close>.
\<close>

definition mean_f :: "(real \<Rightarrow> fval) \<Rightarrow> fval list \<Rightarrow> fval" where
  "mean_f rnd xs = div_f rnd (foldl (add_f rnd) (Fin 0) xs) (rnd (real (length xs)))"

definition KLDivLoss_forward_fp :: "(real \<Rightarrow> fval) \<Rightarrow> fmatrix \<Rightarrow> fmatrix \<Rightarrow> error + fval" where
  "KLDivLoss_forward_fp rnd sigma_hat mu =
     and_then (ew_f (sub_f rnd) (map (map (\<lambda>s. add_f rnd (Fin 1) s)) sigma_hat)
                                (map (map (\<lambda>m. mul_f rnd m m)) mu)) (\<lambda>d1.
     and_then (ew_f (sub_f rnd) d1 (map (map (exp_f rnd)) sigma_hat)) (\<lambda>d2.
     Inr (mul_f rnd (Fin (- (1 / 2))) (mean_f rnd (concat d2)))))"



subsection \<open>model.py in floating point: the covariance\<close>

text \<open>
  \<^verbatim>\<open>torch.clamp_min\<close> and \<^verbatim>\<open>torch.clamp\<close> leave NaN as it is. The bounds \<^verbatim>\<open>1e-5\<close>,
  \<^verbatim>\<open>-1 + 1e-5\<close> and \<^verbatim>\<open>1 - 1e-5\<close> are rounded to the format of the tensor.
\<close>

type_synonym fheap = "addr \<Rightarrow> fval tensor3"
type_synonym fmat2 = "(fval \<times> fval) \<times> (fval \<times> fval)"

definition max_f :: "fval \<Rightarrow> fval \<Rightarrow> fval" where
  "max_f v lo = (if v = NaN then NaN else if fle v lo then lo else v)"

definition min_f :: "fval \<Rightarrow> fval \<Rightarrow> fval" where
  "min_f v hi = (if v = NaN then NaN else if fle hi v then hi else v)"

definition clamp_min_fp :: "fval tensor3 \<Rightarrow> fval \<Rightarrow> fval tensor3" where
  "clamp_min_fp t lo = map3 (\<lambda>v. max_f v lo) t"

definition clamp_fp :: "fval tensor3 \<Rightarrow> fval \<Rightarrow> fval \<Rightarrow> fval tensor3" where
  "clamp_fp t lo hi = map3 (\<lambda>v. min_f (max_f v lo) hi) t"

definition stack4_fp ::
  "fval tensor3 \<Rightarrow> fval tensor3 \<Rightarrow> fval tensor3 \<Rightarrow> fval tensor3 \<Rightarrow> error + fmat2 tensor3" where
  "stack4_fp a b c d =
     and_then (ew3 Pair a b) (\<lambda>ab.
     and_then (ew3 Pair c d) (\<lambda>cd.
     ew3 Pair ab cd))"

definition covariance_fp ::
  "(real \<Rightarrow> fval) \<Rightarrow> BivariateGaussianMixture \<Rightarrow> fheap \<Rightarrow> error + fmat2 tensor3" where
  "covariance_fp rnd self h =
     (let sigma_x' = clamp_min_fp (h (sigma_x self)) (rnd (1 / 100000));
          sigma_y' = clamp_min_fp (h (sigma_y self)) (rnd (1 / 100000));
          rho_xy' = clamp_fp (h (rho_xy self)) (rnd (- 1 + 1 / 100000)) (rnd (1 - 1 / 100000))
      in and_then (ew3 (mul_f rnd) sigma_x' sigma_x') (\<lambda>xx.
         and_then (ew3 (mul_f rnd) rho_xy' sigma_x') (\<lambda>rx.
         and_then (ew3 (mul_f rnd) rx sigma_y') (\<lambda>xy.
         and_then (ew3 (mul_f rnd) rho_xy' sigma_x') (\<lambda>rx'.
         and_then (ew3 (mul_f rnd) rx' sigma_y') (\<lambda>yx.
         and_then (ew3 (mul_f rnd) sigma_y' sigma_y') (\<lambda>yy.
         stack4_fp xx xy yx yy)))))))"

text \<open>
  The check of \<^verbatim>\<open>constraints.positive_definite\<close>. First the matrix must be symmetric:
  \<^verbatim>\<open>torch.isclose(value, value.mT, atol=1e-6)\<close>, with the default relative tolerance
  \<^verbatim>\<open>1e-5\<close>, holds for every entry; NaN is close to nothing, an infinity is close to
  itself, and the tolerance for finite entries is computed exactly here. Then
  \<^verbatim>\<open>torch.linalg.cholesky_ex\<close> must report no failure: the factorisation, computed
  from the lower triangle, finds both pivots positive. What the factorisation routine
  reports for a matrix with an infinite entry depends on the linear-algebra library;
  it is left open, as the parameter \<open>accepts\<close>.
\<close>

fun is_finite :: "fval \<Rightarrow> bool" where
  "is_finite (Fin x) = True"
| "is_finite _ = False"

definition all_finite :: "fmat2 \<Rightarrow> bool" where
  "all_finite m \<longleftrightarrow>
     is_finite (fst (fst m)) \<and> is_finite (snd (fst m))
     \<and> is_finite (fst (snd m)) \<and> is_finite (snd (snd m))"

fun isclose :: "fval \<Rightarrow> fval \<Rightarrow> bool" where
  "isclose (Fin x) (Fin y) = (\<bar>x - y\<bar> \<le> 1 / 1000000 + \<bar>y\<bar> / 100000)"
| "isclose PInf PInf = True"
| "isclose NInf NInf = True"
| "isclose _ _ = False"

definition symmetric_fp :: "fmat2 \<Rightarrow> bool" where
  "symmetric_fp m \<longleftrightarrow>
     (case m of ((a, b), (c, d)) \<Rightarrow> isclose a a \<and> isclose b c \<and> isclose c b \<and> isclose d d)"

definition cholesky_fp :: "(real \<Rightarrow> fval) \<Rightarrow> fmat2 \<Rightarrow> fmat2 option" where
  "cholesky_fp rnd m =
     (case m of ((a, b), (c, d)) \<Rightarrow>
        if flt (Fin 0) a then
          (let l11 = sqrt_f rnd a; l21 = div_f rnd c l11; r = sub_f rnd d (mul_f rnd l21 l21)
           in if flt (Fin 0) r then Some ((l11, Fin 0), (l21, sqrt_f rnd r)) else None)
        else None)"

definition positive_definite_fp :: "(real \<Rightarrow> fval) \<Rightarrow> (fmat2 \<Rightarrow> bool) \<Rightarrow> fmat2 \<Rightarrow> bool" where
  "positive_definite_fp rnd accepts m \<longleftrightarrow>
     symmetric_fp m \<and> (if all_finite m then cholesky_fp rnd m \<noteq> None else accepts m)"

text \<open>
  The constructor \<^verbatim>\<open>MultivariateNormal(mean, covariance_matrix=cov)\<close> validates its
  arguments in the order \<^verbatim>\<open>loc\<close>, \<^verbatim>\<open>covariance_matrix\<close>: a NaN in \<^verbatim>\<open>loc\<close> raises a
  \<^verbatim>\<open>ValueError\<close> (\<open>NotReal\<close>), a covariance matrix that fails the check another
  (\<open>NotPositiveDefinite\<close>). It keeps the factors.
\<close>

definition MultivariateNormal_init_fp ::
  "(real \<Rightarrow> fval) \<Rightarrow> (fmat2 \<Rightarrow> bool) \<Rightarrow> (fval \<times> fval) tensor3 \<Rightarrow> fmat2 tensor3
     \<Rightarrow> error + (fval \<times> fval) tensor3 \<times> fmat2 option tensor3" where
  "MultivariateNormal_init_fp rnd accepts mean cov =
     (if \<not> same_shape3 mean cov then Inl ShapeMismatch
      else if \<not> list_all (list_all (list_all (\<lambda>(x, y). x \<noteq> NaN \<and> y \<noteq> NaN))) mean
      then Inl NotReal
      else if \<not> list_all (list_all (list_all (positive_definite_fp rnd accepts))) cov
      then Inl NotPositiveDefinite
      else Inr (mean, map3 (cholesky_fp rnd) cov))"

text \<open>
  The statements of \<^verbatim>\<open>get_distribution\<close> up to the construction of \<^verbatim>\<open>multi_dist\<close>, on
  a store of floating-point tensors.
\<close>

definition multi_dist_fp ::
  "(real \<Rightarrow> fval) \<Rightarrow> (fmat2 \<Rightarrow> bool) \<Rightarrow> BivariateGaussianMixture \<Rightarrow> fheap
     \<Rightarrow> error + (fval \<times> fval) tensor3 \<times> fmat2 option tensor3" where
  "multi_dist_fp rnd accepts self h =
     and_then (ew3 Pair (h (mu_x self)) (h (mu_y self))) (\<lambda>mean.
     and_then (covariance_fp rnd self h) (\<lambda>cov.
     MultivariateNormal_init_fp rnd accepts mean cov))"

subsection \<open>model.py: tensor objects as views of storage\<close>

text \<open>
  For the question which tensors \<^verbatim>\<open>set_temperature\<close> changes, a tensor object is a
  view: the storage locations of its elements, each a storage and an offset. Two tensor
  objects may share locations (one object held under two names, overlapping slices);
  the pieces that \<^verbatim>\<open>torch.split\<close> returns share a storage and no location. Memory maps
  every location to its value.

  An in-place operation writes through the view. It is refused, with a
  \<^verbatim>\<open>RuntimeError\<close> and before anything is written, when autograd does not allow it (a
  leaf that requires gradients, or a piece of \<^verbatim>\<open>torch.split\<close> of a tensor that requires
  gradients, while gradients are recorded), or when two elements of the view share a
  location.
\<close>

type_synonym location = "nat \<times> nat"
type_synonym memory = "location \<Rightarrow> real"

record tensor_view =
  locations :: "location list"
  inplace_allowed :: bool

record BivariateGaussianMixture_v =
  pi_logits_v :: tensor_view
  mu_x_v :: tensor_view
  mu_y_v :: tensor_view
  sigma_x_v :: tensor_view
  sigma_y_v :: tensor_view
  rho_xy_v :: tensor_view

definition values_of :: "memory \<Rightarrow> tensor_view \<Rightarrow> real list" where
  "values_of m t = map m (locations t)"

datatype inplace_error = InplaceRefused | SqrtDomain | NonFiniteValue

definition inplace ::
  "(real \<Rightarrow> real) \<Rightarrow> tensor_view \<Rightarrow> memory \<Rightarrow> inplace_error + memory" where
  "inplace f t m =
     (if inplace_allowed t \<and> distinct (locations t)
      then Inr (\<lambda>l. if l \<in> set (locations t) then f (m l) else m l)
      else Inl InplaceRefused)"

text \<open>
  \<^verbatim>\<open>set_temperature\<close> on views: the error raised, if any, and the memory after the
  call. As in the model above, a zero temperature, whose results are not finite, is
  outside what a memory of real numbers holds.
\<close>

definition set_temperature_v ::
  "BivariateGaussianMixture_v \<Rightarrow> real \<Rightarrow> memory \<Rightarrow> inplace_error option \<times> memory" where
  "set_temperature_v self temperature m =
     (if temperature = 0 then (Some NonFiniteValue, m)
      else
        (case inplace (\<lambda>v. v / temperature) (pi_logits_v self) m of
           Inl e \<Rightarrow> (Some e, m)
         | Inr m1 \<Rightarrow>
             if temperature < 0 then (Some SqrtDomain, m1)
             else
               (case inplace (\<lambda>v. v * sqrt temperature) (sigma_x_v self) m1 of
                  Inl e \<Rightarrow> (Some e, m1)
                | Inr m2 \<Rightarrow>
                    (case inplace (\<lambda>v. v * sqrt temperature) (sigma_y_v self) m2 of
                       Inl e \<Rightarrow> (Some e, m2)
                     | Inr m3 \<Rightarrow> (None, m3)))))"

text \<open>The locations of the three tensors that \<^verbatim>\<open>set_temperature\<close> updates.\<close>

definition written :: "BivariateGaussianMixture_v \<Rightarrow> location set" where
  "written self =
     set (locations (pi_logits_v self)) \<union> set (locations (sigma_x_v self))
     \<union> set (locations (sigma_y_v self))"

subsection \<open>Concrete inputs in floating point and on views\<close>

text \<open>
  A cell of hidden width one whose four gates read the input with the weight \<open>100\<close>.
\<close>

definition cell_sat :: LSTMCell_fp where
  "cell_sat =
     \<lparr>input_size_fp = 1, hidden_size_fp = 1,
      weight_ih_fp = [[Fin 100], [Fin 100], [Fin 100], [Fin 100]],
      weight_hh_fp = [[Fin 0], [Fin 0], [Fin 0], [Fin 0]],
      bias_ih_fp = [Fin 0, Fin 0, Fin 0, Fin 0],
      bias_hh_fp = [Fin 0, Fin 0, Fin 0, Fin 0]\<rparr>"

text \<open>
  Stores for \<open>mix0\<close>: one with a NaN standard deviation; one with unit standard
  deviations and no correlation; one with standard deviations at and below zero and a
  correlation of exactly one; one with an infinite standard deviation and no
  correlation; one with the standard deviation \<open>2\<^sup>7\<^sup>0\<close>.
\<close>

definition fheap_nan :: fheap where
  "fheap_nan = (\<lambda>a. if a = 3 then [[[NaN]]] else [[[Fin 1]]])"

definition fheap_unit :: fheap where
  "fheap_unit = (\<lambda>a. if a = 5 then [[[Fin 0]]] else [[[Fin 1]]])"

definition fheap_degenerate :: fheap where
  "fheap_degenerate =
     (\<lambda>a. if a = 3 then [[[Fin 0]]] else if a = 4 then [[[Fin (- 1)]]]
          else if a = 5 then [[[Fin 1]]] else [[[Fin 0]]])"

definition fheap_inf :: fheap where
  "fheap_inf = (\<lambda>a. if a = 3 then [[[PInf]]] else if a = 5 then [[[Fin 0]]] else [[[Fin 1]]])"

definition fheap_big :: fheap where
  "fheap_big = (\<lambda>a. if a = 3 then [[[Fin (2 ^ 70)]]] else if a = 5 then [[[Fin 0]]] else [[[Fin 1]]])"

text \<open>
  A view of the given offsets of a storage. A mixture as \<^verbatim>\<open>DecoderRNN.forward\<close> builds
  it: \<^verbatim>\<open>pi_logits\<close>, \<^verbatim>\<open>mu_x\<close> and \<^verbatim>\<open>mu_y\<close> are pieces of one split, the other three
  are tensors of their own; the flag says whether the pieces may be updated in place.
  A mixture built with one tensor object as both \<^verbatim>\<open>pi_logits\<close> and \<^verbatim>\<open>mu_x\<close>, and one
  built with two overlapping slices of a tensor. A memory that holds \<open>1\<close> everywhere.
\<close>

definition view :: "nat \<Rightarrow> nat list \<Rightarrow> bool \<Rightarrow> tensor_view" where
  "view s offsets w = \<lparr>locations = map (Pair s) offsets, inplace_allowed = w\<rparr>"

definition mix_split :: "bool \<Rightarrow> BivariateGaussianMixture_v" where
  "mix_split w =
     \<lparr>pi_logits_v = view 0 [0] w, mu_x_v = view 0 [1] w, mu_y_v = view 0 [2] w,
      sigma_x_v = view 1 [0] True, sigma_y_v = view 2 [0] True, rho_xy_v = view 3 [0] True\<rparr>"

definition mix_alias :: BivariateGaussianMixture_v where
  "mix_alias =
     \<lparr>pi_logits_v = view 0 [0] True, mu_x_v = view 0 [0] True, mu_y_v = view 4 [0] True,
      sigma_x_v = view 1 [0] True, sigma_y_v = view 2 [0] True, rho_xy_v = view 3 [0] True\<rparr>"

definition mix_overlap :: BivariateGaussianMixture_v where
  "mix_overlap =
     \<lparr>pi_logits_v = view 0 [0, 1] True, mu_x_v = view 0 [1, 2] True, mu_y_v = view 4 [0] True,
      sigma_x_v = view 1 [0] True, sigma_y_v = view 2 [0] True, rho_xy_v = view 3 [0] True\<rparr>"

definition memory_ones :: memory where
  "memory_ones = (\<lambda>l. 1)"

section \<open>Properties\<close>

subsection \<open>Results and elementwise operations\<close>

lemma and_then_Inr_iff:
  "and_then m f = Inr y \<longleftrightarrow> (\<exists>x. m = Inr x \<and> f x = Inr y)"
  by (cases m) (simp_all add: and_then_def)

lemma ew_elems:
  assumes "ew f a b = Inr c" and "r \<in> set c" and "v \<in> set r"
  shows "\<exists>ra\<in>set a. \<exists>x\<in>set ra. \<exists>rb\<in>set b. \<exists>y\<in>set rb. v = f x y"
proof -
  from assms(1) have c: "c = map2 (map2 f) a b"
    by (simp add: ew_def split: if_splits)
  with assms(2) obtain ra rb where rab: "(ra, rb) \<in> set (zip a b)" and r: "r = map2 f ra rb"
    by auto
  with assms(3) obtain x y where xy: "(x, y) \<in> set (zip ra rb)" and v: "v = f x y"
    by auto
  from rab have "ra \<in> set a" "rb \<in> set b"
    by (auto dest: set_zip_leftD set_zip_rightD)
  moreover from xy have "x \<in> set ra" "y \<in> set rb"
    by (auto dest: set_zip_leftD set_zip_rightD)
  ultimately show ?thesis using v by blast
qed

lemma sigmoid_pos: "0 < sigmoid x"
  by (simp add: sigmoid_def add_pos_pos)

lemma sigmoid_lt_1: "sigmoid x < 1"
  by (simp add: sigmoid_def add_pos_pos)

lemma gate_times_tanh_bounds:
  fixes g t :: real
  assumes "0 < g" "g < 1" "- 1 < t" "t < 1"
  shows "- 1 < g * t \<and> g * t < 1"
proof -
  have "\<bar>g * t\<bar> = g * \<bar>t\<bar>" using assms by (simp add: abs_mult)
  also have "\<dots> < 1 * 1"
    using assms by (intro mult_strict_mono') auto
  finally show ?thesis by (simp add: abs_less_iff)
qed

subsection \<open>The recurrent cell\<close>



text \<open>
  In exact arithmetic, every element of the new hidden tensor is strictly between \<open>-1\<close>
  and \<open>1\<close>: it is the product of a logistic output gate and the hyperbolic tangent of
  the new memory. The floating-point cell is treated below.
\<close>

lemma LSTMCell_hidden_exact:
  assumes "LSTMCell_forward self input (hx, cx) = Inr (hy, state')"
  shows "(\<forall>r\<in>set hy. \<forall>v\<in>set r. - 1 < v \<and> v < 1) \<and> fst state' = hy"
proof -
  from assms obtain outgate cy where
    hy: "ew (*) (map (map sigmoid) outgate) (map (map tanh) cy) = Inr hy"
    and st: "state' = (hy, cy)"
    by (auto simp: LSTMCell_forward_def and_then_Inr_iff Let_def split: prod.splits)
  have "- 1 < v \<and> v < 1" if "r \<in> set hy" "v \<in> set r" for r v
  proof -
    from ew_elems[OF hy that] obtain x y where
      "x \<in> sigmoid ` (\<Union>(set ` set outgate))" "y \<in> tanh ` (\<Union>(set ` set cy))" "v = x * y"
      by auto
    then obtain a b where "v = sigmoid a * tanh b" by auto
    then show ?thesis
      using gate_times_tanh_bounds[OF sigmoid_pos sigmoid_lt_1 tanh_real_gt_neg1 tanh_real_lt_1]
      by simp
  qed
  with st show ?thesis by simp
qed

subsection \<open>The sequence runners\<close>









subsection \<open>Shapes and flattened tensors\<close>

lemma length_concat_same_shape:
  "map length a = map length b \<Longrightarrow> length (concat a) = length (concat b)"
  by (simp add: length_concat)

lemma concat_map2:
  "map length a = map length b \<Longrightarrow> concat (map2 (map2 f) a b) = map2 f (concat a) (concat b)"
proof (induction a arbitrary: b)
  case Nil
  then show ?case by simp
next
  case (Cons r a)
  from Cons.prems obtain s b' where b: "b = s # b'" by (cases b) auto
  with Cons.prems have "length r = length s" "map length a = map length b'" by auto
  with Cons.IH[of b'] b show ?case by (simp add: zip_append)
qed

lemma map_length_map2:
  "map length a = map length b \<Longrightarrow> map length (map2 (map2 f) a b) = map length a"
proof (induction a arbitrary: b)
  case Nil
  then show ?case by simp
next
  case (Cons r a)
  from Cons.prems obtain s b' where b: "b = s # b'" by (cases b) auto
  with Cons.prems have "length r = length s" "map length a = map length b'" by auto
  with Cons.IH[of b'] b show ?case by simp
qed

lemma shape3_outer: "shape3 a = shape3 b \<Longrightarrow> map length a = map length b"
proof -
  assume "shape3 a = shape3 b"
  then have "map length (map (map length) a) = map length (map (map length) b)"
    by (simp add: shape3_def)
  then show ?thesis by (simp add: comp_def)
qed

lemma shape3_inner: "shape3 a = shape3 b \<Longrightarrow> map length (concat a) = map length (concat b)"
proof -
  assume "shape3 a = shape3 b"
  then have "concat (map (map length) a) = concat (map (map length) b)"
    by (simp add: shape3_def)
  then show ?thesis by (simp add: map_concat)
qed

lemma length_flat: "shape3 a = shape3 b \<Longrightarrow> length (flat a) = length (flat b)"
  unfolding flat_def by (intro length_concat_same_shape shape3_inner)

lemma flat_map3: "flat (map3 f t) = map f (flat t)"
  by (simp add: flat_def map3_def map_concat comp_def)

lemma shape3_map3: "shape3 (map3 f t) = shape3 t"
  by (simp add: shape3_def map3_def comp_def)

lemma flat_zip3:
  assumes "shape3 a = shape3 b"
  shows "flat (map2 (map2 (map2 f)) a b) = map2 f (flat a) (flat b)"
proof -
  have "concat (map2 (map2 (map2 f)) a b) = map2 (map2 f) (concat a) (concat b)"
    using shape3_outer[OF assms] by (rule concat_map2)
  then show ?thesis
    unfolding flat_def using shape3_inner[OF assms] by (simp add: concat_map2)
qed

lemma shape3_zip3:
  assumes "shape3 a = shape3 b"
  shows "shape3 (map2 (map2 (map2 f)) a b) = shape3 a"
  using assms
proof (induction a arbitrary: b)
  case Nil
  then show ?case by (simp add: shape3_def)
next
  case (Cons r a)
  from Cons.prems obtain s b' where b: "b = s # b'" by (cases b) (auto simp: shape3_def)
  with Cons.prems have "map length r = map length s" "shape3 a = shape3 b'"
    by (auto simp: shape3_def)
  with Cons.IH[of b'] b map_length_map2[of r s f] show ?case
    by (simp add: shape3_def)
qed

lemma ew3_Inr_iff:
  "ew3 f a b = Inr c \<longleftrightarrow> shape3 a = shape3 b \<and> c = map2 (map2 (map2 f)) a b"
  by (auto simp: ew3_def same_shape3_def)

lemma ew3_Inr:
  assumes "ew3 f a b = Inr c"
  shows "shape3 a = shape3 b" and "shape3 c = shape3 a"
    and "flat c = map2 f (flat a) (flat b)" and "length (flat a) = length (flat b)"
proof -
  from assms have sh: "shape3 a = shape3 b" and c: "c = map2 (map2 (map2 f)) a b"
    by (simp_all add: ew3_Inr_iff)
  show "shape3 a = shape3 b" by fact
  show "shape3 c = shape3 a" unfolding c using sh by (rule shape3_zip3)
  show "flat c = map2 f (flat a) (flat b)" unfolding c using sh by (rule flat_zip3)
  show "length (flat a) = length (flat b)" using sh by (rule length_flat)
qed

subsection \<open>The covariance matrices\<close>

lemma clamped_covariance:
  fixes sx sy rho :: real
  defines "e \<equiv> 1 / 100000"
  defines "a \<equiv> max sx e" and "b \<equiv> max sy e" and "r \<equiv> min (max rho (- 1 + e)) (1 - e)"
  defines "m \<equiv> ((a * a, r * a * b), (r * a * b, b * b))"
  shows "snd (fst m) = fst (snd m)" and "0 < fst (fst m)" and "0 < snd (snd m)"
    and "0 < fst (fst m) * snd (snd m) - snd (fst m) * fst (snd m)"
    and "positive_definite m"
proof -
  have a: "0 < a" and b: "0 < b" by (simp_all add: a_def b_def e_def max_def)
  have "- 1 < r" "r < 1" by (simp_all add: r_def e_def)
  then have "\<bar>r\<bar> < 1" by (simp add: abs_less_iff)
  then have "r\<^sup>2 < 1" by (simp only: abs_square_less_1)
  then have r2: "r * r < 1" by (simp add: power2_eq_square)
  show "snd (fst m) = fst (snd m)" by (simp add: m_def)
  show "0 < fst (fst m)" "0 < snd (snd m)" using a b by (simp_all add: m_def)
  have det: "fst (fst m) * snd (snd m) - snd (fst m) * fst (snd m) = (a * a) * (b * b) * (1 - r * r)"
    by (simp add: m_def algebra_simps)
  show "0 < fst (fst m) * snd (snd m) - snd (fst m) * fst (snd m)"
    unfolding det using a b r2 by simp
  have l11: "sqrt (a * a) = a" using a by simp
  have "r * a * b / a = r * b" using a by simp
  moreover have "0 < b * b - r * b * (r * b)"
  proof -
    have "b * b - r * b * (r * b) = (b * b) * (1 - r * r)" by (simp add: algebra_simps)
    then show ?thesis using b r2 by simp
  qed
  ultimately show "positive_definite m"
    using a by (simp add: positive_definite_def cholesky_def m_def l11 Let_def)
qed

lemma stack4_Inr:
  assumes "stack4 a b c d = Inr t"
  shows "shape3 b = shape3 a" and "shape3 c = shape3 a" and "shape3 d = shape3 a"
    and "shape3 t = shape3 a"
    and "flat t = map2 Pair (map2 Pair (flat a) (flat b)) (map2 Pair (flat c) (flat d))"
proof -
  from assms obtain ab cd where
    ab: "ew3 Pair a b = Inr ab" and cd: "ew3 Pair c d = Inr cd" and t: "ew3 Pair ab cd = Inr t"
    by (auto simp: stack4_def and_then_Inr_iff)
  note 1 = ew3_Inr[OF ab] and 2 = ew3_Inr[OF cd] and 3 = ew3_Inr[OF t]
  show "shape3 b = shape3 a" using 1(1) by simp
  show "shape3 c = shape3 a" using 1(2) 2(2) 3(1) by simp
  then show "shape3 d = shape3 a" using 2(1) by simp
  show "shape3 t = shape3 a" using 3(2) 1(2) by simp
  show "flat t = map2 Pair (map2 Pair (flat a) (flat b)) (map2 Pair (flat c) (flat d))"
    using 1(3) 2(3) 3(3) by simp
qed

lemma covariance_Inr:
  assumes "covariance self h = Inr cov"
  shows "shape3 (h (sigma_y self)) = shape3 (h (sigma_x self))"
    and "shape3 (h (rho_xy self)) = shape3 (h (sigma_x self))"
    and "shape3 cov = shape3 (h (sigma_x self))"
    and "i < length (flat cov) \<Longrightarrow>
         flat cov ! i =
           (let a = max (flat (h (sigma_x self)) ! i) (1 / 100000);
                b = max (flat (h (sigma_y self)) ! i) (1 / 100000);
                r = min (max (flat (h (rho_xy self)) ! i) (- 1 + 1 / 100000)) (1 - 1 / 100000)
            in ((a * a, r * a * b), (r * a * b, b * b)))"
proof -
  let ?sx = "clamp_min (h (sigma_x self)) (1 / 100000)"
  let ?sy = "clamp_min (h (sigma_y self)) (1 / 100000)"
  let ?rho = "clamp (h (rho_xy self)) (- 1 + 1 / 100000) (1 - 1 / 100000)"
  from assms obtain xx rx xy rx' yx yy where
    xx: "ew3 (*) ?sx ?sx = Inr xx" and rx: "ew3 (*) ?rho ?sx = Inr rx"
    and xy: "ew3 (*) rx ?sy = Inr xy" and rx': "ew3 (*) ?rho ?sx = Inr rx'"
    and yx: "ew3 (*) rx' ?sy = Inr yx" and yy: "ew3 (*) ?sy ?sy = Inr yy"
    and st: "stack4 xx xy yx yy = Inr cov"
    by (auto simp: covariance_def and_then_Inr_iff Let_def)
  have ssx: "shape3 ?sx = shape3 (h (sigma_x self))" "shape3 ?sy = shape3 (h (sigma_y self))"
    "shape3 ?rho = shape3 (h (rho_xy self))"
    by (simp_all add: clamp_min_def clamp_def shape3_map3)
  note e1 = ew3_Inr[OF xx] and e2 = ew3_Inr[OF rx] and e3 = ew3_Inr[OF xy]
    and e4 = ew3_Inr[OF rx'] and e5 = ew3_Inr[OF yx] and e6 = ew3_Inr[OF yy]
    and s4 = stack4_Inr[OF st]
  show rho_sh: "shape3 (h (rho_xy self)) = shape3 (h (sigma_x self))"
    using e2(1) ssx by simp
  show sy_sh: "shape3 (h (sigma_y self)) = shape3 (h (sigma_x self))"
    using e3(1) e2(2) ssx rho_sh by simp
  show "shape3 cov = shape3 (h (sigma_x self))"
    using s4(4) e1(2) ssx by simp
  have len: "length (flat (h (sigma_y self))) = length (flat (h (sigma_x self)))"
    "length (flat (h (rho_xy self))) = length (flat (h (sigma_x self)))"
    using length_flat[OF sy_sh] length_flat[OF rho_sh] by simp_all
  have fl: "flat ?sx = map (\<lambda>v. max v (1 / 100000)) (flat (h (sigma_x self)))"
    "flat ?sy = map (\<lambda>v. max v (1 / 100000)) (flat (h (sigma_y self)))"
    "flat ?rho = map (\<lambda>v. min (max v (- 1 + 1 / 100000)) (1 - 1 / 100000)) (flat (h (rho_xy self)))"
    by (simp_all add: clamp_min_def clamp_def flat_map3)
  assume i: "i < length (flat cov)"
  have lc: "length (flat cov) = length (flat (h (sigma_x self)))"
    unfolding s4(5) e1(3) e3(3) e5(3) e6(3) e2(3) e4(3) fl using len by simp
  with i len have ii: "i < length (flat (h (sigma_x self)))" "i < length (flat (h (sigma_y self)))"
    "i < length (flat (h (rho_xy self)))" by simp_all
  show "flat cov ! i =
           (let a = max (flat (h (sigma_x self)) ! i) (1 / 100000);
                b = max (flat (h (sigma_y self)) ! i) (1 / 100000);
                r = min (max (flat (h (rho_xy self)) ! i) (- 1 + 1 / 100000)) (1 - 1 / 100000)
            in ((a * a, r * a * b), (r * a * b, b * b)))"
    unfolding s4(5) e1(3) e3(3) e5(3) e6(3) e2(3) e4(3) fl using ii by (simp add: Let_def)
qed

lemma MultivariateNormal_init_error:
  "MultivariateNormal_init mean cov = Inl NotPositiveDefinite \<Longrightarrow>
     \<exists>m\<in>set (flat cov). \<not> positive_definite m"
  by (auto simp: MultivariateNormal_init_def flat_def list_all_iff split: if_splits)

lemma covariance_entry:
  assumes c: "covariance self h = Inr cov" and m: "m \<in> set (flat cov)"
  shows "snd (fst m) = fst (snd m) \<and> 0 < fst (fst m) \<and> 0 < snd (snd m)
         \<and> 0 < fst (fst m) * snd (snd m) - snd (fst m) * fst (snd m)
         \<and> positive_definite m"
proof -
  from m obtain i where i: "i < length (flat cov)" and mi: "m = flat cov ! i"
    by (auto simp: in_set_conv_nth)
  show ?thesis
    unfolding mi covariance_Inr(4)[OF c i] Let_def
    using clamped_covariance by blast
qed

subsection \<open>The bivariate Gaussian mixture\<close>

lemma map3_id: "map3 (\<lambda>v. v) t = t"
  by (simp add: map3_def)

text \<open>
  C7. \<^verbatim>\<open>set_temperature(1.0)\<close> raises nothing and leaves the whole store as it was: every
  tensor the mixture holds, and every other tensor, is equal before and after the call.
\<close>

theorem set_temperature_one_is_identity:
  "set_temperature self 1 h = (None, h)"
  by (simp add: set_temperature_def map3_id Let_def)

text \<open>
  C9. \<^verbatim>\<open>get_distribution\<close> does not modify any stored tensor, whether it returns the
  distributions or raises: the store after the call is the store before it. The clamped
  values are fresh tensors.
\<close>

theorem get_distribution_keeps_store:
  "snd (get_distribution self h) = h"
  by (simp add: get_distribution_def)

text \<open>
  In exact arithmetic, every covariance matrix that \<^verbatim>\<open>get_distribution\<close> builds is
  symmetric, has a strictly positive diagonal and a strictly positive determinant, and
  passes the check of the constructor, whatever real numbers the stored standard
  deviations and correlations are. The floating-point computation is treated below.
\<close>

lemma covariance_positive_definite_exact:
  "(\<forall>cov. covariance self h = Inr cov \<longrightarrow>
      (\<forall>m\<in>set (flat cov).
         snd (fst m) = fst (snd m) \<and> 0 < fst (fst m) \<and> 0 < snd (snd m)
         \<and> 0 < fst (fst m) * snd (snd m) - snd (fst m) * fst (snd m)
         \<and> positive_definite m))
   \<and> fst (get_distribution self h) \<noteq> Inl NotPositiveDefinite"
proof -
  have "fst (get_distribution self h) \<noteq> Inl NotPositiveDefinite"
  proof
    assume "fst (get_distribution self h) = Inl NotPositiveDefinite"
    then obtain mean cov where "covariance self h = Inr cov"
      and "MultivariateNormal_init mean cov = Inl NotPositiveDefinite"
      by (auto simp: get_distribution_def and_then_def ew3_def covariance_def stack4_def Let_def
          split: sum.splits if_splits)
    with covariance_entry MultivariateNormal_init_error show False by blast
  qed
  with covariance_entry show ?thesis by blast
qed

subsection \<open>The tensors that set_temperature writes\<close>

lemma inplace_frame:
  "inplace f t m = Inr m' \<Longrightarrow> l \<notin> set (locations t) \<Longrightarrow> m' l = m l"
  by (auto simp: inplace_def split: if_splits)

lemma set_temperature_v_frame:
  assumes "l \<notin> written self"
  shows "snd (set_temperature_v self temperature m) l = m l"
  using assms
  by (auto simp: set_temperature_v_def written_def inplace_def split: sum.splits if_splits)

lemma values_of_frame:
  assumes "set (locations t) \<inter> written self = {}"
  shows "values_of (snd (set_temperature_v self temperature m)) t = values_of m t"
  unfolding values_of_def
proof (rule map_cong[OF refl])
  fix l assume "l \<in> set (locations t)"
  with assms have "l \<notin> written self" by auto
  then show "snd (set_temperature_v self temperature m) l = m l"
    by (rule set_temperature_v_frame)
qed

lemma sqrt_4: "sqrt 4 = 2"
  using real_sqrt_abs[of 2] by simp

text \<open>
  C10. For a positive temperature, whether \<^verbatim>\<open>set_temperature\<close> returns or raises, it
  writes only to storage locations of the tensors held as \<^verbatim>\<open>pi_logits\<close>, \<^verbatim>\<open>sigma_x\<close>
  and \<^verbatim>\<open>sigma_y\<close>: every other location of the memory keeps its value, and so does
  every tensor none of whose locations is among them. So \<^verbatim>\<open>mu_x\<close>, \<^verbatim>\<open>mu_y\<close> and
  \<^verbatim>\<open>rho_xy\<close> are unchanged whenever they share no storage location with those three
  tensors.
\<close>

theorem set_temperature_writes_three_tensors:
  assumes "0 < temperature"
  shows "(\<forall>l. l \<notin> written self \<longrightarrow> snd (set_temperature_v self temperature m) l = m l)
         \<and> (\<forall>t. set (locations t) \<inter> written self = {}
                \<longrightarrow> values_of (snd (set_temperature_v self temperature m)) t = values_of m t)"
  using set_temperature_v_frame values_of_frame by blast

theorem set_temperature_writes_three_tensors_witness:
  "(0 :: real) < 4
   \<and> set (locations (mu_x_v (mix_split True))) \<inter> written (mix_split True) = {}
   \<and> fst (set_temperature_v (mix_split True) 4 memory_ones) = None
   \<and> values_of (snd (set_temperature_v (mix_split True) 4 memory_ones)) (mu_x_v (mix_split True))
       = values_of memory_ones (mu_x_v (mix_split True))
   \<and> values_of (snd (set_temperature_v (mix_split True) 4 memory_ones)) (pi_logits_v (mix_split True))
       = [1 / 4]
   \<and> values_of (snd (set_temperature_v (mix_split True) 4 memory_ones)) (sigma_x_v (mix_split True))
       = [2]
   \<and> set (locations (mu_x_v (mix_split False))) \<inter> written (mix_split False) = {}
   \<and> fst (set_temperature_v (mix_split False) 4 memory_ones) = Some InplaceRefused
   \<and> values_of (snd (set_temperature_v (mix_split False) 4 memory_ones)) (mu_x_v (mix_split False))
       = values_of memory_ones (mu_x_v (mix_split False))"
proof -
  have p: "(0 :: real) < 4" by simp
  have d: "set (locations (mu_x_v (mix_split w))) \<inter> written (mix_split w) = {}" for w
    by (simp add: mix_split_def view_def written_def)
  have v: "fst (set_temperature_v (mix_split True) 4 memory_ones) = None"
    "values_of (snd (set_temperature_v (mix_split True) 4 memory_ones)) (pi_logits_v (mix_split True))
       = [1 / 4]"
    "values_of (snd (set_temperature_v (mix_split True) 4 memory_ones)) (sigma_x_v (mix_split True))
       = [2]"
    "fst (set_temperature_v (mix_split False) 4 memory_ones) = Some InplaceRefused"
    by (simp_all add: set_temperature_v_def mix_split_def view_def inplace_def values_of_def
        memory_ones_def sqrt_4)
  from set_temperature_writes_three_tensors[OF p, of "mix_split True" memory_ones]
    set_temperature_writes_three_tensors[OF p, of "mix_split False" memory_ones] d v p
  show ?thesis by blast
qed

text \<open>
  C10, as stated for every mixture, fails when an attribute shares storage with a tensor
  that is written. In a mixture built with one tensor object as both \<^verbatim>\<open>pi_logits\<close> and
  \<^verbatim>\<open>mu_x\<close>, the in-place division of \<^verbatim>\<open>pi_logits\<close> by the temperature \<open>2\<close> halves
  \<^verbatim>\<open>mu_x\<close>; in one built with two overlapping slices of a tensor, which are distinct
  tensor objects, it halves the element of \<^verbatim>\<open>mu_x\<close> that the slices share.
\<close>

theorem set_temperature_shared_storage_counterexample:
  "(0 :: real) < 2
   \<and> fst (set_temperature_v mix_alias 2 memory_ones) = None
   \<and> values_of memory_ones (mu_x_v mix_alias) = [1]
   \<and> values_of (snd (set_temperature_v mix_alias 2 memory_ones)) (mu_x_v mix_alias) = [1 / 2]
   \<and> mu_x_v mix_overlap \<noteq> pi_logits_v mix_overlap
   \<and> fst (set_temperature_v mix_overlap 2 memory_ones) = None
   \<and> values_of memory_ones (mu_x_v mix_overlap) = [1, 1]
   \<and> values_of (snd (set_temperature_v mix_overlap 2 memory_ones)) (mu_x_v mix_overlap) = [1 / 2, 1]"
  by (simp add: set_temperature_v_def mix_alias_def mix_overlap_def view_def inplace_def
      values_of_def memory_ones_def)

subsection \<open>The latent regularisation loss\<close>

lemma ew_Inr_iff:
  "ew f a b = Inr c \<longleftrightarrow> map length a = map length b \<and> c = map2 (map2 f) a b"
  by (auto simp: ew_def same_shape_def)

lemma upper_term_nonpos:
  fixes s m :: real
  shows "1 + s - m\<^sup>2 - exp s \<le> 0"
  using exp_ge_add_one_self[of s] zero_le_power2[of m] by linarith

lemma exp_gt_add_one_self:
  fixes s :: real
  assumes "s \<noteq> 0"
  shows "1 + s < exp s"
proof (cases "0 \<le> 1 + s / 2")
  case True
  have "0 < s * s" using assms by (cases "0 < s") (auto simp: zero_less_mult_iff)
  then have "1 + s < (1 + s / 2)\<^sup>2"
    by (simp add: power2_eq_square algebra_simps)
  also have "\<dots> \<le> (exp (s / 2))\<^sup>2"
    using True exp_ge_add_one_self[of "s / 2"] by (intro power_mono) auto
  also have "\<dots> = exp s"
    by (simp add: power2_eq_square flip: exp_add)
  finally show ?thesis .
next
  case False
  then have "1 + s < 0" by simp
  also have "0 < exp s" by simp
  finally show ?thesis .
qed

lemma kl_term_zero_iff:
  fixes s m :: real
  shows "1 + s - m\<^sup>2 - exp s = 0 \<longleftrightarrow> s = 0 \<and> m = 0"
proof
  assume eq: "1 + s - m\<^sup>2 - exp s = 0"
  have "s = 0"
  proof (rule ccontr)
    assume "s \<noteq> 0"
    from exp_gt_add_one_self[OF this] zero_le_power2[of m] eq show False by linarith
  qed
  with eq show "s = 0 \<and> m = 0" by simp
qed simp

lemma kl_term_zero_iff':
  fixes s m :: real
  shows "exp s = 1 + s - m\<^sup>2 \<longleftrightarrow> s = 0 \<and> m = 0"
  using kl_term_zero_iff[of s m] by linarith

lemma ball_zip_conj:
  "length xs = length ys \<Longrightarrow>
     (\<forall>(x, y)\<in>set (zip xs ys). P x \<and> Q y) \<longleftrightarrow> (\<forall>x\<in>set xs. P x) \<and> (\<forall>y\<in>set ys. Q y)"
  by (induction xs ys rule: list_induct2) auto

lemma sum_list_map_uminus:
  fixes ts :: "real list"
  shows "sum_list (map uminus ts) = - sum_list ts"
  by (induction ts) auto

text \<open>The elements that KLDivLoss averages.\<close>

lemma KLDivLoss_forward_Inr:
  assumes "KLDivLoss_forward sigma_hat mu = Inr v"
  shows "map length sigma_hat = map length mu"
    and "concat sigma_hat \<noteq> []"
    and "v = - (1 / 2) * (sum_list (map2 (\<lambda>s m. 1 + s - m\<^sup>2 - exp s) (concat sigma_hat) (concat mu))
              / real (length (concat sigma_hat)))"
proof -
  from assms obtain d1 d2 m where
    d1: "ew (-) (map (map (\<lambda>s. 1 + s)) sigma_hat) (map (map (\<lambda>m. m ^ 2)) mu) = Inr d1"
    and d2: "ew (-) d1 (map (map exp) sigma_hat) = Inr d2"
    and m: "mean2 d2 = Inr m" and v: "v = - (1 / 2) * m"
    by (auto simp: KLDivLoss_forward_def and_then_Inr_iff)
  from d1 have sh: "map length sigma_hat = map length mu"
    and d1': "d1 = map2 (map2 (-)) (map (map (\<lambda>s. 1 + s)) sigma_hat) (map (map (\<lambda>m. m ^ 2)) mu)"
    by (simp_all add: ew_Inr_iff comp_def)
  show "map length sigma_hat = map length mu" by fact
  from sh have len: "length (concat sigma_hat) = length (concat mu)"
    by (rule length_concat_same_shape)
  from sh have c1: "concat d1 = map2 (-) (map (\<lambda>s. 1 + s) (concat sigma_hat)) (map (\<lambda>m. m ^ 2) (concat mu))"
    unfolding d1' by (subst concat_map2) (simp_all add: comp_def map_concat)
  from d2 have sh2: "map length d1 = map length sigma_hat"
    and d2': "d2 = map2 (map2 (-)) d1 (map (map exp) sigma_hat)"
    by (simp_all add: ew_Inr_iff comp_def)
  have "concat d2 = map2 (-) (concat d1) (map exp (concat sigma_hat))"
    unfolding d2' using sh2 by (subst concat_map2) (simp_all add: comp_def map_concat)
  also have "\<dots> = map2 (\<lambda>s m. 1 + s - m\<^sup>2 - exp s) (concat sigma_hat) (concat mu)"
    unfolding c1 using len
    by (intro nth_equalityI) simp_all
  finally have c2: "concat d2 = map2 (\<lambda>s m. 1 + s - m\<^sup>2 - exp s) (concat sigma_hat) (concat mu)" .
  from m have ne: "concat d2 \<noteq> []" and m': "m = sum_list (concat d2) / real (length (concat d2))"
    by (auto simp: mean2_def mean_all_def split: if_splits)
  from ne c2 len show "concat sigma_hat \<noteq> []" by auto
  from v m' c2 len show "v = - (1 / 2) * (sum_list (map2 (\<lambda>s m. 1 + s - m\<^sup>2 - exp s) (concat sigma_hat) (concat mu))
              / real (length (concat sigma_hat)))"
    by simp
qed

text \<open>
  In exact arithmetic, \<^verbatim>\<open>KLDivLoss.forward\<close> returns a value whenever its arguments
  have one shape and at least one element; the value is \<open>-1/2\<close> times the mean of
  \<open>1 + \<sigma> - \<mu>\<^sup>2 - exp \<sigma>\<close>, it is not negative, and it is zero exactly when every
  element of \<^verbatim>\<open>sigma_hat\<close> and of \<^verbatim>\<open>mu\<close> is zero. The floating-point computation is
  treated below.
\<close>

lemma KLDivLoss_forward_total:
  assumes "same_shape sigma_hat mu" and "concat sigma_hat \<noteq> []"
  shows "\<exists>v. KLDivLoss_forward sigma_hat mu = Inr v"
proof -
  from assms(1) have sh: "map length sigma_hat = map length mu" by (simp add: same_shape_def)
  define d1 where "d1 = map2 (map2 (-)) (map (map (\<lambda>s. 1 + s)) sigma_hat) (map (map (\<lambda>m. m ^ 2)) mu)"
  define d2 where "d2 = map2 (map2 (-)) d1 (map (map exp) sigma_hat)"
  have e1: "ew (-) (map (map (\<lambda>s. 1 + s)) sigma_hat) (map (map (\<lambda>m. m ^ 2)) mu) = Inr d1"
    using sh by (simp add: ew_Inr_iff d1_def comp_def)
  have sh1: "map length d1 = map length sigma_hat"
    unfolding d1_def using sh by (subst map_length_map2) (simp_all add: comp_def)
  have e2: "ew (-) d1 (map (map exp) sigma_hat) = Inr d2"
    using sh1 by (simp add: ew_Inr_iff d2_def comp_def)
  have "map length d2 = map length d1"
    unfolding d2_def using sh1 by (subst map_length_map2) (simp_all add: comp_def)
  with sh1 have len: "length (concat d2) = length (concat sigma_hat)"
    by (simp add: length_concat)
  from assms(2) have "0 < length (concat sigma_hat)" by (cases "concat sigma_hat") simp_all
  with len have "0 < length (concat d2)" by (simp only:)
  then have "concat d2 \<noteq> []" by (cases "concat d2") simp_all
  then show ?thesis
    by (simp add: KLDivLoss_forward_def and_then_def e1 e2 mean2_def mean_all_def)
qed

lemma KLDivLoss_exact_value:
  assumes "KLDivLoss_forward sigma_hat mu = Inr v"
  shows "v = - (1 / 2) * (sum_list (map2 (\<lambda>s m. 1 + s - m\<^sup>2 - exp s) (concat sigma_hat) (concat mu))
              / real (length (concat sigma_hat)))
         \<and> 0 \<le> v
         \<and> (v = 0 \<longleftrightarrow> (\<forall>r\<in>set sigma_hat. \<forall>s\<in>set r. s = 0) \<and> (\<forall>r\<in>set mu. \<forall>m\<in>set r. m = 0))"
proof -
  let ?xs = "concat sigma_hat" and ?ys = "concat mu"
  let ?ts = "map2 (\<lambda>s m. 1 + s - m\<^sup>2 - exp s) ?xs ?ys"
  note f = KLDivLoss_forward_Inr[OF assms]
  from f(1) have len: "length ?xs = length ?ys" by (rule length_concat_same_shape)
  from f(2) have n: "0 < real (length ?xs)" by simp
  have nonpos: "t \<le> 0" if "t \<in> set ?ts" for t
    using that upper_term_nonpos by auto
  then have s: "sum_list ?ts \<le> 0" by (rule sum_list_nonpos)
  have v: "v = - (1 / 2) * (sum_list ?ts / real (length ?xs))" by (rule f(3))
  from s n have "sum_list ?ts / real (length ?xs) \<le> 0"
    by (simp add: divide_le_0_iff)
  with v have nonneg: "0 \<le> v" by simp
  define k where "k = real (length ?xs)"
  with n have k: "0 < k" by simp
  have "v = - (1 / 2) * (sum_list ?ts / k)" unfolding k_def by (rule v)
  with k have "v = 0 \<longleftrightarrow> sum_list ?ts = 0" by simp
  also have "\<dots> \<longleftrightarrow> sum_list (map uminus ?ts) = 0"
    by (simp only: sum_list_map_uminus neg_equal_0_iff_equal)
  also have "\<dots> \<longleftrightarrow> (\<forall>t\<in>set (map uminus ?ts). t = 0)"
  proof (intro sum_list_nonneg_eq_0_iff)
    fix t assume "t \<in> set (map uminus ?ts)"
    then obtain u where "u \<in> set ?ts" "t = - u" by auto
    with nonpos[of u] show "0 \<le> t" by simp
  qed
  also have "\<dots> \<longleftrightarrow> (\<forall>(s, m)\<in>set (zip ?xs ?ys). s = 0 \<and> m = 0)"
    by (simp add: split_beta kl_term_zero_iff')
  also have "\<dots> \<longleftrightarrow> (\<forall>s\<in>set ?xs. s = 0) \<and> (\<forall>m\<in>set ?ys. m = 0)"
    using len by (rule ball_zip_conj)
  also have "\<dots> \<longleftrightarrow> (\<forall>r\<in>set sigma_hat. \<forall>s\<in>set r. s = 0) \<and> (\<forall>r\<in>set mu. \<forall>m\<in>set r. m = 0)"
    by auto
  finally show ?thesis using nonneg v by blast
qed

subsection \<open>The component density\<close>

lemma cholesky_clamped:
  fixes a b r :: real
  assumes a: "0 < a" and b: "0 < b" and r: "r * r < 1"
  shows "cholesky ((a * a, r * a * b), (r * a * b, b * b)) =
           Some ((a, 0), (r * b, b * sqrt (1 - r * r)))"
proof -
  have l11: "sqrt (a * a) = a" using a by simp
  have q: "r * a * b / a = r * b" using a by simp
  have e: "b * b - r * b * (r * b) = (b * b) * (1 - r * r)" by (simp add: algebra_simps)
  have pos: "0 < (b * b) * (1 - r * r)" using b r by simp
  have sq: "sqrt ((b * b) * (1 - r * r)) = b * sqrt (1 - r * r)"
    using b by (simp add: real_sqrt_mult)
  have "cholesky ((a * a, r * a * b), (r * a * b, b * b)) =
      (if 0 < b * b - r * b * (r * b)
       then Some ((a, 0), (r * b, sqrt (b * b - r * b * (r * b)))) else None)"
    using a by (simp only: cholesky_def prod.case Let_def l11 q mult_pos_pos if_True)
  also have "\<dots> = Some ((a, 0), (r * b, b * sqrt (1 - r * r)))"
    unfolding e using pos sq by (simp only: if_True)
  finally show ?thesis .
qed

lemma exp_mvn_log_prob:
  fixes a b r mx my x y :: real
  assumes a: "0 < a" and b: "0 < b" and r: "r * r < 1"
  shows "exp (mvn_log_prob ((mx, my), ((a, 0), (r * b, b * sqrt (1 - r * r)))) (x, y))
           = bivariate_normal_pdf mx my a b r x y"
proof -
  define s where "s = sqrt (1 - r * r)"
  have s: "0 < s" and s2: "s * s = 1 - r * r" using r by (simp_all add: s_def)
  define d1 where "d1 = x - mx"
  define d2 where "d2 = y - my"
  define M where "M = (d1 / a) * (d1 / a) + ((d2 - r * b * (d1 / a)) / (b * s)) * ((d2 - r * b * (d1 / a)) / (b * s))"
  define z where "z = d1\<^sup>2 / a\<^sup>2 + d2\<^sup>2 / b\<^sup>2 - 2 * r * d1 * d2 / (a * b)"
  have "M * (s * s) = z * 1"
    unfolding M_def z_def using a b s
    apply (simp add: field_simps power2_eq_square)
    apply (simp add: s2 algebra_simps)
    done
  then have "M * (1 - r * r) = z" by (simp only: s2 mult_1_right)
  moreover have "1 - r * r \<noteq> 0" using r by simp
  ultimately have Mz: "M = z / (1 - r * r)" by (simp add: nonzero_eq_divide_eq)
  have "mvn_log_prob ((mx, my), ((a, 0), (r * b, b * s))) (x, y)
        = - (1 / 2) * (2 * ln (2 * pi) + M) - (ln a + ln (b * s))"
    unfolding M_def d1_def d2_def by (simp only: mvn_log_prob_def prod.case Let_def)
  also have "\<dots> = - ln (2 * pi) - M / 2 - ln a - ln (b * s)"
    by (simp add: algebra_simps)
  finally have lhs: "mvn_log_prob ((mx, my), ((a, 0), (r * b, b * s))) (x, y)
        = - ln (2 * pi) - M / 2 - ln a - ln (b * s)" .
  have "exp (- ln (2 * pi) - M / 2 - ln a - ln (b * s))
        = exp (- ln (2 * pi)) * exp (- (M / 2)) * exp (- ln a) * exp (- ln (b * s))"
    by (simp only: diff_conv_add_uminus exp_add)
  also have "\<dots> = inverse (2 * pi) * exp (- (M / 2)) * inverse a * inverse (b * s)"
    using a b s by (simp only: exp_minus exp_ln mult_pos_pos pi_gt_zero zero_less_numeral)
  also have "\<dots> = exp (- M / 2) / ((2 * pi) * a * (b * s))"
    by (simp add: field_simps)
  finally have "exp (- ln (2 * pi) - M / 2 - ln a - ln (b * s))
        = exp (- M / 2) / ((2 * pi) * a * (b * s))" .
  also have "\<dots> = 1 / (2 * pi * a * b * s) * exp (- z / (2 * (1 - r * r)))"
    by (simp add: Mz mult.commute mult.left_commute)
  also have "\<dots> = bivariate_normal_pdf mx my a b r x y"
    unfolding bivariate_normal_pdf_def Let_def z_def d1_def d2_def s_def power2_eq_square
    by (rule refl)
  finally have "exp (mvn_log_prob ((mx, my), ((a, 0), (r * b, b * s))) (x, y))
      = bivariate_normal_pdf mx my a b r x y"
    by (simp only: lhs)
  then show ?thesis by (simp only: s_def)
qed

lemma softmax_shift: "softmax (map (\<lambda>v. v - c) row) = softmax row"
proof -
  have "sum_list (map exp (map (\<lambda>v. v - c) row)) = sum_list (map exp row) / exp c"
    by (induction row) (simp_all add: exp_diff add_divide_distrib)
  then show ?thesis
    by (simp add: softmax_def comp_def exp_diff)
qed

lemma probs_Categorical_init: "probs (Categorical_init l) = map (map softmax) l"
  by (simp add: probs_def Categorical_init_def comp_def softmax_shift)

subsection \<open>Tensors as tables of their entries\<close>

lemma map2_upt:
  "map2 F (map f [0..<n]) (map g [0..<n]) = map (\<lambda>i. F (f i) (g i)) [0..<n]"
  by (rule nth_equalityI) simp_all

lemma list_eq_tab: "length xs = n \<Longrightarrow> xs = map (\<lambda>i. xs ! i) [0..<n]"
  by (rule nth_equalityI) simp_all

lemma shape3_tab3: "shape3 (tab3 T B M f) = replicate T (replicate B M)"
  by (simp add: shape3_def tab3_def comp_def map_replicate_const)

lemma shape3_replicateD:
  assumes "shape3 a = replicate T (replicate B M)"
  shows "length a = T" and "t < T \<Longrightarrow> length (a ! t) = B"
    and "t < T \<Longrightarrow> b < B \<Longrightarrow> length (a ! t ! b) = M"
proof -
  from assms have "length (shape3 a) = T" by simp
  then show len: "length a = T" by (simp add: shape3_def)
  have row: "map length (a ! t) = replicate B M" if "t < T" for t
  proof -
    from that len have "shape3 a ! t = map length (a ! t)" by (simp add: shape3_def)
    with assms that show ?thesis by simp
  qed
  show "length (a ! t) = B" if "t < T"
    using row[OF that] by (metis length_map length_replicate)
  show "length (a ! t ! b) = M" if "t < T" "b < B"
  proof -
    from row[OF that(1)] have l: "length (a ! t) = B" by (metis length_map length_replicate)
    from row[OF that(1)] have "map length (a ! t) ! b = replicate B M ! b" by simp
    with that l show ?thesis by simp
  qed
qed

lemma tab3_of_shape:
  assumes "shape3 a = replicate T (replicate B M)"
  shows "a = tab3 T B M (\<lambda>t b i. a ! t ! b ! i)"
  unfolding tab3_def
proof (rule nth_equalityI)
  show "length a = length (map (\<lambda>t. map (\<lambda>b. map (\<lambda>i. a ! t ! b ! i) [0..<M]) [0..<B]) [0..<T])"
    using shape3_replicateD(1)[OF assms] by simp
next
  fix t assume "t < length a"
  then have t: "t < T" using shape3_replicateD(1)[OF assms] by simp
  have "a ! t = map (\<lambda>b. map (\<lambda>i. a ! t ! b ! i) [0..<M]) [0..<B]"
  proof (rule nth_equalityI)
    show "length (a ! t) = length (map (\<lambda>b. map (\<lambda>i. a ! t ! b ! i) [0..<M]) [0..<B])"
      using shape3_replicateD(2)[OF assms t] by simp
  next
    fix b assume "b < length (a ! t)"
    then have b: "b < B" using shape3_replicateD(2)[OF assms t] by simp
    have "a ! t ! b = map (\<lambda>i. a ! t ! b ! i) [0..<M]"
      using shape3_replicateD(3)[OF assms t b] by (rule list_eq_tab)
    with b show "a ! t ! b = map (\<lambda>b. map (\<lambda>i. a ! t ! b ! i) [0..<M]) [0..<B] ! b" by simp
  qed
  with t show "a ! t = map (\<lambda>t. map (\<lambda>b. map (\<lambda>i. a ! t ! b ! i) [0..<M]) [0..<B]) [0..<T] ! t"
    by simp
qed

lemma tab2_of_shape:
  assumes "map length a = replicate T B"
  shows "a = tab2 T B (\<lambda>t b. a ! t ! b)"
  unfolding tab2_def
proof (rule nth_equalityI)
  from assms have "length (map length a) = T" by simp
  then show len: "length a = length (map (\<lambda>t. map (\<lambda>b. a ! t ! b) [0..<B]) [0..<T])" by simp
  fix t assume t: "t < length a"
  with len have t': "t < T" by simp
  from assms t have "map length a ! t = replicate T B ! t" by simp
  with t t' have "length (a ! t) = B" by simp
  then have "a ! t = map (\<lambda>b. a ! t ! b) [0..<B]" by (rule list_eq_tab)
  with t' show "a ! t = map (\<lambda>t. map (\<lambda>b. a ! t ! b) [0..<B]) [0..<T] ! t" by simp
qed

lemma map3_tab3: "map3 g (tab3 T B M f) = tab3 T B M (\<lambda>t b i. g (f t b i))"
  by (simp add: map3_def tab3_def comp_def)

lemma zip3_tab3:
  "map2 (map2 (map2 F)) (tab3 T B M f) (tab3 T B M g) = tab3 T B M (\<lambda>t b i. F (f t b i) (g t b i))"
  by (simp add: tab3_def map2_upt)

lemma ew3_tab3:
  "ew3 F (tab3 T B M f) (tab3 T B M g) = Inr (tab3 T B M (\<lambda>t b i. F (f t b i) (g t b i)))"
  by (simp add: ew3_def same_shape3_def shape3_tab3 zip3_tab3)

lemma ew_tab2:
  "ew F (tab2 T B f) (tab2 T B g) = Inr (tab2 T B (\<lambda>t b. F (f t b) (g t b)))"
  by (simp add: ew_def same_shape_def tab2_def map2_upt comp_def)

lemma sum_list_tab: "sum_list (map f [0..<n]) = (\<Sum>i<n. f i)"
  by (simp add: sum_list_sum_nth atLeast0LessThan)

lemma map_map_sum_list_tab3:
  "map (map sum_list) (tab3 T B M f) = tab2 T B (\<lambda>t b. \<Sum>i<M. f t b i)"
  by (simp add: tab3_def tab2_def comp_def sum_list_tab)

lemma map_map_comp_sum_list_tab3:
  "map (map (g \<circ> sum_list)) (tab3 T B M f) = tab2 T B (\<lambda>t b. g (\<Sum>i<M. f t b i))"
  by (simp add: tab3_def tab2_def comp_def sum_list_tab)

lemma map_map_tab2: "map (map g) (tab2 T B f) = tab2 T B (\<lambda>t b. g (f t b))"
  by (simp add: tab2_def comp_def)

lemma softmax_tab:
  "softmax (map f [0..<M]) = map (\<lambda>i. exp (f i) / (\<Sum>j<M. exp (f j))) [0..<M]"
  by (simp add: softmax_def comp_def sum_list_tab)

lemma map_map_softmax_tab3:
  "map (map softmax) (tab3 T B M f) =
     tab3 T B M (\<lambda>t b i. exp (f t b i) / (\<Sum>j<M. exp (f t b j)))"
  by (simp add: tab3_def comp_def softmax_tab)

lemma list_all3_tab3:
  "list_all (list_all (list_all P)) (tab3 T B M f) \<longleftrightarrow> (\<forall>t<T. \<forall>b<B. \<forall>i<M. P (f t b i))"
  by (auto simp: tab3_def list_all_iff)

lemma length_concat_tab2: "length (concat (tab2 T B f)) = T * B"
  by (simp add: tab2_def length_concat comp_def sum_list_triv)

lemma sum_list_concat_map:
  fixes xss :: "'a :: monoid_add list list"
  shows "sum_list (concat xss) = sum_list (map sum_list xss)"
  by (induction xss) simp_all

lemma sum_list_concat_tab2:
  fixes f :: "nat \<Rightarrow> nat \<Rightarrow> real"
  shows "sum_list (concat (tab2 T B f)) = (\<Sum>t<T. \<Sum>b<B. f t b)"
  by (simp add: tab2_def sum_list_concat_map comp_def sum_list_tab)

lemma mean2_tab2:
  assumes "0 < T" "0 < B"
  shows "mean2 (tab2 T B f) = Inr ((\<Sum>t<T. \<Sum>b<B. f t b) / (real T * real B))"
proof -
  have "length (concat (tab2 T B f)) \<noteq> 0"
    using assms by (simp add: length_concat_tab2)
  then have "concat (tab2 T B f) \<noteq> []" by auto
  then show ?thesis
    by (simp add: mean2_def mean_all_def length_concat_tab2 sum_list_concat_tab2)
qed

lemma expand_xy_tab3:
  "expand_xy (tab3 T B 5 f) n = Inr (tab3 T B n (\<lambda>t b i. (f t b 0, f t b 1)))"
proof -
  have "list_all (list_all (\<lambda>row. 2 \<le> length row)) (tab3 T B 5 f)"
    by (simp add: tab3_def list_all_iff)
  moreover have "map (\<lambda>i. f t b i) [0..<5] ! 0 = f t b 0" "map (\<lambda>i. f t b i) [0..<5] ! 1 = f t b 1" for t b
    by (simp_all del: upt_Suc)
  then have "map (map (\<lambda>row. replicate n (row ! 0, row ! 1))) (tab3 T B 5 f)
      = tab3 T B n (\<lambda>t b i. (f t b 0, f t b 1))"
    by (simp add: tab3_def comp_def map_replicate_const del: upt_Suc)
  ultimately show ?thesis by (simp add: expand_xy_def)
qed

subsection \<open>The stroke loss\<close>

lemma clamp_bounds:
  fixes sx rho :: real
  shows "0 < max sx (1 / 100000)"
    and "min (max rho (- 1 + 1 / 100000)) (1 - 1 / 100000) * min (max rho (- 1 + 1 / 100000)) (1 - 1 / 100000) < 1"
proof -
  show "0 < max sx (1 / 100000)" by (simp add: less_max_iff_disj)
  let ?r = "min (max rho (- 1 + 1 / 100000)) (1 - 1 / 100000)"
  have "- 1 < ?r" "?r < 1" by simp_all
  then have "\<bar>?r\<bar> < 1" by (simp only: abs_less_iff) simp
  then have "?r\<^sup>2 < 1" by (simp only: abs_square_less_1)
  then show "?r * ?r < 1" by (simp only: power2_eq_square)
qed

lemma n_distributions_tab3:
  assumes "0 < T" "0 < B" and "h (pi_logits self) = tab3 T B M f"
  shows "n_distributions self h = M"
  using assms by (simp add: n_distributions_def tab3_def upt_conv_Cons)

lemma softmax_nth:
  assumes "length row = M" "i < M"
  shows "softmax row ! i = exp (row ! i) / (\<Sum>j<M. exp (row ! j))"
proof -
  from assms(1) have "row = map (\<lambda>i. row ! i) [0..<M]" by (rule list_eq_tab)
  then have "softmax row = map (\<lambda>i. exp (row ! i) / (\<Sum>j<M. exp (row ! j))) [0..<M]"
    using softmax_tab[of "\<lambda>i. row ! i" M] by simp
  with assms(2) show ?thesis by simp
qed

lemma loss_stroke_formula:
  assumes wf: "wf_batch T B M mask' target dist' h"
  shows "loss_stroke mask' target dist' h = Inr (stroke_loss_spec T B mask' target dist' h)"
proof -
  define pf where "pf = (\<lambda>t b i. h (pi_logits dist') ! t ! b ! i)"
  define mxf where "mxf = (\<lambda>t b i. h (mu_x dist') ! t ! b ! i)"
  define myf where "myf = (\<lambda>t b i. h (mu_y dist') ! t ! b ! i)"
  define sxf where "sxf = (\<lambda>t b i. h (sigma_x dist') ! t ! b ! i)"
  define syf where "syf = (\<lambda>t b i. h (sigma_y dist') ! t ! b ! i)"
  define rf where "rf = (\<lambda>t b i. h (rho_xy dist') ! t ! b ! i)"
  define tf where "tf = (\<lambda>t b i. target ! t ! b ! i)"
  define mf where "mf = (\<lambda>t b. mask' ! t ! b)"
  define af where "af = (\<lambda>t b i. max (sxf t b i) (1 / 100000))"
  define bf where "bf = (\<lambda>t b i. max (syf t b i) (1 / 100000))"
  define cf where "cf = (\<lambda>t b i. min (max (rf t b i) (- 1 + 1 / 100000)) (1 - 1 / 100000))"
  from wf have T: "0 < T" and B: "0 < B" and M: "0 < M"
    by (simp_all add: wf_batch_def)
  from wf have shp: "shape3 (h (pi_logits dist')) = replicate T (replicate B M)"
    by (simp add: wf_batch_def)
  from wf have eqs:
    "h (pi_logits dist') = tab3 T B M pf" "h (mu_x dist') = tab3 T B M mxf"
    "h (mu_y dist') = tab3 T B M myf" "h (sigma_x dist') = tab3 T B M sxf"
    "h (sigma_y dist') = tab3 T B M syf" "h (rho_xy dist') = tab3 T B M rf"
    unfolding pf_def mxf_def myf_def sxf_def syf_def rf_def wf_batch_def
    by (blast intro: tab3_of_shape)+
  from wf have teq: "target = tab3 T B 5 tf"
    unfolding tf_def wf_batch_def by (blast intro: tab3_of_shape)
  from wf have meq: "mask' = tab2 T B mf"
    unfolding mf_def wf_batch_def by (blast intro: tab2_of_shape)
  have cov: "covariance dist' h =
      Inr (tab3 T B M (\<lambda>t b i. ((af t b i * af t b i, cf t b i * af t b i * bf t b i),
                                   (cf t b i * af t b i * bf t b i, bf t b i * bf t b i))))"
    by (simp add: covariance_def eqs clamp_min_def clamp_def map3_tab3 ew3_tab3 stack4_def
        and_then_def Let_def af_def bf_def cf_def)
  have pd: "list_all (list_all (list_all positive_definite))
      (tab3 T B M (\<lambda>t b i. ((af t b i * af t b i, cf t b i * af t b i * bf t b i),
                                   (cf t b i * af t b i * bf t b i, bf t b i * bf t b i))))"
    unfolding list_all3_tab3 af_def bf_def cf_def using clamped_covariance(5) by blast
  have apos: "0 < af t b i" and bpos: "0 < bf t b i" and clt: "cf t b i * cf t b i < 1" for t b i
    unfolding af_def bf_def cf_def by (rule clamp_bounds)+
  have init: "MultivariateNormal_init (tab3 T B M (\<lambda>t b i. (mxf t b i, myf t b i)))
      (tab3 T B M (\<lambda>t b i. ((af t b i * af t b i, cf t b i * af t b i * bf t b i),
                                   (cf t b i * af t b i * bf t b i, bf t b i * bf t b i))))
    = Inr \<lparr>loc = tab3 T B M (\<lambda>t b i. (mxf t b i, myf t b i)),
           scale_tril = tab3 T B M (\<lambda>t b i. ((af t b i, 0),
              (cf t b i * bf t b i, bf t b i * sqrt (1 - cf t b i * cf t b i))))\<rparr>"
    unfolding MultivariateNormal_init_def
    using pd by (simp add: same_shape3_def shape3_tab3 map3_tab3 cholesky_clamped apos bpos clt)
  have gd: "fst (get_distribution dist' h) =
      Inr (Categorical_init (tab3 T B M pf),
           \<lparr>loc = tab3 T B M (\<lambda>t b i. (mxf t b i, myf t b i)),
            scale_tril = tab3 T B M (\<lambda>t b i. ((af t b i, 0),
              (cf t b i * bf t b i, bf t b i * sqrt (1 - cf t b i * cf t b i))))\<rparr>)"
    by (simp add: get_distribution_def cov init and_then_def eqs ew3_tab3)
  define xf where "xf = (\<lambda>t b. tf t b 0)"
  define yf where "yf = (\<lambda>t b. tf t b 1)"
  have xy: "expand_xy target M = Inr (tab3 T B M (\<lambda>t b i. (xf t b, yf t b)))"
    unfolding teq xf_def yf_def by (rule expand_xy_tab3)
  have nd: "n_distributions dist' h = M"
    using T B eqs(1) by (rule n_distributions_tab3)
  have lp: "log_prob \<lparr>loc = tab3 T B M (\<lambda>t b i. (mxf t b i, myf t b i)),
            scale_tril = tab3 T B M (\<lambda>t b i. ((af t b i, 0),
              (cf t b i * bf t b i, bf t b i * sqrt (1 - cf t b i * cf t b i))))\<rparr>
          (tab3 T B M (\<lambda>t b i. (xf t b, yf t b)))
      = Inr (tab3 T B M (\<lambda>t b i. mvn_log_prob
           ((mxf t b i, myf t b i), ((af t b i, 0),
              (cf t b i * bf t b i, bf t b i * sqrt (1 - cf t b i * cf t b i))))
           (xf t b, yf t b)))"
    by (simp add: log_prob_def ew3_tab3 and_then_def)
  have weighted: "ew3 (*) (probs (Categorical_init (tab3 T B M pf)))
        (map3 exp (tab3 T B M (\<lambda>t b i. mvn_log_prob
           ((mxf t b i, myf t b i), ((af t b i, 0),
              (cf t b i * bf t b i, bf t b i * sqrt (1 - cf t b i * cf t b i))))
           (xf t b, yf t b))))
      = Inr (tab3 T B M (\<lambda>t b i. exp (pf t b i) / (\<Sum>j<M. exp (pf t b j))
           * bivariate_normal_pdf (mxf t b i) (myf t b i) (af t b i) (bf t b i) (cf t b i)
               (xf t b) (yf t b)))"
    by (simp add: probs_Categorical_init map_map_softmax_tab3 map3_tab3 ew3_tab3
        exp_mvn_log_prob apos bpos clt)
  define dens where "dens = (\<lambda>t b. \<Sum>i<M. exp (pf t b i) / (\<Sum>j<M. exp (pf t b j))
           * bivariate_normal_pdf (mxf t b i) (myf t b i) (af t b i) (bf t b i) (cf t b i)
               (xf t b) (yf t b))"
  have code: "loss_stroke mask' target dist' h
      = Inr (- ((\<Sum>t<T. \<Sum>b<B. mf t b * ln (1 / 100000 + dens t b)) / (real T * real B)))"
    unfolding loss_stroke_def gd nd
    by (simp add: and_then_def xy lp weighted map_map_sum_list_tab3 map_map_tab2
        map_map_comp_sum_list_tab3
        meq ew_tab2 mean2_tab2[OF T B] dens_def)
  have md: "mixture_density dist' h target t b = dens t b" if "t < T" "b < B" for t b
  proof -
    have len: "length (h (pi_logits dist') ! t ! b) = M"
      using shape3_replicateD(3)[OF shp that] .
    show ?thesis
      unfolding mixture_density_def len dens_def
      by (rule sum.cong)
        (simp_all add: softmax_nth[OF len] pf_def mxf_def myf_def af_def bf_def cf_def sxf_def
          syf_def rf_def tf_def xf_def yf_def)
  qed
  have "(\<Sum>t<T. \<Sum>b<B. mask' ! t ! b * ln (1 / 100000 + mixture_density dist' h target t b))
      = (\<Sum>t<T. \<Sum>b<B. mf t b * ln (1 / 100000 + dens t b))"
    by (intro sum.cong refl) (simp add: md mf_def)
  then show ?thesis
    unfolding code stroke_loss_spec_def by simp
qed

lemma mixture_density_first_step:
  assumes "same_first_step target1 dist1 h1 target2 dist2 h2"
  shows "mixture_density dist1 h1 target1 0 b = mixture_density dist2 h2 target2 0 b"
  using assms by (simp add: mixture_density_def same_first_step_def)

lemma sum_single_valid:
  fixes g :: "nat \<Rightarrow> real"
  assumes "0 < T"
  shows "(\<Sum>t<T. \<Sum>b<1. single_valid_mask T ! t ! b * g t) = g 0"
proof -
  from assms obtain n where T: "T = Suc n" by (cases T) auto
  have "(\<Sum>t<T. \<Sum>b<1. single_valid_mask T ! t ! b * g t)
      = (\<Sum>t<Suc n. single_valid_mask (Suc n) ! t ! 0 * g t)"
    by (simp add: T)
  also have "\<dots> = single_valid_mask (Suc n) ! 0 ! 0 * g 0
      + (\<Sum>t<n. single_valid_mask (Suc n) ! Suc t ! 0 * g (Suc t))"
    by (rule sum.lessThan_Suc_shift)
  also have "(\<Sum>t<n. single_valid_mask (Suc n) ! Suc t ! 0 * g (Suc t)) = 0"
    by (rule sum.neutral) (simp add: single_valid_mask_def)
  finally show ?thesis by (simp add: single_valid_mask_def)
qed

lemma stroke_loss_single_valid:
  assumes "0 < T"
  shows "stroke_loss_spec T 1 (single_valid_mask T) target dist' h
       = - ln (1 / 100000 + mixture_density dist' h target 0 0) / real T"
proof -
  have "(\<Sum>t<T. \<Sum>b<1. single_valid_mask T ! t ! b
            * ln (1 / 100000 + mixture_density dist' h target t b))
      = (\<Sum>t<T. \<Sum>b<1. single_valid_mask T ! t ! b
            * ln (1 / 100000 + mixture_density dist' h target t 0))"
    by simp
  also have "\<dots> = ln (1 / 100000 + mixture_density dist' h target 0 0)"
    using assms by (rule sum_single_valid)
  finally show ?thesis
    by (simp only: stroke_loss_spec_def of_nat_1 mult_1_right)
qed

lemma replicate_pred: "0 < T \<Longrightarrow> x # replicate (T - 1) x = replicate T x"
  by (cases T) simp_all

lemma wf_batch_pad:
  assumes "0 < T"
  shows "wf_batch T 1 1 (single_valid_mask T) (target_pad T) mix0 (heap_pad s T)"
  using assms
  by (cases T)
    (simp_all add: wf_batch_def single_valid_mask_def target_pad_def heap_pad_def mix0_def
      shape3_def map_replicate_const eval_nat_numeral)

lemma same_first_step_pad:
  assumes "0 < T1" "0 < T2"
  shows "same_first_step (target_pad T1) mix0 (heap_pad s T1) (target_pad T2) mix0 (heap_pad s T2)"
  using assms by (simp add: same_first_step_def target_pad_def heap_pad_def mix0_def)

lemma softmax_single: "softmax [v] = [1]"
  by (simp add: softmax_def)

lemma mixture_density_pad:
  assumes "0 < T"
  shows "mixture_density mix0 (heap_pad s T) (target_pad T) 0 0 = 1 / (2 * pi * max s (1 / 100000))"
  using assms
  by (simp add: mixture_density_def heap_pad_def mix0_def target_pad_def softmax_single
      bivariate_normal_pdf_def)

lemma loss_stroke_pad:
  assumes "0 < T"
  shows "loss_stroke (single_valid_mask T) (target_pad T) mix0 (heap_pad s T)
       = Inr (- ln (1 / 100000 + 1 / (2 * pi * max s (1 / 100000))) / real T)"
  unfolding loss_stroke_formula[OF wf_batch_pad[OF assms]] stroke_loss_single_valid[OF assms]
    mixture_density_pad[OF assms] ..

lemma ln_std_nonzero: "ln (1 / 100000 + 1 / (2 * pi * max 1 (1 / 100000))) \<noteq> 0"
proof -
  have "1 / (2 * pi) \<le> 1 / 4"
    using pi_ge_two by (intro frac_le) simp_all
  then have lt: "1 / 100000 + 1 / (2 * pi) < 1" by linarith
  have "0 < 1 / (2 * pi)" by simp
  then have gt: "0 < 1 / 100000 + 1 / (2 * pi)" by linarith
  from lt gt have "ln (1 / 100000 + 1 / (2 * pi)) < 0" by (simp add: ln_less_zero_iff)
  then show ?thesis by simp
qed

text \<open>
  C3. For a batch of padded length \<open>T\<close> with \<open>B\<close> sequences, the stroke loss is
  \<open>-(1 / (T \<cdot> B))\<close> times the sum over all positions of \<open>mask \<cdot> log (10\<^sup>-\<^sup>5 + p)\<close>, where
  \<open>p\<close> is the softmax-weighted mixture density at the true offset: the divisor is the
  padded length, not the number of valid positions. Two batches of one sequence that
  hold the same single valid step and differ in padded length have different stroke
  losses whenever \<open>log (10\<^sup>-\<^sup>5 + p)\<close> at the valid step is not zero.
\<close>

theorem stroke_loss_mean_over_padded_length:
  "(wf_batch T B M mask' target dist' h \<longrightarrow>
      loss_stroke mask' target dist' h =
        Inr (- (\<Sum>t<T. \<Sum>b<B. mask' ! t ! b * ln (1 / 100000 + mixture_density dist' h target t b))
             / (real T * real B)))
   \<and> (wf_batch T1 1 M1 (single_valid_mask T1) target1 dist1 h1
        \<and> wf_batch T2 1 M2 (single_valid_mask T2) target2 dist2 h2
        \<and> same_first_step target1 dist1 h1 target2 dist2 h2
        \<and> T1 \<noteq> T2
        \<and> ln (1 / 100000 + mixture_density dist1 h1 target1 0 0) \<noteq> 0
      \<longrightarrow> loss_stroke (single_valid_mask T1) target1 dist1 h1
            \<noteq> loss_stroke (single_valid_mask T2) target2 dist2 h2)"
proof (intro conjI impI)
  assume "wf_batch T B M mask' target dist' h"
  then show "loss_stroke mask' target dist' h =
        Inr (- (\<Sum>t<T. \<Sum>b<B. mask' ! t ! b * ln (1 / 100000 + mixture_density dist' h target t b))
             / (real T * real B))"
    by (simp only: loss_stroke_formula stroke_loss_spec_def)
next
  assume a: "wf_batch T1 1 M1 (single_valid_mask T1) target1 dist1 h1
        \<and> wf_batch T2 1 M2 (single_valid_mask T2) target2 dist2 h2
        \<and> same_first_step target1 dist1 h1 target2 dist2 h2
        \<and> T1 \<noteq> T2
        \<and> ln (1 / 100000 + mixture_density dist1 h1 target1 0 0) \<noteq> 0"
  define L where "L = ln (1 / 100000 + mixture_density dist1 h1 target1 0 0)"
  from a have T: "0 < T1" "0 < T2" by (simp_all add: wf_batch_def)
  from a have L2: "ln (1 / 100000 + mixture_density dist2 h2 target2 0 0) = L"
    unfolding L_def using mixture_density_first_step[of target1 dist1 h1 target2 dist2 h2 0] by simp
  from a have w1: "wf_batch T1 1 M1 (single_valid_mask T1) target1 dist1 h1"
    and w2: "wf_batch T2 1 M2 (single_valid_mask T2) target2 dist2 h2" by blast+
  have l1: "loss_stroke (single_valid_mask T1) target1 dist1 h1 = Inr (- L / real T1)"
    unfolding loss_stroke_formula[OF w1] stroke_loss_single_valid[OF T(1)] L_def ..
  have l2: "loss_stroke (single_valid_mask T2) target2 dist2 h2 = Inr (- L / real T2)"
    unfolding loss_stroke_formula[OF w2] stroke_loss_single_valid[OF T(2)] L2 ..
  from a have "L \<noteq> 0" "real T1 \<noteq> real T2" by (simp_all add: L_def)
  with T have "- L / real T1 \<noteq> - L / real T2"
    by (simp add: field_simps)
  then show "loss_stroke (single_valid_mask T1) target1 dist1 h1
            \<noteq> loss_stroke (single_valid_mask T2) target2 dist2 h2"
    unfolding l1 l2 by simp
qed

theorem stroke_loss_mean_over_padded_length_witness:
  "wf_batch 1 1 1 (single_valid_mask 1) (target_pad 1) mix0 (heap_pad 1 1)
   \<and> wf_batch 2 1 1 (single_valid_mask 2) (target_pad 2) mix0 (heap_pad 1 2)
   \<and> same_first_step (target_pad 1) mix0 (heap_pad 1 1) (target_pad 2) mix0 (heap_pad 1 2)
   \<and> (1 :: nat) \<noteq> 2
   \<and> ln (1 / 100000 + mixture_density mix0 (heap_pad 1 1) (target_pad 1) 0 0) \<noteq> 0
   \<and> loss_stroke (single_valid_mask 1) (target_pad 1) mix0 (heap_pad 1 1)
       \<noteq> loss_stroke (single_valid_mask 2) (target_pad 2) mix0 (heap_pad 1 2)
   \<and> loss_stroke (single_valid_mask 1) (target_pad 1) mix0 (heap_pad 1 1)
       = Inr (- (\<Sum>t<1. \<Sum>b<1. single_valid_mask 1 ! t ! b
                  * ln (1 / 100000 + mixture_density mix0 (heap_pad 1 1) (target_pad 1) t b))
              / (real 1 * real 1))"
proof -
  have w1: "wf_batch 1 1 1 (single_valid_mask 1) (target_pad 1) mix0 (heap_pad 1 1)"
    by (rule wf_batch_pad) simp
  have w2: "wf_batch 2 1 1 (single_valid_mask 2) (target_pad 2) mix0 (heap_pad 1 2)"
    by (rule wf_batch_pad) simp
  have s: "same_first_step (target_pad 1) mix0 (heap_pad 1 1) (target_pad 2) mix0 (heap_pad 1 2)"
    by (rule same_first_step_pad) simp_all
  have n: "(1 :: nat) \<noteq> 2" by simp
  have l: "ln (1 / 100000 + mixture_density mix0 (heap_pad 1 1) (target_pad 1) 0 0) \<noteq> 0"
    unfolding mixture_density_pad[OF zero_less_one] by (rule ln_std_nonzero)
  note inst = stroke_loss_mean_over_padded_length[of "1" "1" "1" "single_valid_mask 1" "target_pad 1"
      mix0 "heap_pad 1 1" "1" "1" "target_pad 1" mix0 "heap_pad 1 1" "2" "1" "target_pad 2" mix0
      "heap_pad 1 2"]
  from inst w1 w2 s n l show ?thesis by blast
qed

lemma sigma_cex: "max (50000 / (99999 * pi)) (1 / 100000) = 50000 / (99999 * pi)"
proof -
  have "99999 * pi < 99999 * 4" using pi_less_4 by simp
  then have "50000 / (99999 * 4) < 50000 / (99999 * pi)"
    using pi_gt_zero by (intro divide_strict_left_mono) simp_all
  moreover have "(1 :: real) / 100000 \<le> 50000 / (99999 * 4)" by simp
  ultimately have "1 / 100000 \<le> 50000 / (99999 * pi)" by linarith
  then show ?thesis by (simp only: max_absorb1)
qed

lemma ln_cex: "ln (1 / 100000 + 1 / (2 * pi * max (50000 / (99999 * pi)) (1 / 100000))) = 0"
proof -
  have "2 * pi * (50000 / (99999 * pi)) = 100000 / 99999" by simp
  then have "1 / 100000 + 1 / (2 * pi * (50000 / (99999 * pi))) = 1" by (simp only:) simp
  then show ?thesis by (simp only: sigma_cex ln_one)
qed

text \<open>
  C3, as stated for every mixture, fails where \<open>log (10\<^sup>-\<^sup>5 + p)\<close> is zero at the valid
  step: for one component with \<open>\<sigma>\<^sub>x = 50000 / (99999 \<pi>)\<close>, \<open>\<sigma>\<^sub>y = 1\<close>, \<open>\<rho> = 0\<close> and the
  target at the mean, the density is \<open>1 - 10\<^sup>-\<^sup>5\<close>, and the stroke loss is zero for the
  padded length one and for the padded length two.
\<close>

theorem stroke_loss_equal_counterexample:
  "wf_batch 1 1 1 (single_valid_mask 1) (target_pad 1) mix0 (heap_pad (50000 / (99999 * pi)) 1)
   \<and> wf_batch 2 1 1 (single_valid_mask 2) (target_pad 2) mix0 (heap_pad (50000 / (99999 * pi)) 2)
   \<and> same_first_step (target_pad 1) mix0 (heap_pad (50000 / (99999 * pi)) 1)
                      (target_pad 2) mix0 (heap_pad (50000 / (99999 * pi)) 2)
   \<and> (1 :: nat) \<noteq> 2
   \<and> loss_stroke (single_valid_mask 1) (target_pad 1) mix0 (heap_pad (50000 / (99999 * pi)) 1) = Inr 0
   \<and> loss_stroke (single_valid_mask 2) (target_pad 2) mix0 (heap_pad (50000 / (99999 * pi)) 2) = Inr 0"
proof -
  have p1: "(0 :: nat) < 1" and p2: "(0 :: nat) < 2" by simp_all
  have "loss_stroke (single_valid_mask 1) (target_pad 1) mix0 (heap_pad (50000 / (99999 * pi)) 1) = Inr 0"
    by (simp only: loss_stroke_pad[OF p1] ln_cex) simp
  moreover have "loss_stroke (single_valid_mask 2) (target_pad 2) mix0 (heap_pad (50000 / (99999 * pi)) 2) = Inr 0"
    by (simp only: loss_stroke_pad[OF p2] ln_cex) simp
  ultimately show ?thesis
    using wf_batch_pad[OF p1] wf_batch_pad[OF p2] same_first_step_pad[OF p1 p2] by simp
qed

subsection \<open>The pen loss\<close>

lemma length_flat_tab3: "length (flat (tab3 T B M f)) = T * B * M"
  by (simp add: flat_def tab3_def length_concat comp_def sum_list_triv map_concat
      sum_list_concat_map)

lemma length_concat_tab3: "length (concat (tab3 T B M f)) = T * B"
  by (simp add: tab3_def length_concat comp_def sum_list_triv)

lemma drop2_tab3:
  "map (map (drop 2)) (tab3 T B 5 f) = tab3 T B 3 (\<lambda>t b k. f t b (k + 2))"
proof -
  have "drop 2 (map g [0..<5]) = map (\<lambda>k. g (k + 2)) [0..<3]" for g :: "nat \<Rightarrow> 'a"
    by (rule nth_equalityI) (simp_all add: add.commute)
  then show ?thesis by (simp add: tab3_def comp_def del: upt_Suc)
qed

lemma loss_pen_formula:
  assumes "0 < T" and "0 < B"
    and "shape3 target = replicate T (replicate B 5)"
    and "shape3 q_logits = replicate T (replicate B 3)"
  shows "loss_pen target q_logits = Inr (pen_loss_spec target q_logits / 3)"
proof -
  define tf where "tf = (\<lambda>t b i. target ! t ! b ! i)"
  define qf where "qf = (\<lambda>t b k. q_logits ! t ! b ! k)"
  have teq: "target = tab3 T B 5 tf"
    unfolding tf_def using assms(3) by (rule tab3_of_shape)
  have qeq: "q_logits = tab3 T B 3 qf"
    unfolding qf_def using assms(4) by (rule tab3_of_shape)
  define prod where "prod = tab3 T B 3 (\<lambda>t b k. tf t b (k + 2) * qf t b k)"
  have zip: "map2 (map2 (map2 (*))) (map (map (drop 2)) target) q_logits = prod"
    unfolding teq qeq prod_def by (simp only: drop2_tab3 zip3_tab3)
  have e: "ew3 (*) (map (map (drop 2)) target) q_logits = Inr prod"
    unfolding teq qeq prod_def by (simp only: drop2_tab3 ew3_tab3)
  have len: "length (flat prod) = T * B * 3"
    unfolding prod_def by (rule length_flat_tab3)
  with assms(1,2) have "flat prod \<noteq> []" by auto
  then have m: "mean3 prod = Inr (sum_list (flat prod) / real (T * B * 3))"
    by (simp add: mean3_def mean_all_def len)
  have lt: "length (concat target) = T * B"
    unfolding teq by (rule length_concat_tab3)
  have "loss_pen target q_logits = Inr (- (sum_list (flat prod) / real (T * B * 3)))"
    by (simp add: loss_pen_def e m and_then_def)
  moreover have "pen_loss_spec target q_logits = - sum_list (flat prod) / real (T * B)"
    by (simp only: pen_loss_spec_def zip lt)
  ultimately show ?thesis by simp
qed

text \<open>
  C2. The pen loss that \<^verbatim>\<open>ReconstructionLoss.forward\<close> computes is not the stated one:
  \<^verbatim>\<open>torch.mean\<close> averages over the class axis too, so for a target of shape
  \<open>T \<times> B \<times> 5\<close> and log-probabilities of shape \<open>T \<times> B \<times> 3\<close> the result is the stated
  loss (the sum over positions and classes divided by \<open>T \<cdot> B\<close>) divided by three.
\<close>

theorem loss_pen_divides_by_classes:
  assumes "0 < T" and "0 < B"
    and "shape3 target = replicate T (replicate B 5)"
    and "shape3 q_logits = replicate T (replicate B 3)"
  shows "loss_pen target q_logits = Inr (pen_loss_spec target q_logits / 3)"
  using assms by (rule loss_pen_formula)

theorem loss_pen_divides_by_classes_witness:
  "(0 :: nat) < 1
   \<and> shape3 (target_pad 1) = replicate 1 (replicate 1 5)
   \<and> shape3 q_logits0 = replicate 1 (replicate 1 3)
   \<and> pen_loss_spec (target_pad 1) q_logits0 = ln 2
   \<and> loss_pen (target_pad 1) q_logits0 = Inr (ln 2 / 3)
   \<and> ln 2 / 3 \<noteq> (ln 2 :: real)"
proof -
  have p: "(0 :: nat) < 1" by simp
  have s1: "shape3 (target_pad 1) = replicate 1 (replicate 1 5)"
    by (simp add: shape3_def target_pad_def)
  have s2: "shape3 q_logits0 = replicate 1 (replicate 1 3)"
    by (simp add: shape3_def q_logits0_def)
  have v: "pen_loss_spec (target_pad 1) q_logits0 = ln 2"
    by (simp add: pen_loss_spec_def target_pad_def q_logits0_def flat_def ln_div)
  have "(0 :: real) < ln 2" by simp
  then have n: "ln 2 / 3 \<noteq> (ln 2 :: real)" by simp
  from loss_pen_divides_by_classes[OF p p s1 s2] v n p s1 s2 show ?thesis by simp
qed

subsection \<open>The training step\<close>

lemma length_transpose_rect:
  assumes "xs \<noteq> []" and "\<forall>x\<in>set xs. length x = T"
  shows "length (transpose xs) = T"
proof -
  have "foldr (\<lambda>x. max (length x)) ys 0 = (if ys = [] then 0 else T)"
    if "\<forall>x\<in>set ys. length x = T" for ys :: "'a list list"
    using that by (induction ys) auto
  with assms show ?thesis by (simp add: length_transpose)
qed

lemma step_batch_items:
  assumes "step self batch is_training = Inr (loss, rl, kl, n)"
  shows "n = length (transpose (fst batch))"
  using assms
  by (auto simp: step_def Let_def and_then_def split: sum.splits prod.splits if_splits)

text \<open>
  C1. The fourth component that \<^verbatim>\<open>Trainer.step\<close> returns is \<^verbatim>\<open>len(data)\<close> taken after
  the batch axis and the time axis have been swapped: for a batch of sequences that are
  all padded to \<open>T\<close> steps it is the padded sequence length \<open>T\<close>, not the number of
  sequences in the batch.
\<close>

theorem step_returns_padded_length:
  assumes "step self batch is_training = Inr (loss, rl, kl, n)"
    and "fst batch \<noteq> []" and "\<forall>seq\<in>set (fst batch). length seq = T"
  shows "n = T"
  using step_batch_items[OF assms(1)] length_transpose_rect[OF assms(2,3)] by simp

lemma transpose_batch0:
  "transpose (fst batch0) =
     [[[0, 0, 1, 0, 0], [0, 0, 1, 0, 0]], [[0, 0, 1, 0, 0], [0, 0, 1, 0, 0]],
      [[0, 0, 0, 0, 1], [0, 0, 0, 0, 1]]]"
  "transpose (snd batch0) = [[1, 1], [1, 1]]"
  by (simp_all add: batch0_def)

lemma wf_batch0:
  "wf_batch 2 2 1 [[1, 1], [1, 1]]
     [[[0, 0, 1, 0, 0], [0, 0, 1, 0, 0]], [[0, 0, 0, 0, 1], [0, 0, 0, 0, 1]]] mix0 heap0"
  by (simp add: wf_batch_def shape3_def heap0_def mix0_def eval_nat_numeral)


lemma KLDivLoss_zero: "KLDivLoss_forward [[0], [0]] [[0], [0]] = Inr 0"
  by (simp add: KLDivLoss_forward_def and_then_def ew_def same_shape_def mean2_def mean_all_def)

theorem step_returns_padded_length_witness:
  "step trainer0 batch0 False =
     Inr (stroke_loss_spec 2 2 [[1, 1], [1, 1]]
            [[[0, 0, 1, 0, 0], [0, 0, 1, 0, 0]], [[0, 0, 0, 0, 1], [0, 0, 0, 0, 1]]] mix0 heap0
          + pen_loss_spec
              [[[0, 0, 1, 0, 0], [0, 0, 1, 0, 0]], [[0, 0, 0, 0, 1], [0, 0, 0, 0, 1]]]
              [[[ln (1 / 2), ln (1 / 4), ln (1 / 4)], [ln (1 / 2), ln (1 / 4), ln (1 / 4)]],
               [[ln (1 / 2), ln (1 / 4), ln (1 / 4)], [ln (1 / 2), ln (1 / 4), ln (1 / 4)]]] / 3,
          stroke_loss_spec 2 2 [[1, 1], [1, 1]]
            [[[0, 0, 1, 0, 0], [0, 0, 1, 0, 0]], [[0, 0, 0, 0, 1], [0, 0, 0, 0, 1]]] mix0 heap0
          + pen_loss_spec
              [[[0, 0, 1, 0, 0], [0, 0, 1, 0, 0]], [[0, 0, 0, 0, 1], [0, 0, 0, 0, 1]]]
              [[[ln (1 / 2), ln (1 / 4), ln (1 / 4)], [ln (1 / 2), ln (1 / 4), ln (1 / 4)]],
               [[ln (1 / 2), ln (1 / 4), ln (1 / 4)], [ln (1 / 2), ln (1 / 4), ln (1 / 4)]]] / 3,
          0, 3)
   \<and> length (fst batch0) = 2
   \<and> list_all (\<lambda>seq. length seq = 3) (fst batch0)"
proof -
  let ?t = "[[[0, 0, 1, 0, 0], [0, 0, 1, 0, 0]], [[0, 0, 0, 0, 1], [0, 0, 0, 0, 1 :: real]]]"
  let ?q = "[[[ln (1 / 2), ln (1 / 4), ln (1 / 4)], [ln (1 / 2), ln (1 / 4), ln (1 / 4)]],
               [[ln (1 / 2), ln (1 / 4), ln (1 / 4)], [ln (1 / 2), ln (1 / 4), ln (1 / 4 :: real)]]]"
  have ls: "loss_stroke [[1, 1], [1, 1]] ?t mix0 heap0
      = Inr (stroke_loss_spec 2 2 [[1, 1], [1, 1]] ?t mix0 heap0)"
    using wf_batch0 by (rule loss_stroke_formula)
  have lp: "loss_pen ?t ?q = Inr (pen_loss_spec ?t ?q / 3)"
    by (rule loss_pen_formula[of 2 2]) (simp_all add: shape3_def eval_nat_numeral)
  have rl: "ReconstructionLoss_forward [[1, 1], [1, 1]] ?t mix0 ?q heap0
      = Inr (stroke_loss_spec 2 2 [[1, 1], [1, 1]] ?t mix0 heap0 + pen_loss_spec ?t ?q / 3)"
    by (simp add: ReconstructionLoss_forward_def ls lp and_then_def)
  have r2: "replicate 2 x = [x, x]" for x :: matrix
    by (simp add: numeral_2_eq_2)
  have st: "step trainer0 batch0 False =
     Inr (stroke_loss_spec 2 2 [[1, 1], [1, 1]] ?t mix0 heap0 + pen_loss_spec ?t ?q / 3,
          stroke_loss_spec 2 2 [[1, 1], [1, 1]] ?t mix0 heap0 + pen_loss_spec ?t ?q / 3,
          0, 3)"
    by (simp add: step_def trainer0_def Let_def and_then_def transpose_batch0 cat2_def
        KLDivLoss_zero rl r2)
  have b: "fst batch0 \<noteq> []" "\<forall>seq\<in>set (fst batch0). length seq = 3" "length (fst batch0) = 2"
    by (simp_all add: batch0_def)
  from step_returns_padded_length[OF st b(1,2)] st b show ?thesis
    by (simp add: list_all_iff)
qed

subsection \<open>Rounding to binary32\<close>

lemma rne_error: "\<bar>of_int (rne y) - y\<bar> \<le> 1 / 2"
  unfolding rne_def Let_def by (auto; linarith)

lemma rne_of_int: "rne (of_int n) = n"
  by (simp add: rne_def)

lemma rne_cases:
  "rne y = \<lfloor>y\<rfloor> \<and> y - of_int \<lfloor>y\<rfloor> \<le> 1 / 2 \<or> rne y = \<lfloor>y\<rfloor> + 1 \<and> 1 / 2 \<le> y - of_int \<lfloor>y\<rfloor>"
  unfolding rne_def Let_def by auto

lemma rne_mono:
  assumes "x \<le> y"
  shows "rne x \<le> rne y"
proof (cases "\<lfloor>x\<rfloor> = \<lfloor>y\<rfloor>")
  case True
  with assms show ?thesis unfolding rne_def Let_def by auto
next
  case False
  with assms have "\<lfloor>x\<rfloor> + 1 \<le> \<lfloor>y\<rfloor>" using floor_mono[of x y] by linarith
  moreover have "rne x \<le> \<lfloor>x\<rfloor> + 1" using rne_cases[of x] by auto
  moreover have "\<lfloor>y\<rfloor> \<le> rne y" using rne_cases[of y] by auto
  ultimately show ?thesis by linarith
qed


lemma log2_bounds:
  assumes "0 < x"
  shows "2 powr of_int \<lfloor>log 2 x\<rfloor> \<le> x" and "x < 2 powr (of_int \<lfloor>log 2 x\<rfloor> + 1)"
  using floor_log_eq_powr_iff[of x 2 "\<lfloor>log 2 x\<rfloor>"] assms by simp_all

lemma floor_log2_eq:
  assumes "0 < x" "2 powr of_int k \<le> x" "x < 2 powr (of_int k + 1)"
  shows "\<lfloor>log 2 x\<rfloor> = k"
  using floor_log_eq_powr_iff[of x 2 k] assms by simp

lemma ulp32_pos: "0 < ulp32 x"
  by (simp add: ulp32_def)

lemma ulp32_scale: "2 ^ 24 * ulp32 x = 2 powr (of_int (exponent32 x) + 1)"
proof -
  have "(2 :: real) ^ 24 = 2 powr 24" by simp
  then have "2 ^ 24 * ulp32 x = 2 powr 24 * 2 powr (of_int (exponent32 x) - 23)"
    by (simp only: ulp32_def)
  also have "\<dots> = 2 powr (24 + (of_int (exponent32 x) - 23))"
    by (simp only: powr_add)
  finally show ?thesis by (simp add: algebra_simps)
qed

lemma ulp32_scale': "2 ^ 23 * ulp32 x = 2 powr of_int (exponent32 x)"
proof -
  have "(2 :: real) ^ 23 = 2 powr 23" by simp
  then have "2 ^ 23 * ulp32 x = 2 powr 23 * 2 powr (of_int (exponent32 x) - 23)"
    by (simp only: ulp32_def)
  also have "\<dots> = 2 powr (23 + (of_int (exponent32 x) - 23))"
    by (simp only: powr_add)
  finally show ?thesis by (simp add: algebra_simps)
qed

lemma scaled_lt:
  assumes "0 < x"
  shows "x / ulp32 x < 2 ^ 24"
proof -
  have "x < 2 powr (of_int \<lfloor>log 2 x\<rfloor> + 1)" using log2_bounds(2)[OF assms] .
  also have "\<dots> \<le> 2 powr (of_int (exponent32 x) + 1)"
    by (simp add: exponent32_def)
  also have "\<dots> = 2 ^ 24 * ulp32 x" by (simp only: ulp32_scale)
  finally show ?thesis using ulp32_pos[of x] by (simp add: pos_divide_less_eq)
qed

lemma scaled_ge:
  assumes "0 < x" "- 126 \<le> \<lfloor>log 2 x\<rfloor>"
  shows "2 ^ 23 \<le> x / ulp32 x"
proof -
  from assms(2) have e: "exponent32 x = \<lfloor>log 2 x\<rfloor>" by (simp add: exponent32_def)
  have "2 ^ 23 * ulp32 x = 2 powr of_int \<lfloor>log 2 x\<rfloor>" by (simp only: ulp32_scale' e)
  also have "\<dots> \<le> x" using log2_bounds(1)[OF assms(1)] .
  finally show ?thesis using ulp32_pos[of x] by (simp add: pos_le_divide_eq)
qed

lemma rne_le_int: "y \<le> of_int n \<Longrightarrow> rne y \<le> n"
  using rne_mono[of y "of_int n"] by (simp add: rne_of_int)

lemma rne_ge_int: "of_int n \<le> y \<Longrightarrow> n \<le> rne y"
  using rne_mono[of "of_int n" y] by (simp add: rne_of_int)

lemma nearest32_le:
  assumes "0 < x"
  shows "nearest32 x \<le> 2 powr (of_int (exponent32 x) + 1)"
proof -
  have "x / ulp32 x \<le> of_int (2 ^ 24)" using scaled_lt[OF assms] by simp
  then have "rne (x / ulp32 x) \<le> 2 ^ 24" by (rule rne_le_int)
  then have "(of_int (rne (x / ulp32 x)) :: real) \<le> 2 ^ 24"
    by (metis of_int_le_iff of_int_numeral of_int_power)
  then have "nearest32 x \<le> 2 ^ 24 * ulp32 x"
    unfolding nearest32_def using ulp32_pos[of x] by (simp add: mult_right_mono)
  then show ?thesis by (simp only: ulp32_scale)
qed

lemma nearest32_ge:
  assumes "0 < x" "- 126 \<le> \<lfloor>log 2 x\<rfloor>"
  shows "2 powr of_int (exponent32 x) \<le> nearest32 x"
proof -
  have "of_int (2 ^ 23) \<le> x / ulp32 x" using scaled_ge[OF assms] by simp
  then have "2 ^ 23 \<le> rne (x / ulp32 x)" by (rule rne_ge_int)
  then have "(2 :: real) ^ 23 \<le> of_int (rne (x / ulp32 x))"
    by (metis of_int_le_iff of_int_numeral of_int_power)
  then have "2 ^ 23 * ulp32 x \<le> nearest32 x"
    unfolding nearest32_def using ulp32_pos[of x] by (simp add: mult_right_mono)
  then show ?thesis by (simp only: ulp32_scale')
qed

lemma nearest32_nonneg:
  assumes "0 < x"
  shows "0 \<le> nearest32 x"
proof -
  have "of_int 0 \<le> x / ulp32 x" using assms ulp32_pos[of x] by simp
  then have "0 \<le> rne (x / ulp32 x)" by (rule rne_ge_int)
  then show ?thesis unfolding nearest32_def using ulp32_pos[of x] by simp
qed

lemma nearest32_error:
  assumes "0 < x"
  shows "\<bar>nearest32 x - x\<bar> \<le> x / 2 ^ 24 + 1 / 2 ^ 150"
proof -
  let ?q = "ulp32 x"
  have q: "0 < ?q" by (rule ulp32_pos)
  have "nearest32 x - x = (of_int (rne (x / ?q)) - x / ?q) * ?q"
    using q by (simp add: nearest32_def algebra_simps)
  then have "\<bar>nearest32 x - x\<bar> = \<bar>of_int (rne (x / ?q)) - x / ?q\<bar> * ?q"
    using q by (simp add: abs_mult)
  also have "\<dots> \<le> 1 / 2 * ?q"
    using rne_error[of "x / ?q"] q by (intro mult_right_mono) simp_all
  finally have err: "\<bar>nearest32 x - x\<bar> \<le> ?q / 2" by simp
  show ?thesis
  proof (cases "- 126 \<le> \<lfloor>log 2 x\<rfloor>")
    case True
    from scaled_ge[OF assms True] q have "2 ^ 23 * ?q \<le> x" by (simp add: pos_le_divide_eq)
    then have "?q / 2 \<le> x / 2 ^ 24" by simp
    moreover have "(0 :: real) \<le> 1 / 2 ^ 150" by simp
    ultimately show ?thesis using err by linarith
  next
    case False
    then have "exponent32 x = - 126" by (simp add: exponent32_def)
    then have "?q = 2 powr (- 149)" by (simp add: ulp32_def)
    then have "?q / 2 = 1 / 2 ^ 150" by (simp add: powr_neg_numeral)
    with err show ?thesis using assms by simp
  qed
qed

lemma exponent32_mono:
  assumes "0 < x" "x \<le> y"
  shows "exponent32 x \<le> exponent32 y"
proof -
  have "log 2 x \<le> log 2 y" using assms by simp
  then have "\<lfloor>log 2 x\<rfloor> \<le> \<lfloor>log 2 y\<rfloor>" by (rule floor_mono)
  then show ?thesis by (simp add: exponent32_def)
qed

lemma nearest32_mono:
  assumes "0 < x" "x \<le> y"
  shows "nearest32 x \<le> nearest32 y"
proof (cases "exponent32 x = exponent32 y")
  case True
  then have q: "ulp32 x = ulp32 y" by (simp add: ulp32_def)
  have "x / ulp32 y \<le> y / ulp32 y" using assms ulp32_pos[of y] by (simp add: divide_right_mono)
  then have "rne (x / ulp32 y) \<le> rne (y / ulp32 y)" by (rule rne_mono)
  then show ?thesis unfolding nearest32_def q using ulp32_pos[of y]
    by (simp add: mult_right_mono)
next
  case False
  with exponent32_mono[OF assms] have lt: "exponent32 x + 1 \<le> exponent32 y" by simp
  then have "- 126 < exponent32 y" by (simp add: exponent32_def)
  then have n: "- 126 \<le> \<lfloor>log 2 y\<rfloor>" unfolding exponent32_def by linarith
  have y: "0 < y" using assms by simp
  have "nearest32 x \<le> 2 powr (of_int (exponent32 x) + 1)" by (rule nearest32_le[OF assms(1)])
  also have "\<dots> \<le> 2 powr of_int (exponent32 y)"
    using lt by (simp add: powr_le_cancel_iff del: of_int_add)
  also have "\<dots> \<le> nearest32 y" by (rule nearest32_ge[OF y n])
  finally show ?thesis .
qed


lemma exponent32_normal:
  assumes "0 < x" "2 powr of_int k \<le> x" "x < 2 powr (of_int k + 1)" "- 126 \<le> k"
  shows "exponent32 x = k"
  using floor_log2_eq[OF assms(1-3)] assms(4) by (simp add: exponent32_def)

lemma exponent32_subnormal:
  assumes "0 < x" "x < 2 powr (- 126)"
  shows "exponent32 x = - 126"
proof -
  have "log 2 x < - 126" using assms by (simp add: log_less_iff)
  then have "\<lfloor>log 2 x\<rfloor> < - 126" by (simp add: floor_less_iff)
  then show ?thesis by (simp add: exponent32_def)
qed

lemma nearest32_scaled:
  assumes "2 ^ 23 \<le> y" "y < 2 ^ 24" "- 149 \<le> k"
  shows "nearest32 (y * 2 powr of_int k) = of_int (rne y) * 2 powr of_int k"
proof -
  let ?x = "y * 2 powr of_int k"
  have y: "0 < y" using assms(1) by (rule less_le_trans[rotated]) simp
  then have x: "0 < ?x" by simp
  have "(2 :: real) powr of_int (k + 23) = 2 powr 23 * 2 powr of_int k"
    by (simp add: powr_add algebra_simps)
  then have lo: "2 powr of_int (k + 23) \<le> ?x" using assms(1) by simp
  have "(2 :: real) powr (of_int (k + 23) + 1) = 2 powr 24 * 2 powr of_int k"
    by (simp add: powr_add algebra_simps)
  then have hi: "?x < 2 powr (of_int (k + 23) + 1)" using assms(2) by simp
  have "exponent32 ?x = k + 23"
    using assms(3) by (intro exponent32_normal[OF x lo hi]) simp
  then have "ulp32 ?x = 2 powr of_int k" by (simp add: ulp32_def)
  then show ?thesis by (simp add: nearest32_def)
qed

lemma nearest32_subnormal:
  assumes "0 < y" "y < 2 ^ 23"
  shows "nearest32 (y * 2 powr (- 149)) = of_int (rne y) * 2 powr (- 149)"
proof -
  let ?x = "y * 2 powr (- 149)"
  have x: "0 < ?x" using assms(1) by simp
  have "(2 :: real) powr (- 126) = 2 ^ 23 * 2 powr (- 149)"
    by (simp add: powr_neg_numeral)
  then have "?x < 2 powr (- 126)" using assms(2) by simp
  then have "exponent32 ?x = - 126" by (rule exponent32_subnormal[OF x])
  then have "ulp32 ?x = 2 powr (- 149)" by (simp add: ulp32_def)
  then show ?thesis by (simp add: nearest32_def)
qed

lemma nearest32_idem:
  assumes "0 < x"
  shows "nearest32 x = 0 \<or> nearest32 (nearest32 x) = nearest32 x"
proof -
  define n where "n = rne (x / ulp32 x)"
  define e where "e = exponent32 x"
  have q: "ulp32 x = 2 powr of_int (e - 23)" by (simp add: ulp32_def e_def)
  have r: "nearest32 x = of_int n * 2 powr of_int (e - 23)"
    by (simp add: nearest32_def n_def q)
  have e: "- 126 \<le> e" by (simp add: e_def exponent32_def)
  have "x / ulp32 x \<le> of_int (2 ^ 24)" using scaled_lt[OF assms] by simp
  then have n24: "n \<le> 2 ^ 24" unfolding n_def by (rule rne_le_int)
  have "of_int 0 \<le> x / ulp32 x" using assms ulp32_pos[of x] by simp
  then have n0: "0 \<le> n" unfolding n_def by (rule rne_ge_int)
  consider "n = 0" | "0 < n" "n < 2 ^ 23" | "2 ^ 23 \<le> n" "n < 2 ^ 24" | "n = 2 ^ 24"
    using n0 n24 by linarith
  then show ?thesis
  proof cases
    case 1
    then show ?thesis by (simp add: r)
  next
    case 2
    have "\<not> - 126 \<le> \<lfloor>log 2 x\<rfloor>"
    proof
      assume "- 126 \<le> \<lfloor>log 2 x\<rfloor>"
      from scaled_ge[OF assms this] have "of_int (2 ^ 23) \<le> x / ulp32 x" by simp
      then have "2 ^ 23 \<le> n" unfolding n_def by (rule rne_ge_int)
      with 2 show False by simp
    qed
    then have "e = - 126" by (simp add: e_def exponent32_def)
    then have r': "nearest32 x = of_int n * 2 powr (- 149)" by (simp add: r)
    have "nearest32 (of_int n * 2 powr (- 149)) = of_int (rne (of_int n)) * 2 powr (- 149)"
      using 2 by (intro nearest32_subnormal) simp_all
    then show ?thesis by (simp add: r' rne_of_int)
  next
    case 3
    have "nearest32 (of_int n * 2 powr of_int (e - 23))
            = of_int (rne (of_int n)) * 2 powr of_int (e - 23)"
      using 3 e by (intro nearest32_scaled) simp_all
    then show ?thesis by (simp only: r rne_of_int simp_thms)
  next
    case 4
    have "(2 :: real) powr of_int (e - 22) = 2 powr 1 * 2 powr of_int (e - 23)"
      by (simp only: powr_add[symmetric]) (simp add: algebra_simps)
    then have "(2 :: real) powr of_int (e - 22) = 2 * 2 powr of_int (e - 23)" by simp
    then have r': "nearest32 x = 2 ^ 23 * 2 powr of_int (e - 22)" by (simp add: r 4)
    have "nearest32 (2 ^ 23 * 2 powr of_int (e - 22))
            = of_int (rne (2 ^ 23)) * 2 powr of_int (e - 22)"
      using e by (intro nearest32_scaled) simp_all
    moreover have "rne (2 ^ 23) = 2 ^ 23" using rne_of_int[of "2 ^ 23"] by simp
    ultimately show ?thesis by (simp add: r')
  qed
qed

lemma rnd32p_cases:
  assumes "0 < x"
  shows "rnd32p x = PInf \<or> (\<exists>r. rnd32p x = Fin r \<and> 0 \<le> r \<and> r = nearest32 x \<and> r \<le> maxf32)"
  using nearest32_nonneg[OF assms] by (simp add: rnd32p_def)

lemma rnd32p_mono:
  assumes "0 < x" "x \<le> y"
  shows "fle (rnd32p x) (rnd32p y)"
  using nearest32_mono[OF assms] by (simp add: rnd32p_def)

lemma fle_neg: "fle a b \<Longrightarrow> fle (neg_f b) (neg_f a)"
  by (cases a; cases b) simp_all

lemma rnd32_mono:
  assumes "x \<le> y"
  shows "fle (rnd32 x) (rnd32 y)"
proof -
  consider "0 < x" | "x = 0" "y = 0" | "x = 0" "0 < y" | "x < 0" "y = 0" | "x < 0" "0 < y"
    | "x < 0" "y < 0" using assms by linarith
  then show ?thesis
  proof cases
    case 1
    with assms rnd32p_mono[of x y] show ?thesis by (simp add: rnd32_def)
  next
    case 2
    then show ?thesis by (simp add: rnd32_def)
  next
    case 3
    with rnd32p_cases[of y] show ?thesis by (auto simp: rnd32_def)
  next
    case 4
    with rnd32p_cases[of "- x"] show ?thesis by (auto simp: rnd32_def)
  next
    case 5
    with rnd32p_cases[of "- x"] rnd32p_cases[of y] show ?thesis by (auto simp: rnd32_def)
  next
    case 6
    with assms have "0 < - y" "- y \<le> - x" by simp_all
    from fle_neg[OF rnd32p_mono[OF this]] 6 show ?thesis by (simp add: rnd32_def)
  qed
qed

lemma rnd32_not_NaN: "rnd32 x \<noteq> NaN"
proof -
  have "0 < z \<Longrightarrow> rnd32p z \<noteq> NaN \<and> neg_f (rnd32p z) \<noteq> NaN" for z
    by (simp add: rnd32p_def)
  from this[of x] this[of "- x"] show ?thesis by (simp add: rnd32_def)
qed

lemma rnd32_idem:
  assumes "rnd32 x = Fin r"
  shows "rnd32 r = Fin r"
proof -
  consider "x = 0" | "0 < x" | "x < 0" by linarith
  then show ?thesis
  proof cases
    case 1
    with assms show ?thesis by (simp add: rnd32_def)
  next
    case 2
    with assms have r: "r = nearest32 x" "\<not> maxf32 < nearest32 x"
      by (simp_all add: rnd32_def rnd32p_def split: if_splits)
    from nearest32_idem[OF 2] nearest32_nonneg[OF 2] r show ?thesis
      by (auto simp: rnd32_def rnd32p_def)
  next
    case 3
    then have p: "0 < - x" by simp
    from 3 assms have r: "r = - nearest32 (- x)" "\<not> maxf32 < nearest32 (- x)"
      by (simp_all add: rnd32_def rnd32p_def split: if_splits)
    from nearest32_idem[OF p] nearest32_nonneg[OF p] r show ?thesis
      by (auto simp: rnd32_def rnd32p_def)
  qed
qed

lemma rnd32_error:
  assumes "rnd32 x = Fin r"
  shows "\<bar>r - x\<bar> \<le> \<bar>x\<bar> / 2 ^ 24 + 1 / 2 ^ 150"
proof -
  consider "x = 0" | "0 < x" | "x < 0" by linarith
  then show ?thesis
  proof cases
    case 1
    with assms show ?thesis by (simp add: rnd32_def)
  next
    case 2
    with assms have "r = nearest32 x" by (simp add: rnd32_def rnd32p_def split: if_splits)
    with nearest32_error[OF 2] 2 show ?thesis by simp
  next
    case 3
    then have p: "0 < - x" by simp
    from 3 assms have "r = - nearest32 (- x)"
      by (simp add: rnd32_def rnd32p_def split: if_splits)
    with nearest32_error[OF p] 3 show ?thesis by simp
  qed
qed

lemma nearest32_1: "nearest32 1 = 1"
proof -
  have "nearest32 (2 ^ 23 * 2 powr of_int (- 23)) = of_int (rne (2 ^ 23)) * 2 powr of_int (- 23)"
    by (intro nearest32_scaled) simp_all
  moreover have "rne (2 ^ 23) = 2 ^ 23" using rne_of_int[of "2 ^ 23"] by simp
  ultimately show ?thesis by (simp add: powr_neg_numeral)
qed

lemma rnd32_1: "rnd32 1 = Fin 1" and rnd32_m1: "rnd32 (- 1) = Fin (- 1)"
  by (simp_all add: rnd32_def rnd32p_def nearest32_1 maxf32_def)

lemma neg_f_neg_f: "neg_f (neg_f v) = v"
  by (cases v) simp_all

lemma rnd32_minus: "rnd32 (- x) = neg_f (rnd32 x)"
  by (simp add: rnd32_def neg_f_neg_f)

lemma rounding_rnd32: "rounding rnd32"
  unfolding rounding_def
  using rnd32_not_NaN rnd32_mono rnd32_idem rnd32_error rnd32_1 rnd32_minus
  by (auto simp: rnd32_def)

subsection \<open>The recurrent cell in floating point\<close>

lemma roundingD:
  assumes "rounding rnd"
  shows "rnd x \<noteq> NaN" and "x \<le> y \<Longrightarrow> fle (rnd x) (rnd y)"
    and "rnd x = Fin r \<Longrightarrow> rnd r = Fin r"
    and "rnd x = Fin r \<Longrightarrow> \<bar>r - x\<bar> \<le> \<bar>x\<bar> / 2 ^ 24 + 1 / 2 ^ 150"
    and "rnd 0 = Fin 0" and "rnd 1 = Fin 1" and "rnd (- 1) = Fin (- 1)"
    and "rnd (- x) = neg_f (rnd x)"
proof -
  from assms have s: "\<forall>x. rnd (- x) = neg_f (rnd x)" and o: "rnd 1 = Fin 1"
    unfolding rounding_def by blast+
  from s o show "rnd (- 1) = Fin (- 1)" by simp
qed (insert assms, unfold rounding_def, blast)+

lemma rnd_ge:
  assumes "rounding rnd" "rnd a = Fin a" "a \<le> x"
  shows "rnd x = PInf \<or> (\<exists>r. rnd x = Fin r \<and> a \<le> r)"
  using roundingD(2)[OF assms(1,3)] roundingD(1)[OF assms(1), of x] assms(2)
  by (cases "rnd x") simp_all

lemma rnd_le:
  assumes "rounding rnd" "rnd b = Fin b" "x \<le> b"
  shows "rnd x = NInf \<or> (\<exists>r. rnd x = Fin r \<and> r \<le> b)"
  using roundingD(2)[OF assms(1,3)] roundingD(1)[OF assms(1), of x] assms(2)
  by (cases "rnd x") simp_all

lemma rnd_range:
  assumes "rounding rnd" "rnd a = Fin a" "rnd b = Fin b" "a \<le> x" "x \<le> b"
  shows "\<exists>r. rnd x = Fin r \<and> a \<le> r \<and> r \<le> b"
  using rnd_ge[OF assms(1,2,4)] rnd_le[OF assms(1,3,5)] by auto

lemma sigmoid_f_range:
  assumes "rounding rnd"
  shows "sigmoid_f rnd v = NaN \<or> (\<exists>r. sigmoid_f rnd v = Fin r \<and> 0 \<le> r \<and> r \<le> 1)"
proof (cases v)
  case (Fin x)
  note r = roundingD[OF assms]
  from rnd_ge[OF assms r(5), of "exp (- x)"]
  consider "rnd (exp (- x)) = PInf" | e where "rnd (exp (- x)) = Fin e" "0 \<le> e" by auto
  then show ?thesis
  proof cases
    case 1
    with Fin show ?thesis by (simp add: sigmoid_f_def)
  next
    case 2
    from rnd_ge[OF assms r(6), of "1 + e"] 2
    consider "rnd (1 + e) = PInf" | s where "rnd (1 + e) = Fin s" "1 \<le> s" by auto
    then show ?thesis
    proof cases
      case 1
      with 2 Fin show ?thesis by (simp add: sigmoid_f_def)
    next
      case 2
      note s = this
      then have "0 \<le> 1 / s" "1 / s \<le> 1" by simp_all
      from rnd_range[OF assms r(5,6) this] s \<open>rnd (exp (- x)) = Fin e\<close> Fin
      show ?thesis by (auto simp: sigmoid_f_def)
    qed
  qed
next
  case PInf
  then show ?thesis using roundingD(6)[OF assms] by (simp add: sigmoid_f_def)
next
  case NInf
  then show ?thesis by (simp add: sigmoid_f_def)
next
  case NaN
  then show ?thesis by (simp add: sigmoid_f_def)
qed

lemma tanh_f_range:
  assumes "rounding rnd"
  shows "tanh_f rnd v = NaN \<or> (\<exists>r. tanh_f rnd v = Fin r \<and> - 1 \<le> r \<and> r \<le> 1)"
proof (cases v)
  case (Fin x)
  note r = roundingD[OF assms]
  have "- 1 \<le> tanh x" "tanh x \<le> 1"
    using tanh_real_gt_neg1[of x] tanh_real_lt_1[of x] by simp_all
  from rnd_range[OF assms r(7,6) this] Fin show ?thesis by simp
qed simp_all

lemma gate_product_range:
  assumes "rounding rnd"
    and "g = NaN \<or> (\<exists>r. g = Fin r \<and> 0 \<le> r \<and> r \<le> 1)"
    and "t = NaN \<or> (\<exists>r. t = Fin r \<and> - 1 \<le> r \<and> r \<le> 1)"
  shows "mul_f rnd g t = NaN \<or> (\<exists>r. mul_f rnd g t = Fin r \<and> - 1 \<le> r \<and> r \<le> 1)"
proof -
  note r = roundingD[OF assms(1)]
  consider "g = NaN \<or> t = NaN" | a b where "g = Fin a" "0 \<le> a" "a \<le> 1" "t = Fin b" "- 1 \<le> b" "b \<le> 1"
    using assms(2,3) by auto
  then show ?thesis
  proof cases
    case 1
    then show ?thesis by (cases g; cases t) auto
  next
    case 2
    have "\<bar>a * b\<bar> = a * \<bar>b\<bar>" using 2 by (simp add: abs_mult)
    also have "\<dots> \<le> 1 * 1" using 2 by (intro mult_mono) auto
    finally have "- 1 \<le> a * b" "a * b \<le> 1" by (simp_all add: abs_le_iff)
    from rnd_range[OF assms(1) r(7,6) this] 2 show ?thesis by simp
  qed
qed

lemma ew_f_elems:
  assumes "ew_f f a b = Inr c" and "r \<in> set c" and "v \<in> set r"
  shows "\<exists>ra\<in>set a. \<exists>x\<in>set ra. \<exists>rb\<in>set b. \<exists>y\<in>set rb. v = f x y"
proof -
  from assms(1) have c: "c = map2 (map2 f) a b"
    by (simp add: ew_f_def split: if_splits)
  with assms(2) obtain ra rb where rab: "(ra, rb) \<in> set (zip a b)" and r: "r = map2 f ra rb"
    by auto
  with assms(3) obtain x y where xy: "(x, y) \<in> set (zip ra rb)" and v: "v = f x y"
    by auto
  from rab have "ra \<in> set a" "rb \<in> set b"
    by (auto dest: set_zip_leftD set_zip_rightD)
  moreover from xy have "x \<in> set ra" "y \<in> set rb"
    by (auto dest: set_zip_leftD set_zip_rightD)
  ultimately show ?thesis using v by blast
qed

lemma LSTMCell_forward_fp_hidden:
  assumes "rounding rnd"
    and "LSTMCell_forward_fp rnd self input (hx, cx) = Inr (hy, state')"
  shows "(\<forall>r\<in>set hy. \<forall>v\<in>set r. v = NaN \<or> (\<exists>x. v = Fin x \<and> - 1 \<le> x \<and> x \<le> 1))
         \<and> fst state' = hy"
proof -
  from assms(2) obtain outgate cy where
    hy: "ew_f (mul_f rnd) (map (map (sigmoid_f rnd)) outgate) (map (map (tanh_f rnd)) cy) = Inr hy"
    and st: "state' = (hy, cy)"
    by (auto simp: LSTMCell_forward_fp_def and_then_Inr_iff Let_def split: prod.splits)
  have "v = NaN \<or> (\<exists>x. v = Fin x \<and> - 1 \<le> x \<and> x \<le> 1)" if "r \<in> set hy" "v \<in> set r" for r v
  proof -
    from ew_f_elems[OF hy that] obtain x y where
      "x \<in> sigmoid_f rnd ` (\<Union>(set ` set outgate))" "y \<in> tanh_f rnd ` (\<Union>(set ` set cy))"
      "v = mul_f rnd x y"
      by auto
    then obtain a b where "v = mul_f rnd (sigmoid_f rnd a) (tanh_f rnd b)" by auto
    then show ?thesis
      using gate_product_range[OF assms(1) sigmoid_f_range[OF assms(1)] tanh_f_range[OF assms(1)]]
      by simp
  qed
  with st show ?thesis by simp
qed


lemma maxf32_ge: "2 ^ 24 * 2 ^ 103 \<le> maxf32"
  by (simp add: maxf32_def)

lemma rnd32_scaled:
  assumes "2 ^ 23 \<le> y" "y < 2 ^ 24" "- 149 \<le> k" "k \<le> 103"
  shows "rnd32 (y * 2 powr of_int k) = Fin (of_int (rne y) * 2 powr of_int k)"
proof -
  have y: "0 < y" using assms(1) by (rule less_le_trans[rotated]) simp
  then have x: "0 < y * 2 powr of_int k" by simp
  have n: "nearest32 (y * 2 powr of_int k) = of_int (rne y) * 2 powr of_int k"
    by (rule nearest32_scaled[OF assms(1-3)])
  have "y \<le> of_int (2 ^ 24)" using assms(2) by simp
  then have "rne y \<le> 2 ^ 24" by (rule rne_le_int)
  then have a: "(of_int (rne y) :: real) \<le> 2 ^ 24"
    by (metis of_int_le_iff of_int_numeral of_int_power)
  have "of_int 0 \<le> y" using y by simp
  then have "0 \<le> rne y" by (rule rne_ge_int)
  then have a0: "(0 :: real) \<le> of_int (rne y)" by simp
  have "(2 :: real) powr of_int k \<le> 2 powr of_int 103"
    using assms(4) by (intro powr_mono) simp_all
  also have "(2 :: real) powr of_int 103 = 2 ^ 103" by simp
  finally have b: "(2 :: real) powr of_int k \<le> 2 ^ 103" .
  have "real_of_int (rne y) * 2 powr of_int k \<le> 2 ^ 24 * 2 ^ 103"
    using a b a0 by (intro mult_mono) simp_all
  with maxf32_ge have "\<not> maxf32 < of_int (rne y) * 2 powr of_int k" by linarith
  with x n y show ?thesis by (simp add: rnd32_def rnd32p_def)
qed

lemma rnd32_0: "rnd32 0 = Fin 0"
  by (simp add: rnd32_def)

lemma rnd32_100: "rnd32 100 = Fin 100"
  using rnd32_scaled[of 13107200 "- 17"] by (simp add: rne_def powr_neg_numeral)

lemma rnd32_101: "rnd32 101 = Fin 101"
  using rnd32_scaled[of 13238272 "- 17"] by (simp add: rne_def powr_neg_numeral)

lemma rnd32_below_1: "rnd32 (1 - 1 / 2 ^ 26) = Fin 1"
  using rnd32_scaled[of "16777216 - 1 / 4" "- 24"] by (simp add: rne_def powr_neg_numeral)

lemma rnd32_above_1: "rnd32 (1 + 1 / 2 ^ 25) = Fin 1"
  using rnd32_scaled[of "8388608 + 1 / 4" "- 23"] by (simp add: rne_def powr_neg_numeral)

lemma rnd32_tiny: "rnd32 (1 / 2 ^ 25) = Fin (1 / 2 ^ 25)"
  using rnd32_scaled[of 8388608 "- 48"] by (simp add: rne_def powr_neg_numeral)

lemma rnd32_squeeze:
  assumes "rnd32 a = Fin c" "rnd32 b = Fin c" "a \<le> x" "x \<le> b"
  shows "rnd32 x = Fin c"
  using rnd32_mono[OF assms(3)] rnd32_mono[OF assms(4)] assms(1,2)
  by (cases "rnd32 x") simp_all

lemma exp_minus_nat_le: "exp (- real n) \<le> 1 / 2 ^ n"
proof -
  have e: "exp (real n) = exp 1 ^ n" using exp_of_nat_mult[of n 1] by simp
  have "(2 :: real) \<le> exp 1" using exp_ge_add_one_self[of 1] by simp
  then have "(2 :: real) ^ n \<le> exp 1 ^ n" by (intro power_mono) simp_all
  also have "\<dots> = exp (real n)" by (simp only: e)
  finally have "1 / exp (real n) \<le> 1 / 2 ^ n" by (intro divide_left_mono) simp_all
  then show ?thesis by (simp add: exp_minus inverse_eq_divide)
qed

lemma tanh_nat_ge:
  assumes "14 \<le> n"
  shows "1 - 1 / 2 ^ 26 \<le> tanh (real n)"
proof -
  define t where "t = exp (- 2 * real n)"
  have t0: "0 < t" by (simp add: t_def)
  have "t = exp (- real (2 * n))" by (simp add: t_def)
  also have "\<dots> \<le> 1 / 2 ^ (2 * n)" by (rule exp_minus_nat_le)
  also have "\<dots> \<le> 1 / 2 ^ 28"
    using assms by (intro divide_left_mono power_increasing) simp_all
  finally have t: "t \<le> 1 / 2 ^ 28" .
  have "(1 - 2 * t) * (1 + t) \<le> 1 - t" using t0 by (simp add: algebra_simps)
  then have "1 - 2 * t \<le> (1 - t) / (1 + t)" using t0 by (simp add: pos_le_divide_eq)
  moreover have "tanh (real n) = (1 - t) / (1 + t)" by (simp add: tanh_real_altdef t_def)
  moreover have "1 - 1 / 2 ^ 26 \<le> 1 - 2 * t" using t by simp
  ultimately show ?thesis by linarith
qed

lemma rnd32_tanh_nat:
  assumes "14 \<le> n"
  shows "rnd32 (tanh (real n)) = Fin 1"
  using rnd32_squeeze[OF rnd32_below_1 rnd32_1 tanh_nat_ge[OF assms]] tanh_real_lt_1[of "real n"]
  by simp

lemma sigmoid_f_nat:
  assumes "25 \<le> n"
  shows "sigmoid_f rnd32 (Fin (real n)) = Fin 1"
proof -
  have "exp (- real n) \<le> 1 / 2 ^ n" by (rule exp_minus_nat_le)
  also have "\<dots> \<le> 1 / 2 ^ 25" using assms by (intro divide_left_mono power_increasing) simp_all
  finally have "exp (- real n) \<le> 1 / 2 ^ 25" .
  from rnd_range[OF rounding_rnd32 rnd32_0 rnd32_tiny _ this]
  obtain e where e: "rnd32 (exp (- real n)) = Fin e" "0 \<le> e" "e \<le> 1 / 2 ^ 25" by auto
  have "rnd32 (1 + e) = Fin 1"
    using e by (intro rnd32_squeeze[OF rnd32_1 rnd32_above_1]) simp_all
  with e show ?thesis by (simp add: sigmoid_f_def rnd32_1)
qed

lemma cell_sat_step:
  "LSTMCell_forward_fp rnd32 cell_sat [[Fin 1]] ([[Fin 0]], [[Fin 100]])
     = Inr ([[Fin 1]], ([[Fin 1]], [[Fin 101]]))"
proof -
  have s: "sigmoid_f rnd32 (Fin 100) = Fin 1" using sigmoid_f_nat[of 100] by simp
  have t: "rnd32 (tanh 100) = Fin 1" "rnd32 (tanh 101) = Fin 1"
    using rnd32_tanh_nat[of 100] rnd32_tanh_nat[of 101] by simp_all
  show ?thesis
    by (simp add: LSTMCell_forward_fp_def cell_sat_def and_then_def mm_t_f_def add_bias_f_def
        ew_f_def same_shape_def chunk4_f_def dot_f_def Let_def rnd32_0 rnd32_1 rnd32_100
        rnd32_101 s t)
qed

lemma cell_sat_nan:
  "LSTMCell_forward_fp rnd32 cell_sat [[NaN]] ([[Fin 0]], [[Fin 0]])
     = Inr ([[NaN]], ([[NaN]], [[NaN]]))"
  by (simp add: LSTMCell_forward_fp_def cell_sat_def and_then_def mm_t_f_def add_bias_f_def
      ew_f_def same_shape_def chunk4_f_def dot_f_def Let_def rnd32_0 sigmoid_f_def)

text \<open>
  C5. In floating point, whenever \<^verbatim>\<open>LSTMCell.forward\<close> returns, every element of the
  new hidden tensor is NaN or lies in the closed interval from \<open>-1\<close> to \<open>1\<close>, whatever
  the rounding function: the logistic output gate is rounded into \<open>[0, 1]\<close>, the
  hyperbolic tangent of the new memory into \<open>[-1, 1]\<close>, and so is their product. The
  returned state carries the same hidden tensor.
\<close>

theorem LSTMCell_hidden_in_closed_unit_interval:
  assumes "rounding rnd" and "LSTMCell_forward_fp rnd self input (hx, cx) = Inr (hy, state')"
  shows "(\<forall>r\<in>set hy. \<forall>v\<in>set r. v = NaN \<or> (fle (Fin (- 1)) v \<and> fle v (Fin 1)))
         \<and> fst state' = hy"
  using LSTMCell_forward_fp_hidden[OF assms] by fastforce

theorem LSTMCell_hidden_in_closed_unit_interval_witness:
  "rounding rnd32
   \<and> LSTMCell_forward_fp rnd32 cell_sat [[Fin 1]] ([[Fin 0]], [[Fin 100]])
       = Inr ([[Fin 1]], ([[Fin 1]], [[Fin 101]]))
   \<and> fle (Fin (- 1)) (Fin 1) \<and> fle (Fin 1) (Fin 1)"
  using LSTMCell_hidden_in_closed_unit_interval[OF rounding_rnd32 cell_sat_step]
    rounding_rnd32 cell_sat_step
  by simp

text \<open>
  C5, as stated with the open interval, fails in binary32. With the weight \<open>100\<close> on the
  input \<open>1\<close> every gate is \<open>100\<close>; the logistic function and the hyperbolic tangent
  round to \<open>1\<close> there, the new memory is \<open>101\<close>, and the hidden state is exactly \<open>1\<close>.
  And a NaN input gives a NaN hidden state, which lies in no interval.
\<close>

theorem LSTMCell_hidden_saturates_counterexample:
  "LSTMCell_forward_fp rnd32 cell_sat [[Fin 1]] ([[Fin 0]], [[Fin 100]])
     = Inr ([[Fin 1]], ([[Fin 1]], [[Fin 101]]))
   \<and> \<not> flt (Fin 1) (Fin 1)
   \<and> LSTMCell_forward_fp rnd32 cell_sat [[NaN]] ([[Fin 0]], [[Fin 0]])
       = Inr ([[NaN]], ([[NaN]], [[NaN]]))
   \<and> \<not> flt NaN (Fin 1)"
  using cell_sat_step cell_sat_nan by simp

subsection \<open>The latent loss in floating point\<close>





















lemma KLDivLoss_fp_zero:
  "KLDivLoss_forward_fp rnd32 [[Fin 0]] [[Fin 0]] = Inr (Fin 0)"
  by (simp add: KLDivLoss_forward_fp_def and_then_def ew_f_def same_shape_def sub_f_def mean_f_def
      rnd32_0 rnd32_1)




subsection \<open>The covariance in floating point\<close>

lemma rnd_upper:
  assumes "rounding rnd" "rnd x = Fin r" "\<bar>x\<bar> \<le> B * s" "1 / 10 ^ 12 \<le> s" "0 \<le> B" "B \<le> 2"
  shows "\<bar>r\<bar> \<le> (B + 3 / 10 ^ 7) * s"
proof -
  from roundingD(4)[OF assms(1,2)] have e: "\<bar>r - x\<bar> \<le> \<bar>x\<bar> / 2 ^ 24 + 1 / 2 ^ 150" .
  have s: "0 \<le> s" using assms(4) by (rule order_trans[rotated]) simp
  have b: "B * s \<le> 2 * s" using assms(6) s by (rule mult_right_mono)
  have "(1 :: real) / 2 ^ 150 \<le> 1 / 10 ^ 12 / 10 ^ 7" by simp
  also have "\<dots> \<le> s / 10 ^ 7" using assms(4) by (intro divide_right_mono) simp_all
  finally have t: "1 / 2 ^ 150 \<le> s / 10 ^ 7" .
  have "\<bar>x\<bar> \<le> 2 * s" using assms(3) b by linarith
  then have "\<bar>x\<bar> / 2 ^ 24 \<le> 2 * s / 2 ^ 24" by (intro divide_right_mono) simp_all
  with e t have e': "\<bar>r - x\<bar> \<le> 2 * s / 2 ^ 24 + s / 10 ^ 7" by linarith
  have "2 * s / 2 ^ 24 + s / 10 ^ 7 \<le> 3 / 10 ^ 7 * s" using s by simp
  with e' have "\<bar>r - x\<bar> \<le> 3 / 10 ^ 7 * s" by linarith
  moreover have "\<bar>r\<bar> \<le> \<bar>x\<bar> + \<bar>r - x\<bar>" by simp
  ultimately have "\<bar>r\<bar> \<le> B * s + 3 / 10 ^ 7 * s" using assms(3) by linarith
  then show ?thesis by (simp add: algebra_simps)
qed

lemma rnd_lower:
  assumes "rounding rnd" "rnd x = Fin r" "B * s \<le> x" "1 / 10 ^ 12 \<le> s" "0 \<le> B" "B \<le> 2"
  shows "(B - 3 / 10 ^ 7) * s \<le> r"
proof -
  from roundingD(4)[OF assms(1,2)] have e: "\<bar>r - x\<bar> \<le> \<bar>x\<bar> / 2 ^ 24 + 1 / 2 ^ 150" .
  have s: "0 \<le> s" using assms(4) by (rule order_trans[rotated]) simp
  have x: "0 \<le> x" using assms(3,5) s by (meson mult_nonneg_nonneg order_trans)
  have b: "B * s \<le> 2 * s" using assms(6) s by (rule mult_right_mono)
  have "(1 :: real) / 2 ^ 150 \<le> 1 / 10 ^ 12 / 10 ^ 7" by simp
  also have "\<dots> \<le> s / 10 ^ 7" using assms(4) by (intro divide_right_mono) simp_all
  finally have t: "1 / 2 ^ 150 \<le> s / 10 ^ 7" .
  have "x - x / 2 ^ 24 - 1 / 2 ^ 150 \<le> r" using e x by (simp add: abs_le_iff)
  moreover have "B * s - B * s / 2 ^ 24 \<le> x - x / 2 ^ 24" using assms(3) by simp
  moreover have "B * s / 2 ^ 24 \<le> 2 * s / 2 ^ 24" using b by (intro divide_right_mono) simp_all
  ultimately have "B * s - 2 * s / 2 ^ 24 - s / 10 ^ 7 \<le> r" using t by linarith
  moreover have "(B - 3 / 10 ^ 7) * s \<le> B * s - 2 * s / 2 ^ 24 - s / 10 ^ 7"
    using s by (simp add: algebra_simps)
  ultimately show ?thesis by linarith
qed


lemma rnd_fixed_max:
  assumes "rounding rnd" "rnd d = Fin d"
  shows "rnd (max 1 d) = Fin (max 1 d)" and "rnd (- max 1 d) = Fin (- max 1 d)"
proof -
  show m: "rnd (max 1 d) = Fin (max 1 d)"
    using roundingD(6)[OF assms(1)] assms(2) by (simp add: max_def)
  show "rnd (- max 1 d) = Fin (- max 1 d)"
    using roundingD(8)[OF assms(1), of "max 1 d"] m by simp
qed

lemma rnd_bounded:
  assumes "rounding rnd" "rnd d = Fin d" "\<bar>x\<bar> \<le> max 1 d"
  shows "\<exists>r. rnd x = Fin r"
proof -
  from assms(3) have "- max 1 d \<le> x" "x \<le> max 1 d" by linarith+
  from rnd_range[OF assms(1) rnd_fixed_max(2,1)[OF assms(1,2)] this] show ?thesis by blast
qed

lemma clamp_constants:
  assumes "rounding rnd"
  obtains L R where "rnd (1 / 100000) = Fin L" "9 / 1000000 \<le> L" "L \<le> 11 / 1000000"
    and "rnd (1 - 1 / 100000) = Fin R" "rnd (- 1 + 1 / 100000) = Fin (- R)"
    and "0 < R" "R \<le> 1 - 9 / 1000000"
proof -
  note r = roundingD[OF assms]
  from rnd_range[OF assms r(5,6), of "1 / 100000"] obtain L where
    L: "rnd (1 / 100000) = Fin L" "0 \<le> L" "L \<le> 1" by auto
  have "\<bar>1 / 100000 :: real\<bar> / 2 ^ 24 + 1 / 2 ^ 150 \<le> 1 / 1000000" by simp
  with r(4)[OF L(1)] have "\<bar>L - 1 / 100000\<bar> \<le> 1 / 1000000" by linarith
  then have "9 / 1000000 \<le> L" "L \<le> 11 / 1000000" by linarith+
  from rnd_range[OF assms r(5,6), of "1 - 1 / 100000"] obtain R where
    R: "rnd (1 - 1 / 100000) = Fin R" by auto
  have "\<bar>1 - 1 / 100000 :: real\<bar> / 2 ^ 24 + 1 / 2 ^ 150 \<le> 1 / 1000000" by simp
  with r(4)[OF R(1)] have "\<bar>R - (1 - 1 / 100000)\<bar> \<le> 1 / 1000000" by linarith
  then have "0 < R" "R \<le> 1 - 9 / 1000000" by linarith+
  have "rnd (- 1 + 1 / 100000) = rnd (- (1 - 1 / 100000))" by simp
  also have "\<dots> = Fin (- R)" unfolding r(8) R by simp
  finally have "rnd (- 1 + 1 / 100000) = Fin (- R)" .
  with L(1) \<open>9 / 1000000 \<le> L\<close> \<open>L \<le> 11 / 1000000\<close> R \<open>0 < R\<close> \<open>R \<le> 1 - 9 / 1000000\<close> that
  show thesis by blast
qed

lemma max_f_lo:
  "max_f v (Fin L) = NaN \<or> max_f v (Fin L) = PInf \<or> (\<exists>p. max_f v (Fin L) = Fin p \<and> L \<le> p)"
  by (cases v) (simp_all add: max_f_def)

lemma clamp_f_range:
  assumes "Rl \<le> Rh"
  shows "min_f (max_f v (Fin Rl)) (Fin Rh) = NaN
         \<or> (\<exists>c. min_f (max_f v (Fin Rl)) (Fin Rh) = Fin c \<and> Rl \<le> c \<and> c \<le> Rh)"
  using assms by (cases v) (auto simp: max_f_def min_f_def)

lemma covariance_chain:
  fixes p q c :: real
  assumes rn: "rounding rnd"
    and p: "9 / 1000000 \<le> p" and q: "9 / 1000000 \<le> q" and c: "\<bar>c\<bar> \<le> 1 - 9 / 1000000"
    and a: "rnd (p * p) = Fin a" and t: "rnd (c * p) = Fin t"
    and b: "rnd (t * q) = Fin b" and d: "rnd (q * q) = Fin d"
  shows "0 < a" and "0 < d" and "b * b < a * d"
    and "cholesky_fp rnd ((Fin a, Fin b), (Fin b, Fin d)) \<noteq> None"
proof -
  note r = roundingD[OF rn]
  have p0: "0 < p" and q0: "0 < q" using p q by simp_all
  have pp0: "0 < p * p" and qq0: "0 < q * q" and pq0: "0 < p * q" using p0 q0 by simp_all
  have "9 / 1000000 * (9 / 1000000) \<le> p * p" using p by (intro mult_mono) simp_all
  then have spp: "1 / 10 ^ 12 \<le> p * p" by simp
  have "9 / 1000000 * (9 / 1000000) \<le> q * q" using q by (intro mult_mono) simp_all
  then have sqq: "1 / 10 ^ 12 \<le> q * q" by simp
  have "9 / 1000000 * (9 / 1000000) \<le> p * q" using p q by (intro mult_mono) simp_all
  then have spq: "1 / 10 ^ 12 \<le> p * q" by simp
  have sp: "1 / 10 ^ 12 \<le> p" and sq: "1 / 10 ^ 12 \<le> q" using p q by simp_all
  have a_lo: "9999997 / 10000000 * (p * p) \<le> a"
    using rnd_lower[OF rn a, of 1 "p * p"] spp by simp
  have d_lo: "9999997 / 10000000 * (q * q) \<le> d"
    using rnd_lower[OF rn d, of 1 "q * q"] sqq by simp
  have d_hi: "d \<le> 10000003 / 10000000 * (q * q)"
    using rnd_upper[OF rn d, of 1 "q * q"] sqq qq0 by (simp add: abs_le_iff)
  have "0 < 9999997 / 10000000 * (p * p)" using pp0 by simp
  with a_lo show a0: "0 < a" by linarith
  have "0 < 9999997 / 10000000 * (q * q)" using qq0 by simp
  with d_lo show d0: "0 < d" by linarith
  have "\<bar>c * p\<bar> \<le> (1 - 9 / 1000000) * p"
    using c p0 by (simp add: abs_mult mult_right_mono)
  from rnd_upper[OF rn t this sp] have t_hi: "\<bar>t\<bar> \<le> 9999913 / 10000000 * p" by simp
  have "\<bar>t * q\<bar> \<le> 9999913 / 10000000 * p * q"
    using t_hi q0 by (simp add: abs_mult mult_right_mono)
  then have "\<bar>t * q\<bar> \<le> 9999913 / 10000000 * (p * q)" by (simp add: mult.assoc)
  from rnd_upper[OF rn b this spq] have b_hi: "\<bar>b\<bar> \<le> 9999916 / 10000000 * (p * q)" by simp
  have "b * b = \<bar>b\<bar> * \<bar>b\<bar>" by simp
  also have "\<dots> \<le> 9999916 / 10000000 * (p * q) * (9999916 / 10000000 * (p * q))"
    using b_hi by (intro mult_mono) (simp_all add: pq0 less_imp_le)
  also have "\<dots> = 9999916 / 10000000 * (9999916 / 10000000) * ((p * p) * (q * q))"
    by (simp add: algebra_simps)
  also have "\<dots> < 9999997 / 10000000 * (9999997 / 10000000) * ((p * p) * (q * q))"
    using pp0 qq0 by (intro mult_strict_right_mono) simp_all
  also have "\<dots> = 9999997 / 10000000 * (p * p) * (9999997 / 10000000 * (q * q))"
    by (simp add: algebra_simps)
  also have "\<dots> \<le> a * d"
    using a_lo d_lo pp0 qq0 by (intro mult_mono) (simp_all add: less_imp_le)
  finally show "b * b < a * d" .
  have ra: "rnd a = Fin a" and rd: "rnd d = Fin d" using r(3)[OF a] r(3)[OF d] .
  have "sqrt a \<le> max 1 a"
  proof (cases "a \<le> 1")
    case True
    then have "sqrt a \<le> 1" by simp
    then show ?thesis by simp
  next
    case False
    then have "1 \<le> a" by simp
    then have "sqrt a \<le> a" by (metis real_sqrt_le_iff real_sqrt_mult_self less_eq_real_def
      a0 mult_left_mono mult.right_neutral real_sqrt_ge_one real_sqrt_ge_zero abs_of_pos)
    then show ?thesis by simp
  qed
  then have "\<bar>sqrt a\<bar> \<le> max 1 a" using a0 by simp
  from rnd_bounded[OF rn ra this] obtain l where l: "rnd (sqrt a) = Fin l" by blast
  have "(9999997 / 10000000 * p) * (9999997 / 10000000 * p) \<le> 9999997 / 10000000 * (p * p)"
    using pp0 by (simp add: algebra_simps)
  also have "\<dots> \<le> a" by (rule a_lo)
  finally have "(9999997 / 10000000 * p)\<^sup>2 \<le> a" by (simp add: power2_eq_square)
  then have "9999997 / 10000000 * p \<le> sqrt a" using p0 by (intro real_le_rsqrt) simp
  from rnd_lower[OF rn l this sp] have l_lo: "9999994 / 10000000 * p \<le> l" by simp
  moreover have "0 < 9999994 / 10000000 * p" using p0 by simp
  ultimately have l0: "0 < l" by linarith
  have "\<bar>b\<bar> \<le> 9999916 / 10000000 * (p * q)" by (rule b_hi)
  also have "\<dots> \<le> 9999923 / 10000000 * q * (9999994 / 10000000 * p)"
    using pq0 by (simp add: algebra_simps)
  also have "\<dots> \<le> 9999923 / 10000000 * q * l"
    using l_lo q0 by (intro mult_left_mono) simp_all
  finally have "\<bar>b\<bar> / l \<le> 9999923 / 10000000 * q" using l0 by (simp add: pos_divide_le_eq)
  then have bl: "\<bar>b / l\<bar> \<le> 9999923 / 10000000 * q" using l0 by simp
  have "\<bar>b / l\<bar> \<le> max 1 d"
  proof (cases "q \<le> 1")
    case True
    with bl q0 have "\<bar>b / l\<bar> \<le> 1" by linarith
    then show ?thesis by simp
  next
    case False
    then have "1 < q" by simp
    then have "q * 1 \<le> q * q" by (intro mult_left_mono) simp_all
    with bl q0 d_lo have "\<bar>b / l\<bar> \<le> d" by linarith
    then show ?thesis by simp
  qed
  from rnd_bounded[OF rn rd this] obtain m where m: "rnd (b / l) = Fin m" by blast
  from rnd_upper[OF rn m bl sq] have m_hi: "\<bar>m\<bar> \<le> 9999926 / 10000000 * q" by simp
  have "m * m = \<bar>m\<bar> * \<bar>m\<bar>" by simp
  also have "\<dots> \<le> 9999926 / 10000000 * q * (9999926 / 10000000 * q)"
    using m_hi q0 by (intro mult_mono) simp_all
  also have "\<dots> \<le> 9999926 / 10000000 * (q * q)" using qq0 by (simp add: algebra_simps)
  finally have mm: "m * m \<le> 9999926 / 10000000 * (q * q)" .
  have "\<bar>m * m\<bar> \<le> max 1 d"
  proof (cases "q \<le> 1")
    case True
    then have "q * q \<le> 1 * 1" using q0 by (intro mult_mono) simp_all
    with mm have "m * m \<le> 1" by linarith
    then show ?thesis by simp
  next
    case False
    from mm d_lo qq0 have "m * m \<le> d" by linarith
    then show ?thesis by simp
  qed
  from rnd_bounded[OF rn rd this] obtain n where n: "rnd (m * m) = Fin n" by blast
  have "\<bar>m * m\<bar> \<le> 9999926 / 10000000 * (q * q)" using mm by simp
  from rnd_upper[OF rn n this sqq] have n_hi: "\<bar>n\<bar> \<le> 9999929 / 10000000 * (q * q)" by simp
  from rnd_ge[OF rn r(5), of "m * m"] n have n0: "0 \<le> n" by simp
  have x_lo: "68 / 10000000 * (q * q) \<le> d - n" using d_lo n_hi by linarith
  have "0 \<le> 68 / 10000000 * (q * q)" using qq0 by simp
  with x_lo n0 have "\<bar>d - n\<bar> \<le> d" by linarith
  then have "\<bar>d - n\<bar> \<le> max 1 d" by simp
  from rnd_bounded[OF rn rd this] obtain x where x: "rnd (d - n) = Fin x" by blast
  from rnd_lower[OF rn x x_lo sqq] have "65 / 10000000 * (q * q) \<le> x" by simp
  moreover have "0 < 65 / 10000000 * (q * q)" using qq0 by simp
  ultimately have x0: "0 < x" by linarith
  show "cholesky_fp rnd ((Fin a, Fin b), (Fin b, Fin d)) \<noteq> None"
    using a0 l l0 m n x x0
    by (simp add: cholesky_fp_def sub_f_def Let_def less_imp_le)
qed


lemma clamped_covariance_fp:
  fixes sx sy rho :: fval
  assumes rn: "rounding rnd"
  defines "sx' \<equiv> max_f sx (rnd (1 / 100000))" and "sy' \<equiv> max_f sy (rnd (1 / 100000))"
    and "rho' \<equiv> min_f (max_f rho (rnd (- 1 + 1 / 100000))) (rnd (1 - 1 / 100000))"
  defines "m \<equiv> ((mul_f rnd sx' sx', mul_f rnd (mul_f rnd rho' sx') sy'),
                 (mul_f rnd (mul_f rnd rho' sx') sy', mul_f rnd sy' sy'))"
  assumes fin: "all_finite m"
  shows "\<exists>a b d. m = ((Fin a, Fin b), (Fin b, Fin d)) \<and> 0 < a \<and> 0 < d \<and> 0 < a * d - b * b
           \<and> positive_definite_fp rnd accepts m"
proof -
  from clamp_constants[OF rn] obtain L R where
    L: "rnd (1 / 100000) = Fin L" "9 / 1000000 \<le> L"
    and R: "rnd (1 - 1 / 100000) = Fin R" "rnd (- 1 + 1 / 100000) = Fin (- R)"
      "0 < R" "R \<le> 1 - 9 / 1000000"
    by blast
  from fin have fa: "is_finite (mul_f rnd sx' sx')" and fd: "is_finite (mul_f rnd sy' sy')"
    and fb: "is_finite (mul_f rnd (mul_f rnd rho' sx') sy')"
    by (simp_all add: all_finite_def m_def)
  from max_f_lo[of sx L] fa obtain p where p: "sx' = Fin p" "L \<le> p"
    unfolding sx'_def L by auto
  from max_f_lo[of sy L] fd obtain q where q: "sy' = Fin q" "L \<le> q"
    unfolding sy'_def L by auto
  have "- R \<le> R" using R(3) by simp
  from clamp_f_range[OF this, of rho] fb p q obtain c where c: "rho' = Fin c" "- R \<le> c" "c \<le> R"
    unfolding rho'_def R by auto
  from fa p obtain a where a: "rnd (p * p) = Fin a" by (cases "rnd (p * p)") simp_all
  from fd q obtain d where d: "rnd (q * q) = Fin d" by (cases "rnd (q * q)") simp_all
  have q0: "0 < q" using q(2) L(2) by linarith
  from fb p q c q0 obtain t where t: "rnd (c * p) = Fin t"
    by (cases "rnd (c * p)") (simp_all split: if_splits)
  from fb p q c t obtain b where b: "rnd (t * q) = Fin b"
    by (cases "rnd (t * q)") simp_all
  have m: "m = ((Fin a, Fin b), (Fin b, Fin d))"
    by (simp add: m_def p q c a d t b)
  have pc: "9 / 1000000 \<le> p" "9 / 1000000 \<le> q" "\<bar>c\<bar> \<le> 1 - 9 / 1000000"
    using p(2) q(2) L(2) c(2,3) R(4) by linarith+
  note ch = covariance_chain[OF rn pc a t b d]
  have "symmetric_fp m" by (simp add: m symmetric_fp_def)
  with ch(4) have "positive_definite_fp rnd accepts m"
    by (simp add: positive_definite_fp_def m all_finite_def)
  with m ch(1-3) show ?thesis by simp
qed

lemma stack4_fp_Inr:
  assumes "stack4_fp a b c d = Inr t"
  shows "shape3 b = shape3 a" and "shape3 c = shape3 a" and "shape3 d = shape3 a"
    and "shape3 t = shape3 a"
    and "flat t = map2 Pair (map2 Pair (flat a) (flat b)) (map2 Pair (flat c) (flat d))"
proof -
  from assms obtain ab cd where
    ab: "ew3 Pair a b = Inr ab" and cd: "ew3 Pair c d = Inr cd" and t: "ew3 Pair ab cd = Inr t"
    by (auto simp: stack4_fp_def and_then_Inr_iff)
  note 1 = ew3_Inr[OF ab] and 2 = ew3_Inr[OF cd] and 3 = ew3_Inr[OF t]
  show "shape3 b = shape3 a" using 1(1) by simp
  show "shape3 c = shape3 a" using 1(2) 2(2) 3(1) by simp
  then show "shape3 d = shape3 a" using 2(1) by simp
  show "shape3 t = shape3 a" using 3(2) 1(2) by simp
  show "flat t = map2 Pair (map2 Pair (flat a) (flat b)) (map2 Pair (flat c) (flat d))"
    using 1(3) 2(3) 3(3) by simp
qed

lemma covariance_fp_Inr:
  assumes "covariance_fp rnd self h = Inr cov" and i: "i < length (flat cov)"
  shows "flat cov ! i =
           (let a = max_f (flat (h (sigma_x self)) ! i) (rnd (1 / 100000));
                b = max_f (flat (h (sigma_y self)) ! i) (rnd (1 / 100000));
                r = min_f (max_f (flat (h (rho_xy self)) ! i) (rnd (- 1 + 1 / 100000)))
                      (rnd (1 - 1 / 100000))
            in ((mul_f rnd a a, mul_f rnd (mul_f rnd r a) b),
                (mul_f rnd (mul_f rnd r a) b, mul_f rnd b b)))"
proof -
  let ?sx = "clamp_min_fp (h (sigma_x self)) (rnd (1 / 100000))"
  let ?sy = "clamp_min_fp (h (sigma_y self)) (rnd (1 / 100000))"
  let ?rho = "clamp_fp (h (rho_xy self)) (rnd (- 1 + 1 / 100000)) (rnd (1 - 1 / 100000))"
  from assms(1) obtain xx rx xy rx' yx yy where
    xx: "ew3 (mul_f rnd) ?sx ?sx = Inr xx" and rx: "ew3 (mul_f rnd) ?rho ?sx = Inr rx"
    and xy: "ew3 (mul_f rnd) rx ?sy = Inr xy" and rx': "ew3 (mul_f rnd) ?rho ?sx = Inr rx'"
    and yx: "ew3 (mul_f rnd) rx' ?sy = Inr yx" and yy: "ew3 (mul_f rnd) ?sy ?sy = Inr yy"
    and st: "stack4_fp xx xy yx yy = Inr cov"
    by (auto simp: covariance_fp_def and_then_Inr_iff Let_def)
  have ssx: "shape3 ?sx = shape3 (h (sigma_x self))" "shape3 ?sy = shape3 (h (sigma_y self))"
    "shape3 ?rho = shape3 (h (rho_xy self))"
    by (simp_all add: clamp_min_fp_def clamp_fp_def shape3_map3)
  note e1 = ew3_Inr[OF xx] and e2 = ew3_Inr[OF rx] and e3 = ew3_Inr[OF xy]
    and e4 = ew3_Inr[OF rx'] and e5 = ew3_Inr[OF yx] and e6 = ew3_Inr[OF yy]
    and s4 = stack4_fp_Inr[OF st]
  have rho_sh: "shape3 (h (rho_xy self)) = shape3 (h (sigma_x self))"
    using e2(1) ssx by simp
  have sy_sh: "shape3 (h (sigma_y self)) = shape3 (h (sigma_x self))"
    using e3(1) e2(2) ssx rho_sh by simp
  have len: "length (flat (h (sigma_y self))) = length (flat (h (sigma_x self)))"
    "length (flat (h (rho_xy self))) = length (flat (h (sigma_x self)))"
    using length_flat[OF sy_sh] length_flat[OF rho_sh] by simp_all
  have fl: "flat ?sx = map (\<lambda>v. max_f v (rnd (1 / 100000))) (flat (h (sigma_x self)))"
    "flat ?sy = map (\<lambda>v. max_f v (rnd (1 / 100000))) (flat (h (sigma_y self)))"
    "flat ?rho = map (\<lambda>v. min_f (max_f v (rnd (- 1 + 1 / 100000))) (rnd (1 - 1 / 100000)))
                   (flat (h (rho_xy self)))"
    by (simp_all add: clamp_min_fp_def clamp_fp_def flat_map3)
  have lc: "length (flat cov) = length (flat (h (sigma_x self)))"
    unfolding s4(5) e1(3) e3(3) e5(3) e6(3) e2(3) e4(3) fl using len by simp
  with i len have ii: "i < length (flat (h (sigma_x self)))" "i < length (flat (h (sigma_y self)))"
    "i < length (flat (h (rho_xy self)))" by simp_all
  show ?thesis
    unfolding s4(5) e1(3) e3(3) e5(3) e6(3) e2(3) e4(3) fl using ii by (simp add: Let_def)
qed

lemma MultivariateNormal_init_fp_error:
  "MultivariateNormal_init_fp rnd accepts mean cov = Inl NotPositiveDefinite \<Longrightarrow>
     \<exists>m\<in>set (flat cov). \<not> positive_definite_fp rnd accepts m"
  by (auto simp: MultivariateNormal_init_fp_def flat_def list_all_iff split: if_splits)

lemma covariance_fp_entry:
  assumes rn: "rounding rnd" and c: "covariance_fp rnd self h = Inr cov"
    and m: "m \<in> set (flat cov)" and fin: "all_finite m"
  shows "\<exists>a b d. m = ((Fin a, Fin b), (Fin b, Fin d)) \<and> 0 < a \<and> 0 < d \<and> 0 < a * d - b * b
           \<and> positive_definite_fp rnd accepts m"
proof -
  from m obtain i where i: "i < length (flat cov)" and mi: "m = flat cov ! i"
    by (auto simp: in_set_conv_nth)
  from fin show ?thesis
    unfolding mi covariance_fp_Inr[OF c i] Let_def
    by (rule clamped_covariance_fp[OF rn])
qed

lemma multi_dist_fp_not_degenerate:
  assumes rn: "rounding rnd" and c: "covariance_fp rnd self h = Inr cov"
    and fin: "\<forall>m\<in>set (flat cov). all_finite m"
  shows "multi_dist_fp rnd accepts self h \<noteq> Inl NotPositiveDefinite"
proof
  assume "multi_dist_fp rnd accepts self h = Inl NotPositiveDefinite"
  with c obtain mean where "MultivariateNormal_init_fp rnd accepts mean cov = Inl NotPositiveDefinite"
    by (auto simp: multi_dist_fp_def and_then_def ew3_def split: sum.splits if_splits)
  from MultivariateNormal_init_fp_error[OF this] covariance_fp_entry[OF rn c] fin
  show False by blast
qed

lemma multi_dist_fp_nan:
  "multi_dist_fp rnd32 accepts mix0 fheap_nan = Inl NotPositiveDefinite"
proof -
  from clamp_constants[OF rounding_rnd32] obtain L R where
    L: "rnd32 (1 / 100000) = Fin L" "L \<le> 11 / 1000000"
    and R: "rnd32 (1 - 1 / 100000) = Fin R" "rnd32 (- 1 + 1 / 100000) = Fin (- R)"
      "0 < R" "R \<le> 1 - 9 / 1000000"
    by blast
  have c: "covariance_fp rnd32 mix0 fheap_nan
             = Inr [[[((NaN, NaN), (NaN, Fin 1))]]]"
    using L R
    by (simp add: covariance_fp_def mix0_def fheap_nan_def clamp_min_fp_def clamp_fp_def map3_def
        ew3_def same_shape3_def shape3_def stack4_fp_def and_then_def Let_def max_f_def min_f_def
        rnd32_1)
  have mean: "ew3 Pair (fheap_nan (mu_x mix0)) (fheap_nan (mu_y mix0)) = Inr [[[(Fin 1, Fin 1)]]]"
    by (simp add: mix0_def fheap_nan_def ew3_def same_shape3_def shape3_def)
  show ?thesis
    unfolding multi_dist_fp_def mean c
    by (simp add: same_shape3_def shape3_def and_then_def MultivariateNormal_init_fp_def
        positive_definite_fp_def symmetric_fp_def)
qed

lemma covariance_fp_unit:
  "covariance_fp rnd32 mix0 fheap_unit = Inr [[[((Fin 1, Fin 0), (Fin 0, Fin 1))]]]"
proof -
  from clamp_constants[OF rounding_rnd32] obtain L R where
    L: "rnd32 (1 / 100000) = Fin L" "L \<le> 11 / 1000000"
    and R: "rnd32 (1 - 1 / 100000) = Fin R" "rnd32 (- 1 + 1 / 100000) = Fin (- R)"
      "0 < R" "R \<le> 1 - 9 / 1000000"
    by blast
  from L(2) have l: "\<not> 1 \<le> L" by simp
  from R(3) have r: "\<not> R \<le> 0" by simp
  show ?thesis
    using L(1) R l r
    by (simp add: covariance_fp_def mix0_def fheap_unit_def clamp_min_fp_def clamp_fp_def map3_def
        ew3_def same_shape3_def shape3_def stack4_fp_def and_then_def Let_def max_f_def min_f_def
        rnd32_1 rnd32_0)
qed

lemma covariance_fp_degenerate:
  "\<exists>a b d. covariance_fp rnd32 mix0 fheap_degenerate = Inr [[[((Fin a, Fin b), (Fin b, Fin d))]]]"
proof -
  note rn = rounding_rnd32
  from clamp_constants[OF rn] obtain L R where
    L: "rnd32 (1 / 100000) = Fin L" "9 / 1000000 \<le> L" "L \<le> 11 / 1000000"
    and R: "rnd32 (1 - 1 / 100000) = Fin R" "rnd32 (- 1 + 1 / 100000) = Fin (- R)"
      "0 < R" "R \<le> 1 - 9 / 1000000"
    by blast
  have l: "0 \<le> L" "\<not> 1 \<le> - R" "R \<le> 1" "- 1 \<le> L" using L(2) R(3,4) by simp_all
  have "0 \<le> L * L" "L * L \<le> 1" using L(2,3) by (simp_all add: mult_le_one)
  from rnd_range[OF rn rnd32_0 rnd32_1 this] obtain a where a: "rnd32 (L * L) = Fin a" by blast
  have "0 \<le> R * L" "R * L \<le> 1" using L(2,3) R(3,4) by (simp_all add: mult_le_one)
  from rnd_range[OF rn rnd32_0 rnd32_1 this] obtain t where
    t: "rnd32 (R * L) = Fin t" "0 \<le> t" "t \<le> 1" by blast
  have "0 \<le> t * L" "t * L \<le> 1" using L(2,3) t(2,3) by (simp_all add: mult_le_one)
  from rnd_range[OF rn rnd32_0 rnd32_1 this] obtain b where b: "rnd32 (t * L) = Fin b" by blast
  have "covariance_fp rnd32 mix0 fheap_degenerate = Inr [[[((Fin a, Fin b), (Fin b, Fin a))]]]"
    using L(1) R(1,2) l a t(1) b
    by (simp add: covariance_fp_def mix0_def fheap_degenerate_def clamp_min_fp_def clamp_fp_def
        map3_def ew3_def same_shape3_def shape3_def stack4_fp_def and_then_def Let_def max_f_def
        min_f_def)
  then show ?thesis by blast
qed

lemma rnd32_overflow: "rnd32 (2 ^ 140) = PInf"
proof -
  have "nearest32 (2 ^ 23 * 2 powr of_int 117) = of_int (rne (2 ^ 23)) * 2 powr of_int 117"
    by (intro nearest32_scaled) simp_all
  moreover have "rne (2 ^ 23) = 2 ^ 23" using rne_of_int[of "2 ^ 23"] by simp
  ultimately have "nearest32 (2 ^ 140) = 2 ^ 140" by simp
  then show ?thesis by (simp add: rnd32_def rnd32p_def maxf32_def)
qed

lemma multi_dist_fp_inf:
  "multi_dist_fp rnd32 accepts mix0 fheap_inf = Inl NotPositiveDefinite"
proof -
  from clamp_constants[OF rounding_rnd32] obtain L R where
    L: "rnd32 (1 / 100000) = Fin L" "L \<le> 11 / 1000000"
    and R: "rnd32 (1 - 1 / 100000) = Fin R" "rnd32 (- 1 + 1 / 100000) = Fin (- R)"
      "0 < R" "R \<le> 1 - 9 / 1000000"
    by blast
  from L(2) have l: "\<not> 1 \<le> L" by simp
  from R(3) have r: "\<not> R \<le> 0" by simp
  have c: "covariance_fp rnd32 mix0 fheap_inf
             = Inr [[[((PInf, NaN), (NaN, Fin 1))]]]"
    using L(1) R l r
    by (simp add: covariance_fp_def mix0_def fheap_inf_def clamp_min_fp_def clamp_fp_def map3_def
        ew3_def same_shape3_def shape3_def stack4_fp_def and_then_def Let_def max_f_def min_f_def
        rnd32_1)
  have mean: "ew3 Pair (fheap_inf (mu_x mix0)) (fheap_inf (mu_y mix0)) = Inr [[[(Fin 1, Fin 1)]]]"
    by (simp add: mix0_def fheap_inf_def ew3_def same_shape3_def shape3_def)
  show ?thesis
    unfolding multi_dist_fp_def mean c
    by (simp add: same_shape3_def shape3_def and_then_def MultivariateNormal_init_fp_def
        positive_definite_fp_def symmetric_fp_def)
qed

text \<open>
  A standard deviation of \<open>2\<^sup>7\<^sup>0\<close> makes the first diagonal entry overflow.
\<close>

lemma covariance_fp_overflow:
  "covariance_fp rnd32 mix0 fheap_big = Inr [[[((PInf, Fin 0), (Fin 0, Fin 1))]]]"
proof -
  from clamp_constants[OF rounding_rnd32] obtain L R where
    L: "rnd32 (1 / 100000) = Fin L" "L \<le> 11 / 1000000"
    and R: "rnd32 (1 - 1 / 100000) = Fin R" "rnd32 (- 1 + 1 / 100000) = Fin (- R)"
      "0 < R" "R \<le> 1 - 9 / 1000000"
    by blast
  from L(2) have l: "\<not> 1 \<le> L" "\<not> 2 ^ 70 \<le> L" by simp_all
  from R(3) have r: "\<not> R \<le> 0" by simp
  have o: "rnd32 1393796574908163946345982392040522594123776 = PInf" using rnd32_overflow by simp
  show ?thesis
    using L(1) R l r
    by (simp add: covariance_fp_def mix0_def fheap_big_def clamp_min_fp_def clamp_fp_def map3_def
        ew3_def same_shape3_def shape3_def stack4_fp_def and_then_def Let_def max_f_def min_f_def
        rnd32_1 rnd32_0 o)
qed

text \<open>
  C4. In floating point, whatever the rounding function: whenever every entry of the
  covariance matrices that \<^verbatim>\<open>get_distribution\<close> builds is finite (no stored standard
  deviation or correlation is NaN, and no product overflows), every matrix is
  symmetric, has a strictly positive diagonal and a strictly positive determinant, and
  passes the check of the constructor; so the construction of \<^verbatim>\<open>multi_dist\<close> does not
  fail with the error for a degenerate covariance.
\<close>

theorem covariance_fp_positive_definite:
  assumes "rounding rnd" and "covariance_fp rnd self h = Inr cov"
    and "\<forall>m\<in>set (flat cov). all_finite m"
  shows "(\<forall>m\<in>set (flat cov). \<exists>a b d.
            m = ((Fin a, Fin b), (Fin b, Fin d)) \<and> 0 < a \<and> 0 < d \<and> 0 < a * d - b * b
            \<and> positive_definite_fp rnd accepts m)
         \<and> multi_dist_fp rnd accepts self h \<noteq> Inl NotPositiveDefinite"
  using covariance_fp_entry[OF assms(1,2)] multi_dist_fp_not_degenerate[OF assms] assms(3)
  by blast

theorem covariance_fp_positive_definite_witness:
  "rounding rnd32
   \<and> covariance_fp rnd32 mix0 fheap_unit = Inr [[[((Fin 1, Fin 0), (Fin 0, Fin 1))]]]
   \<and> all_finite ((Fin 1, Fin 0), (Fin 0, Fin 1))
   \<and> positive_definite_fp rnd32 (\<lambda>m. False) ((Fin 1, Fin 0), (Fin 0, Fin 1))
   \<and> multi_dist_fp rnd32 (\<lambda>m. False) mix0 fheap_unit \<noteq> Inl NotPositiveDefinite
   \<and> (\<exists>m. covariance_fp rnd32 mix0 fheap_degenerate = Inr [[[m]]] \<and> all_finite m
          \<and> positive_definite_fp rnd32 (\<lambda>m. False) m)
   \<and> multi_dist_fp rnd32 (\<lambda>m. False) mix0 fheap_degenerate \<noteq> Inl NotPositiveDefinite"
proof -
  note c = covariance_fp_unit
  have f: "\<forall>m\<in>set (flat [[[((Fin 1, Fin 0), (Fin 0, Fin 1))]]]). all_finite m"
    by (simp add: flat_def all_finite_def)
  from covariance_fp_positive_definite[OF rounding_rnd32 c f, of "\<lambda>m. False"]
  have u: "positive_definite_fp rnd32 (\<lambda>m. False) ((Fin 1, Fin 0), (Fin 0, Fin 1))"
    "multi_dist_fp rnd32 (\<lambda>m. False) mix0 fheap_unit \<noteq> Inl NotPositiveDefinite"
    by (simp_all add: flat_def)
  from covariance_fp_degenerate obtain a b d where
    g: "covariance_fp rnd32 mix0 fheap_degenerate = Inr [[[((Fin a, Fin b), (Fin b, Fin d))]]]"
    by blast
  have fg: "\<forall>m\<in>set (flat [[[((Fin a, Fin b), (Fin b, Fin d))]]]). all_finite m"
    by (simp add: flat_def all_finite_def)
  from covariance_fp_positive_definite[OF rounding_rnd32 g fg, of "\<lambda>m. False"]
  have v: "positive_definite_fp rnd32 (\<lambda>m. False) ((Fin a, Fin b), (Fin b, Fin d))"
    "multi_dist_fp rnd32 (\<lambda>m. False) mix0 fheap_degenerate \<noteq> Inl NotPositiveDefinite"
    by (simp_all add: flat_def)
  have "\<exists>m. covariance_fp rnd32 mix0 fheap_degenerate = Inr [[[m]]] \<and> all_finite m
          \<and> positive_definite_fp rnd32 (\<lambda>m. False) m"
    using g v(1) by (intro exI[of _ "((Fin a, Fin b), (Fin b, Fin d))"]) (simp add: all_finite_def)
  with rounding_rnd32 c u v(2) show ?thesis by (simp add: all_finite_def)
qed

text \<open>
  C4, as stated for every raw parameter tensor, fails: the clamps leave NaN and
  \<open>+\<infinity>\<close> as they are. With a NaN standard deviation the covariance matrix has NaN
  entries; with an infinite standard deviation (the exponential that
  \<^verbatim>\<open>DecoderRNN.forward\<close> applies overflows to it) and a correlation of zero the
  off-diagonal entry is \<open>0 \<times> \<infinity>\<close>, NaN. In both cases the symmetry check fails, and
  the constructor raises the error for a covariance that is not positive definite,
  whatever the factorisation routine does.
\<close>

theorem covariance_fp_nan_counterexample:
  "(\<forall>accepts. multi_dist_fp rnd32 accepts mix0 fheap_nan = Inl NotPositiveDefinite)
   \<and> (\<forall>accepts. multi_dist_fp rnd32 accepts mix0 fheap_inf = Inl NotPositiveDefinite)"
  using multi_dist_fp_nan multi_dist_fp_inf by simp

end
